(* ===== verification/Prelude.thy ===== *)
theory Prelude
  imports Main "HOL-Library.AList"
begin

text \<open>
  Shared vocabulary of the development.

  \<^item> JavaScript values (\<open>js\<close>), thrown exceptions (\<open>exn\<close>) and the project's
    \<open>RpcError\<close>;
  \<^item> objects used as dictionaries (\<open>Record<string, X>\<close>) as association lists in
    insertion order: \<open>AList.update\<close> is \<open>{...o, [k]: v}\<close> (and \<open>o[k] = v\<close>),
    \<open>AList.delete\<close> is \<open>delete o[k]\<close>, \<open>map_of o k\<close> reads \<open>o[k]\<close>;
  \<^item> asynchronous module operations as actions \<open>('s, 'a) act\<close>: functions from the state
    to a result, which is an exception or a value, and the new state. A thrown exception
    keeps the changes made before it, as the code does;
  \<^item> ASCII \<open>toLowerCase\<close> and decimal printing.
\<close>

named_theorems act_simps "unfolding equations of actions"
named_theorems obj_simps "lemmas on dictionaries"

section \<open>JavaScript values and exceptions\<close>

datatype js =
    Undefined
  | Null
  | Bool bool
  | Num int
  | BigNum int
  | Str string
  | Fn
  | Arr "js list"
  | Obj "(string \<times> js) list"
  | Instance string

record rpc_error =
  err_msg :: string
  err_code :: int
  err_data :: js

text \<open>
  \<open>new RpcError(msg, code)\<close>: the third argument of the constructor defaults to
  \<open>undefined\<close>.
\<close>

definition RpcError :: "string \<Rightarrow> int \<Rightarrow> rpc_error" where
  "RpcError m c = \<lparr>err_msg = m, err_code = c, err_data = Undefined\<rparr>"

definition RpcErrorData :: "string \<Rightarrow> int \<Rightarrow> js \<Rightarrow> rpc_error" where
  "RpcErrorData m c d = \<lparr>err_msg = m, err_code = c, err_data = d\<rparr>"

lemma RpcError_simps [simp]:
  "err_msg (RpcError m c) = m" "err_code (RpcError m c) = c"
  "err_data (RpcError m c) = Undefined"
  "err_msg (RpcErrorData m c d) = m" "err_code (RpcErrorData m c d) = c"
  "err_data (RpcErrorData m c d) = d"
  by (simp_all add: RpcError_def RpcErrorData_def)

text \<open>A thrown value is an \<open>RpcError\<close> or one of the built-in error classes.\<close>

datatype exn =
    RpcExn rpc_error
  | ErrorExn string
  | TypeErrorExn string
  | SyntaxErrorExn string

fun exn_message :: "exn \<Rightarrow> string" where
  "exn_message (RpcExn e) = err_msg e"
| "exn_message (ErrorExn m) = m"
| "exn_message (TypeErrorExn m) = m"
| "exn_message (SyntaxErrorExn m) = m"

section \<open>Actions\<close>

type_synonym ('s, 'a) act = "'s \<Rightarrow> (exn + 'a) \<times> 's"

definition ret :: "'a \<Rightarrow> ('s, 'a) act" where
  "ret x = (\<lambda>s. (Inr x, s))"

definition throw :: "exn \<Rightarrow> ('s, 'a) act" where
  "throw e = (\<lambda>s. (Inl e, s))"

definition andThen :: "('s, 'a) act \<Rightarrow> ('a \<Rightarrow> ('s, 'b) act) \<Rightarrow> ('s, 'b) act" where
  "andThen m f = (\<lambda>s. case m s of (Inl e, s') \<Rightarrow> (Inl e, s') | (Inr x, s') \<Rightarrow> f x s')"

definition liftE :: "exn + 'a \<Rightarrow> ('s, 'a) act" where
  "liftE r = (\<lambda>s. (r, s))"

text \<open>\<open>try { m } catch (e) { h(e) }\<close>\<close>

definition catch_exn :: "('s, 'a) act \<Rightarrow> (exn \<Rightarrow> ('s, 'a) act) \<Rightarrow> ('s, 'a) act" where
  "catch_exn m h = (\<lambda>s. case m s of (Inl e, s') \<Rightarrow> h e s' | (Inr x, s') \<Rightarrow> (Inr x, s'))"

text \<open>\<open>for (const x of xs) { await f(x) }\<close>\<close>

fun for_each :: "'a list \<Rightarrow> ('a \<Rightarrow> ('s, unit) act) \<Rightarrow> ('s, unit) act" where
  "for_each [] f = ret ()"
| "for_each (x # xs) f = andThen (f x) (\<lambda>_. for_each xs f)"

lemma ret_apply [act_simps, simp]: "ret x s = (Inr x, s)"
  by (simp add: ret_def)

lemma throw_apply [act_simps, simp]: "throw e s = (Inl e, s)"
  by (simp add: throw_def)

lemma liftE_apply [act_simps, simp]: "liftE r s = (r, s)"
  by (simp add: liftE_def)

lemma andThen_ret [simp]: "andThen (ret x) f = f x" "andThen (Pair (Inr x)) f = f x"
  by (simp_all add: andThen_def fun_eq_iff)

lemma andThen_throw [simp]: "andThen (throw e) f = throw e"
  by (simp add: andThen_def fun_eq_iff throw_def)

lemma andThen_Inr: "m s = (Inr x, s') \<Longrightarrow> andThen m f s = f x s'"
  by (simp add: andThen_def)

lemma andThen_Inl: "m s = (Inl e, s') \<Longrightarrow> andThen m f s = (Inl e, s')"
  by (simp add: andThen_def)

lemma andThen_assoc: "andThen (andThen m f) g = andThen m (\<lambda>x. andThen (f x) g)"
  by (auto simp: andThen_def fun_eq_iff split: prod.splits sum.splits)

lemma andThen_ret_right [simp]: "andThen m ret = m"
  by (auto simp: andThen_def fun_eq_iff split: prod.splits sum.splits)

lemma andThen_InrE:
  assumes "andThen m f s = (Inr y, t)"
  obtains x s' where "m s = (Inr x, s')" and "f x s' = (Inr y, t)"
  using assms by (auto simp: andThen_def split: prod.splits sum.splits)

lemma for_each_append:
  "for_each (xs @ ys) f = andThen (for_each xs f) (\<lambda>_. for_each ys f)"
  by (induction xs) (simp_all add: andThen_assoc)

text \<open>A loop whose body always returns normally folds the body's state change.\<close>

lemma for_each_fold:
  assumes "\<And>x s. x \<in> set xs \<Longrightarrow> f x s = (Inr (), g x s)"
  shows "for_each xs f s = (Inr (), fold g xs s)"
  using assms by (induction xs arbitrary: s) (simp_all add: andThen_def)

text \<open>
  An action keeps a state predicate if every outcome, exceptions included, satisfies it.
  This is the one notion of invariant the module proofs use.
\<close>

definition keeps :: "('s \<Rightarrow> bool) \<Rightarrow> ('s, 'a) act \<Rightarrow> bool" where
  "keeps P m \<longleftrightarrow> (\<forall>s. P s \<longrightarrow> P (snd (m s)))"

lemma keepsI [intro?]: "(\<And>s. P s \<Longrightarrow> P (snd (m s))) \<Longrightarrow> keeps P m"
  by (simp add: keeps_def)

lemma keepsD: "keeps P m \<Longrightarrow> P s \<Longrightarrow> P (snd (m s))"
  by (simp add: keeps_def)

text \<open>An action that keeps every predicate changes nothing.\<close>

lemma keeps_same: "keeps (\<lambda>t. t = s) m \<Longrightarrow> snd (m s) = s"
  by (simp add: keeps_def)

lemma keeps_ret [simp, intro]: "keeps P (ret x)"
  by (simp add: keeps_def)

lemma keeps_Pair [simp, intro]: "keeps P (Pair r)"
  by (simp add: keeps_def)

lemma keeps_throw [simp, intro]: "keeps P (throw e)"
  by (simp add: keeps_def)

lemma keeps_liftE [simp, intro]: "keeps P (liftE r)"
  by (simp add: keeps_def)

lemma keeps_andThen [intro]:
  assumes "keeps P m" and "\<And>x. keeps P (f x)"
  shows "keeps P (andThen m f)"
proof
  fix s assume "P s"
  with assms(1) have "P (snd (m s))" by (rule keepsD)
  with assms(2) show "P (snd (andThen m f s))"
    by (auto simp: andThen_def keeps_def split: prod.splits sum.splits)
qed

lemma keeps_catch [intro]:
  assumes "keeps P m" and "\<And>e. keeps P (h e)"
  shows "keeps P (catch_exn m h)"
proof
  fix s assume "P s"
  with assms(1) have "P (snd (m s))" by (rule keepsD)
  with assms(2) show "P (snd (catch_exn m h s))"
    by (auto simp: catch_exn_def keeps_def split: prod.splits sum.splits)
qed

lemma keeps_for_each [intro]:
  assumes "\<And>x. x \<in> set xs \<Longrightarrow> keeps P (f x)"
  shows "keeps P (for_each xs f)"
  using assms by (induction xs) auto

lemma keeps_if [intro]: "keeps P a \<Longrightarrow> keeps P b \<Longrightarrow> keeps P (if c then a else b)"
  by simp

text \<open>Code that can throw but keeps no state.\<close>

definition bindX :: "exn + 'a \<Rightarrow> ('a \<Rightarrow> exn + 'b) \<Rightarrow> exn + 'b" where
  "bindX m f = (case m of Inl e \<Rightarrow> Inl e | Inr x \<Rightarrow> f x)"

lemma bindX_simps [simp]: "bindX (Inl e) f = Inl e" "bindX (Inr x) f = f x"
  by (simp_all add: bindX_def)

lemma bindX_InrE:
  assumes "bindX m f = Inr y"
  obtains x where "m = Inr x" and "f x = Inr y"
  using assms by (cases m) simp_all

section \<open>Dictionaries\<close>

type_synonym 'v js_object = "(string \<times> 'v) list"

definition obj_ok :: "'v js_object \<Rightarrow> bool" where
  "obj_ok ob \<longleftrightarrow> distinct (map fst ob)"

text \<open>\<open>{...a, ...b}\<close> and \<open>Object.assign(a, b)\<close>: the entries of \<open>b\<close> are stored into
  \<open>a\<close> one by one.\<close>

definition spread :: "'v js_object \<Rightarrow> 'v js_object \<Rightarrow> 'v js_object" where
  "spread a b = fold (\<lambda>(k, v). AList.update k v) b a"

lemma obj_ok_Nil [simp]: "obj_ok []"
  by (simp add: obj_ok_def)

lemma obj_ok_update [simp, intro]: "obj_ok ob \<Longrightarrow> obj_ok (AList.update k v ob)"
  by (simp add: obj_ok_def distinct_update)

lemma obj_ok_delete [simp, intro]: "obj_ok ob \<Longrightarrow> obj_ok (AList.delete k ob)"
  by (simp add: obj_ok_def distinct_delete)

lemma obj_ok_spread [simp, intro]: "obj_ok a \<Longrightarrow> obj_ok (spread a b)"
  unfolding spread_def by (induction b arbitrary: a) auto

lemma map_of_upd [obj_simps, simp]:
  "map_of (AList.update k v ob) k' = (if k' = k then Some v else map_of ob k')"
  by (simp add: update_conv)

lemma map_of_del [obj_simps, simp]:
  "map_of (AList.delete k ob) k' = (if k' = k then None else map_of ob k')"
  by (simp add: delete_conv)

lemma map_of_spread [obj_simps]:
  "obj_ok b \<Longrightarrow> map_of (spread a b) k = (case map_of b k of Some v \<Rightarrow> Some v | None \<Rightarrow> map_of a k)"
proof (induction b arbitrary: a)
  case Nil
  then show ?case by (simp add: spread_def)
next
  case (Cons p b)
  obtain k' v' where p: "p = (k', v')" by (cases p)
  from Cons.prems p have b: "obj_ok b" and fresh: "k' \<notin> fst ` set b"
    by (auto simp: obj_ok_def)
  have "map_of (spread a (p # b)) k = map_of (spread (AList.update k' v' a) b) k"
    by (simp add: spread_def p)
  also have "\<dots> = (case map_of b k of Some v \<Rightarrow> Some v | None \<Rightarrow> map_of (AList.update k' v' a) k)"
    using Cons.IH [OF b] by simp
  finally show ?case
    using fresh by (auto simp: p image_iff split: option.splits dest!: map_of_SomeD)
qed

lemma obj_ok_map_of_iff: "obj_ok ob \<Longrightarrow> map_of ob k = Some v \<longleftrightarrow> (k, v) \<in> set ob"
  by (simp add: obj_ok_def)

lemma set_update_subset: "set (AList.update k v ob) \<subseteq> insert (k, v) (set ob)"
  by (induction ob) auto

lemma set_update_distinct:
  "obj_ok ob \<Longrightarrow> set (AList.update k v ob) = insert (k, v) {p \<in> set ob. fst p \<noteq> k}"
  by (induction ob) (force simp: obj_ok_def)+

lemma set_delete [obj_simps]: "set (AList.delete k ob) = {p \<in> set ob. fst p \<noteq> k}"
  by (auto simp: AList.delete_eq)

lemma keys_update:
  "map fst (AList.update k v ob) = (if k \<in> fst ` set ob then map fst ob else map fst ob @ [k])"
  by (simp add: update_keys)

lemma length_update:
  "length (AList.update k v ob) = (if k \<in> fst ` set ob then length ob else Suc (length ob))"
  by (induction ob) auto

section \<open>Strings\<close>

definition lower_char :: "char \<Rightarrow> char" where
  "lower_char c = (let n = (of_char c :: nat)
     in if 65 \<le> n \<and> n \<le> 90 then char_of (n + 32) else c)"

definition toLowerCase :: "string \<Rightarrow> string" where
  "toLowerCase = map lower_char"

lemma lower_char_idem [simp]: "lower_char (lower_char c) = lower_char c"
  by (simp add: lower_char_def Let_def)

lemma toLowerCase_idem [simp]: "toLowerCase (toLowerCase s) = toLowerCase s"
  by (simp add: toLowerCase_def)

lemma lower_char_letters [simp]:
  "lower_char CHR ''A'' = CHR ''a''" "lower_char CHR ''B'' = CHR ''b''"
  "lower_char CHR ''C'' = CHR ''c''" "lower_char CHR ''D'' = CHR ''d''"
  "lower_char CHR ''E'' = CHR ''e''" "lower_char CHR ''F'' = CHR ''f''"
  "lower_char CHR ''a'' = CHR ''a''" "lower_char CHR ''b'' = CHR ''b''"
  "lower_char CHR ''c'' = CHR ''c''" "lower_char CHR ''d'' = CHR ''d''"
  "lower_char CHR ''e'' = CHR ''e''" "lower_char CHR ''f'' = CHR ''f''"
  "lower_char CHR ''x'' = CHR ''x''" "lower_char CHR ''0'' = CHR ''0''"
  "lower_char CHR ''1'' = CHR ''1''" "lower_char CHR ''2'' = CHR ''2''"
  "lower_char CHR ''3'' = CHR ''3''" "lower_char CHR ''4'' = CHR ''4''"
  "lower_char CHR ''5'' = CHR ''5''" "lower_char CHR ''6'' = CHR ''6''"
  "lower_char CHR ''7'' = CHR ''7''" "lower_char CHR ''8'' = CHR ''8''"
  "lower_char CHR ''9'' = CHR ''9''"
  by code_simp+

lemma toLowerCase_Cons [simp]: "toLowerCase (c # s) = lower_char c # toLowerCase s"
  by (simp add: toLowerCase_def)

lemma length_toLowerCase [simp]: "length (toLowerCase s) = length s"
  by (simp add: toLowerCase_def)

lemma toLowerCase_Nil [simp]: "toLowerCase [] = [] \<and> (toLowerCase s = [] \<longleftrightarrow> s = [])"
  by (simp add: toLowerCase_def)

fun nat_str :: "nat \<Rightarrow> string" where
  "nat_str n = (if n < 10 then [char_of (48 + n)] else nat_str (n div 10) @ [char_of (48 + n mod 10)])"

declare nat_str.simps [simp del]

definition int_str :: "int \<Rightarrow> string" where
  "int_str i = (if i < 0 then ''-'' @ nat_str (nat (- i)) else nat_str (nat i))"

text \<open>
  Truthiness of an optional string: \<open>undefined\<close>, \<open>null\<close> and the empty string are
  falsy.
\<close>

fun truthy :: "string option \<Rightarrow> bool" where
  "truthy None = False"
| "truthy (Some s) = (s \<noteq> [])"

lemma truthy_iff: "truthy x \<longleftrightarrow> (\<exists>s. x = Some s \<and> s \<noteq> [])"
  by (cases x) auto

end
