(* ===== verification/Either_Monad.thy ===== *)
theory Either_Monad
  imports Prelude
begin

text \<open>
  The class \<open>Either\<close> of \<open>src/monad/either.ts\<close>: its two subclasses are the constructors,
  its methods are functions. Code that can also throw while it computes an \<open>Either\<close> has the
  type \<open>exn + ('l, 'r) either\<close>; \<open>flatMapX\<close> is \<open>flatMap\<close> there.

  The locale \<open>check_chain\<close> is the interface of every chain \<open>x.flatMap(c1)....flatMap(cn)\<close>
  of the program (request validation, ERC-7562 rule checks); it is interpreted on both.
\<close>

section \<open>The Either class\<close>

datatype ('l, 'r) either = Left 'l | Right 'r

fun either_map :: "('r \<Rightarrow> 'u) \<Rightarrow> ('l, 'r) either \<Rightarrow> ('l, 'u) either" where
  "either_map f (Left e) = Left e"
| "either_map f (Right v) = Right (f v)"

fun flatMap :: "('l, 'r) either \<Rightarrow> ('r \<Rightarrow> ('l, 'u) either) \<Rightarrow> ('l, 'u) either" where
  "flatMap (Left e) f = Left e"
| "flatMap (Right v) f = f v"

fun getOrElse :: "('l, 'r) either \<Rightarrow> 'r \<Rightarrow> 'r" where
  "getOrElse (Left e) d = d"
| "getOrElse (Right v) d = v"

fun isLeft :: "('l, 'r) either \<Rightarrow> bool" where
  "isLeft (Left e) = True"
| "isLeft (Right v) = False"

fun isRight :: "('l, 'r) either \<Rightarrow> bool" where
  "isRight (Left e) = False"
| "isRight (Right v) = True"

fun foldEither :: "('l \<Rightarrow> 'u) \<Rightarrow> ('r \<Rightarrow> 'u) \<Rightarrow> ('l, 'r) either \<Rightarrow> 'u" where
  "foldEither onLeft onRight (Left e) = onLeft e"
| "foldEither onLeft onRight (Right v) = onRight v"

text \<open>\<open>foldAsync\<close>: the two continuations are asynchronous.\<close>

definition foldAsync ::
  "('l \<Rightarrow> ('s, 'u) act) \<Rightarrow> ('r \<Rightarrow> ('s, 'u) act) \<Rightarrow> ('l, 'r) either \<Rightarrow> ('s, 'u) act" where
  "foldAsync onLeft onRight x = foldEither onLeft onRight x"

lemma foldAsync_simps [simp]:
  "foldAsync f g (Left e) = f e" "foldAsync f g (Right v) = g v"
  by (simp_all add: foldAsync_def)

lemma isRight_iff: "isRight x \<longleftrightarrow> \<not> isLeft x"
  by (cases x) auto

lemma either_map_flatMap: "either_map f x = flatMap x (Right \<circ> f)"
  by (cases x) auto

lemma either_map_comp: "either_map g (either_map f x) = either_map (g \<circ> f) x"
  by (cases x) auto

lemma flatMap_assoc: "flatMap (flatMap x f) g = flatMap x (\<lambda>v. flatMap (f v) g)"
  by (cases x) auto

lemma flatMap_Right [simp]: "flatMap x Right = x"
  by (cases x) auto

lemma flatMap_RightE:
  assumes "flatMap x f = Right y"
  obtains v where "x = Right v" and "f v = Right y"
  using assms by (cases x) auto

lemma fold_either_map: "foldEither l r (either_map f x) = foldEither l (r \<circ> f) x"
  by (cases x) auto

section \<open>Chains of checks\<close>

locale check_chain =
  fixes unit :: "'a \<Rightarrow> 'm"
    and bind :: "'m \<Rightarrow> ('a \<Rightarrow> 'm) \<Rightarrow> 'm"
    and failed :: "'m \<Rightarrow> bool"
  assumes unit_bind: "bind (unit x) f = f x"
    and bind_unit: "bind m unit = m"
    and bind_assoc: "bind (bind m f) g = bind m (\<lambda>x. bind (f x) g)"
    and failed_bind: "failed m \<Longrightarrow> bind m f = m"
    and unit_inj: "unit x = unit y \<Longrightarrow> x = y"
    and not_failed_iff: "\<not> failed m \<longleftrightarrow> (\<exists>x. m = unit x)"
begin

lemma unit_not_failed: "\<not> failed (unit x)"
  by (auto simp: not_failed_iff)

lemma chain_failed: "failed m \<Longrightarrow> foldl bind m cs = m"
  by (induction cs) (simp_all add: failed_bind)

lemma chain_success_start: "foldl bind m cs = unit y \<Longrightarrow> \<exists>x. m = unit x"
  by (metis chain_failed not_failed_iff)

text \<open>The first failing check decides the result, whatever stands behind it.\<close>

lemma chain_first_failure:
  assumes "\<And>c. c \<in> set cs \<Longrightarrow> c x = unit x" and "failed (d x)"
  shows "foldl bind (unit x) (cs @ d # ds) = d x"
  using assms
proof (induction cs)
  case (Cons c cs)
  from Cons.prems(1) [of c] have "c x = unit x" by simp
  then have "foldl bind (unit x) ((c # cs) @ d # ds) = foldl bind (unit x) (cs @ d # ds)"
    by (simp add: unit_bind)
  also have "\<dots> = d x" using Cons by (meson list.set_intros(2))
  finally show ?case .
qed (simp add: unit_bind chain_failed)

text \<open>
  A chain of checks that hand on their argument unchanged succeeds exactly when every one
  of them does.
\<close>

lemma chain_pass_iff:
  assumes "\<And>c x. c \<in> set cs \<Longrightarrow> c x = unit x \<or> failed (c x)"
  shows "foldl bind (unit x) cs = unit x \<longleftrightarrow> (\<forall>c \<in> set cs. c x = unit x)"
  using assms
proof (induction cs)
  case Nil
  then show ?case by simp
next
  case (Cons c cs)
  show ?case
  proof (cases "failed (c x)")
    case True
    then show ?thesis by (auto simp: unit_bind chain_failed unit_not_failed)
  next
    case False
    with Cons.prems have "c x = unit x" by auto
    with Cons show ?thesis by (simp add: unit_bind)
  qed
qed

lemma chain_pass_or_fail:
  assumes "\<And>c x. c \<in> set cs \<Longrightarrow> c x = unit x \<or> failed (c x)"
  shows "foldl bind (unit x) cs = unit x \<or> failed (foldl bind (unit x) cs)"
  using assms
proof (induction cs)
  case (Cons c cs)
  show ?case
  proof (cases "failed (c x)")
    case False
    with Cons.prems [of c x] have "c x = unit x" by simp
    with Cons show ?thesis by (simp add: unit_bind)
  qed (simp add: unit_bind chain_failed)
qed simp

text \<open>What every check establishes and the later ones keep holds of a chain's result.\<close>

lemma chain_invariant:
  assumes "P x" and "foldl bind (unit x) cs = unit y"
    and "\<And>c u v. c \<in> set cs \<Longrightarrow> P u \<Longrightarrow> c u = unit v \<Longrightarrow> P v"
  shows "P y"
  using assms
proof (induction cs arbitrary: x)
  case Nil
  then show ?case by (auto dest: unit_inj)
next
  case (Cons c cs)
  then have "foldl bind (c x) cs = unit y" by (simp add: unit_bind)
  moreover from chain_success_start [OF this] obtain u where "c x = unit u" by blast
  ultimately show ?case using Cons by (metis list.set_intros)
qed

text \<open>Each check of a successful chain has run and succeeded on some intermediate value.\<close>

lemma chain_split:
  assumes "foldl bind (unit x) (cs @ d # ds) = unit y"
  obtains u v where "foldl bind (unit x) cs = unit u" and "d u = unit v"
    and "foldl bind (unit v) ds = unit y"
proof -
  from assms have "foldl bind (foldl bind (unit x) cs) (d # ds) = unit y" by simp
  moreover from chain_success_start [OF this] obtain u where u: "foldl bind (unit x) cs = unit u"
    by blast
  ultimately have "foldl bind (d u) ds = unit y" by (simp add: unit_bind)
  moreover from chain_success_start [OF this] obtain v where "d u = unit v" by blast
  ultimately show thesis using u that by simp
qed

end

interpretation either_chain: check_chain Right flatMap isLeft
proof unfold_locales
  fix m :: "('l, 'r) either"
  show "(\<not> isLeft m) = (\<exists>x. m = Right x)" by (cases m) auto
next
  fix m :: "('l, 'r) either" and f
  show "isLeft m \<Longrightarrow> flatMap m f = m" by (cases m) auto
qed (auto simp: flatMap_assoc)

text \<open>A computation that may throw, or return an \<open>Either\<close>.\<close>

type_synonym ('l, 'r) either_x = "exn + ('l, 'r) either"

fun flatMapX :: "('l, 'r) either_x \<Rightarrow> ('r \<Rightarrow> ('l, 'u) either_x) \<Rightarrow> ('l, 'u) either_x" where
  "flatMapX (Inl e) f = Inl e"
| "flatMapX (Inr (Left l)) f = Inr (Left l)"
| "flatMapX (Inr (Right v)) f = f v"

abbreviation RightX :: "'r \<Rightarrow> ('l, 'r) either_x" where
  "RightX v \<equiv> Inr (Right v)"

abbreviation LeftX :: "'l \<Rightarrow> ('l, 'r) either_x" where
  "LeftX e \<equiv> Inr (Left e)"

fun failedX :: "('l, 'r) either_x \<Rightarrow> bool" where
  "failedX (Inl e) = True"
| "failedX (Inr (Left l)) = True"
| "failedX (Inr (Right v)) = False"

lemma flatMapX_assoc: "flatMapX (flatMapX x f) g = flatMapX x (\<lambda>v. flatMapX (f v) g)"
  by (cases x rule: failedX.cases) auto

lemma flatMapX_RightE:
  assumes "flatMapX x f = RightX y"
  obtains v where "x = RightX v" and "f v = RightX y"
  using assms by (cases x rule: failedX.cases) auto

lemma failedX_iff: "\<not> failedX m \<longleftrightarrow> (\<exists>x. m = RightX x)"
  by (cases m rule: failedX.cases) auto

interpretation eitherx_chain: check_chain RightX flatMapX failedX
proof unfold_locales
  fix m :: "('l, 'r) either_x"
  show "flatMapX m RightX = m" by (cases m rule: failedX.cases) auto
next
  fix m :: "('l, 'r) either_x" and f
  show "failedX m \<Longrightarrow> flatMapX m f = m" by (cases m rule: failedX.cases) auto
qed (auto simp: flatMapX_assoc failedX_iff)

end
