(* ===== verification/Js_Number.thy ===== *)
theory Js_Number
  imports Prelude
begin

text \<open>
  JavaScript's numeric conversions, as far as the bundler's decisions depend on them:
  rounding of \<open>Number(bigint)\<close> and of a product to a binary64 double, \<open>parseInt\<close> and
  \<open>BigInt\<close> of a string. Counters stay below \<open>2 ^ 53\<close>, where integer arithmetic on doubles is
  exact, and are plain \<open>int\<close>; quotients floored by \<open>Math.floor\<close> are \<open>div\<close>.
\<close>

section \<open>Rounding to 53 significant bits\<close>

fun bit_len :: "nat \<Rightarrow> nat" where
  "bit_len n = (if n = 0 then 0 else Suc (bit_len (n div 2)))"

declare bit_len.simps [simp del]

lemma bit_len_0 [simp]: "bit_len 0 = 0"
  by (simp add: bit_len.simps)

lemma bit_len_upper: "n < 2 ^ bit_len n"
proof (induction n rule: bit_len.induct)
  case (1 n)
  show ?case
  proof (cases "n = 0")
    case False
    with 1 have "n div 2 < 2 ^ bit_len (n div 2)" by simp
    then have "n < 2 * 2 ^ bit_len (n div 2)" by simp
    with False show ?thesis by (simp add: bit_len.simps [of n])
  qed simp
qed

lemma bit_len_lower: "n \<noteq> 0 \<Longrightarrow> 2 ^ (bit_len n - 1) \<le> n"
proof (induction n rule: bit_len.induct)
  case (1 n)
  show ?case
  proof (cases "n div 2 = 0")
    case True
    with 1 show ?thesis by (simp add: bit_len.simps [of n])
  next
    case False
    with 1 have "2 ^ (bit_len (n div 2) - 1) \<le> n div 2" by simp
    moreover have "bit_len (n div 2) \<noteq> 0"
      using False by (simp add: bit_len.simps [of "n div 2"])
    then obtain k where "bit_len (n div 2) = Suc k" by (cases "bit_len (n div 2)") auto
    ultimately show ?thesis using 1 by (simp add: bit_len.simps [of n])
  qed
qed

lemma bit_len_le: "n < 2 ^ k \<Longrightarrow> bit_len n \<le> k"
proof (rule ccontr)
  assume n: "n < 2 ^ k" and "\<not> bit_len n \<le> k"
  then have "k \<le> bit_len n - 1" and "n \<noteq> 0" by (auto intro: ccontr)
  then have "(2::nat) ^ k \<le> 2 ^ (bit_len n - 1)" by simp
  with bit_len_lower [OF \<open>n \<noteq> 0\<close>] n show False by linarith
qed

text \<open>Round to nearest, ties to even, of a natural number (a double's significand).\<close>

definition rne53 :: "nat \<Rightarrow> nat" where
  "rne53 n =
     (if bit_len n \<le> 53 then n
      else let s = bit_len n - 53; q = n div 2 ^ s; r = n mod 2 ^ s; h = 2 ^ (s - 1)
           in if r < h \<or> (r = h \<and> even q) then q * 2 ^ s else (q + 1) * 2 ^ s)"

text \<open>\<open>Number(x)\<close> for a \<open>bigint\<close> below the double range.\<close>

definition Number_of :: "int \<Rightarrow> int" where
  "Number_of i = (if i < 0 then - int (rne53 (nat (- i))) else int (rne53 (nat i)))"

lemma rne53_exact: "n < 2 ^ 53 \<Longrightarrow> rne53 n = n"
  by (simp add: rne53_def bit_len_le)

lemma Number_of_exact: "\<bar>i\<bar> < 2 ^ 53 \<Longrightarrow> Number_of i = i"
  by (auto simp: Number_of_def rne53_exact nat_less_iff)

text \<open>Rounding moves a value by at most half a unit in the last place.\<close>

lemma rne53_lower: "n \<le> rne53 n + 2 ^ (bit_len n - 54)"
proof (cases "bit_len n \<le> 53")
  case True
  then show ?thesis by (simp add: rne53_def)
next
  case False
  define s where "s = bit_len n - 53"
  have s: "s - 1 = bit_len n - 54" by (simp add: s_def)
  have n: "n = n div 2 ^ s * 2 ^ s + n mod 2 ^ s" by (simp only: div_mult_mod_eq)
  have "n mod 2 ^ s < 2 ^ s" by simp
  moreover have "(2::nat) ^ s = 2 * 2 ^ (s - 1)" using False by (simp add: s_def flip: power_Suc)
  ultimately show ?thesis
    using False n unfolding rne53_def Let_def s_def [symmetric] s [symmetric]
    by (simp only: if_False split: if_split) (simp only: add_mult_distrib, linarith)
qed

lemma rne53_upper: "rne53 n \<le> n + 2 ^ (bit_len n - 54)"
proof (cases "bit_len n \<le> 53")
  case True
  then show ?thesis by (simp add: rne53_def)
next
  case False
  define s where "s = bit_len n - 53"
  have s: "s - 1 = bit_len n - 54" by (simp add: s_def)
  have n: "n = n div 2 ^ s * 2 ^ s + n mod 2 ^ s" by (simp only: div_mult_mod_eq)
  moreover have "(2::nat) ^ s = 2 * 2 ^ (s - 1)" using False by (simp add: s_def flip: power_Suc)
  ultimately show ?thesis
    using False unfolding rne53_def Let_def s_def [symmetric] s [symmetric]
    by (simp only: if_False split: if_split) (simp only: add_mult_distrib, linarith)
qed

lemma Number_of_error:
  assumes "0 \<le> i" and "i < 2 ^ (54 + k)"
  shows "\<bar>Number_of i - i\<bar> \<le> 2 ^ k"
proof -
  have "nat i < 2 ^ (54 + k)" using assms by (simp add: nat_less_iff)
  then have "bit_len (nat i) - 54 \<le> k" using bit_len_le [of "nat i" "54 + k"] by simp
  then have "(2::nat) ^ (bit_len (nat i) - 54) \<le> 2 ^ k" by simp
  with rne53_upper [of "nat i"] rne53_lower [of "nat i"]
  have "rne53 (nat i) \<le> nat i + 2 ^ k" "nat i \<le> rne53 (nat i) + 2 ^ k" by linarith+
  then have "int (rne53 (nat i)) \<le> i + 2 ^ k" "i \<le> int (rne53 (nat i)) + 2 ^ k"
    using assms(1) by (simp_all flip: of_nat_le_iff [where 'a = int])
  then show ?thesis using assms(1) by (simp add: Number_of_def)
qed

section \<open>parseInt and BigInt of a string\<close>

definition is_space :: "char \<Rightarrow> bool" where
  "is_space c \<longleftrightarrow> of_char c \<in> {9, 10, 11, 12, 13, 32 :: nat}"

text \<open>The value of a digit in any base up to 36; 36 for a character that is none.\<close>

definition digit_value :: "char \<Rightarrow> nat" where
  "digit_value c = (let n = (of_char c :: nat) in
     if 48 \<le> n \<and> n \<le> 57 then n - 48
     else if 97 \<le> n \<and> n \<le> 122 then n - 87
     else if 65 \<le> n \<and> n \<le> 90 then n - 55 else 36)"

definition digits_value :: "nat \<Rightarrow> string \<Rightarrow> nat" where
  "digits_value base = foldl (\<lambda>acc c. acc * base + digit_value c) 0"

definition is_digits :: "nat \<Rightarrow> string \<Rightarrow> bool" where
  "is_digits base s \<longleftrightarrow> s \<noteq> [] \<and> list_all (\<lambda>c. digit_value c < base) s"

fun strip_sign :: "string \<Rightarrow> bool \<times> string" where
  "strip_sign [] = (False, [])"
| "strip_sign (c # s) =
     (if c = CHR ''-'' then (True, s) else if c = CHR ''+'' then (False, s) else (False, c # s))"

fun strip_0x :: "string \<Rightarrow> string option" where
  "strip_0x (a # b # s) =
     (if a = CHR ''0'' \<and> (b = CHR ''x'' \<or> b = CHR ''X'') then Some s else None)"
| "strip_0x _ = None"

text \<open>
  \<open>parseInt(s, radix)\<close>; \<open>radix = None\<close> is a missing argument. \<open>None\<close> is \<open>NaN\<close>.
\<close>

definition parseInt :: "nat option \<Rightarrow> string \<Rightarrow> int option" where
  "parseInt radix s =
     (let (neg, t) = strip_sign (dropWhile is_space s);
          (base, body) = (case radix of
              None \<Rightarrow> (case strip_0x t of Some u \<Rightarrow> (16, u) | None \<Rightarrow> (10, t))
            | Some b \<Rightarrow> (case strip_0x t of Some u \<Rightarrow> (if b = 16 then (16, u) else (b, t))
                         | None \<Rightarrow> (b, t)));
          ds = takeWhile (\<lambda>c. digit_value c < base) body
      in if ds = [] then None
         else Some (if neg then - int (digits_value base ds) else int (digits_value base ds)))"

definition trim :: "string \<Rightarrow> string" where
  "trim s = rev (dropWhile is_space (rev (dropWhile is_space s)))"

text \<open>\<open>BigInt(s)\<close> of a string; \<open>None\<close> is the \<open>SyntaxError\<close> it throws.\<close>

definition BigInt_str :: "string \<Rightarrow> int option" where
  "BigInt_str s =
     (let t = trim s in
      if t = [] then Some 0
      else case strip_0x t of
        Some u \<Rightarrow> (if is_digits 16 u then Some (int (digits_value 16 u)) else None)
      | None \<Rightarrow>
          if take 2 t \<in> {''0o'', ''0O''} then
            (if is_digits 8 (drop 2 t) then Some (int (digits_value 8 (drop 2 t))) else None)
          else if take 2 t \<in> {''0b'', ''0B''} then
            (if is_digits 2 (drop 2 t) then Some (int (digits_value 2 (drop 2 t))) else None)
          else (let (neg, u) = strip_sign t in
            if is_digits 10 u then
              Some (if neg then - int (digits_value 10 u) else int (digits_value 10 u))
            else None))"

definition BigInt_x :: "string \<Rightarrow> exn + int" where
  "BigInt_x s = (case BigInt_str s of
     Some i \<Rightarrow> Inr i
   | None \<Rightarrow> Inl (SyntaxErrorExn (''Cannot convert '' @ s @ '' to a BigInt'')))"

end
