(* ===== verification/Bundler_Types.thy ===== *)
theory Bundler_Types
  imports Either_Monad Js_Number
begin

text \<open>
  The data of \<open>src/types/\<close>: user operations, mempool entries, reputation entries, stake
  information, validation results and the six-field global \<open>State\<close>. A \<open>BigNumberish\<close> field
  is the integer that \<open>BigInt()\<close> of it returns; an optional field is an \<open>option\<close>
  (\<open>None\<close> is \<open>undefined\<close> or \<open>null\<close>). Dictionaries keep their insertion order.
\<close>

text \<open>\<open>ethers.ZeroAddress\<close>\<close>

definition ZeroAddress :: string where
  "ZeroAddress = ''0x0000000000000000000000000000000000000000''"

section \<open>User operations\<close>

record eip7702_authorization =
  auth_chainId :: int
  auth_address :: string
  auth_nonce :: int
  auth_yParity :: int
  auth_r :: int
  auth_s :: int

record user_operation =
  sender :: string
  nonce :: int
  factory :: "string option"
  factoryData :: "string option"
  callData :: string
  callGasLimit :: int
  verificationGasLimit :: int
  preVerificationGas :: int
  maxFeePerGas :: int
  maxPriorityFeePerGas :: int
  paymaster :: "string option"
  paymasterVerificationGasLimit :: "int option"
  paymasterPostOpGasLimit :: "int option"
  paymasterData :: "string option"
  signature :: string
  eip7702Auth :: "eip7702_authorization option"

section \<open>Validation results\<close>

record stake_info =
  si_addr :: string
  si_stake :: int
  si_unstakeDelaySec :: int

record referenced_code_hashes =
  rc_addresses :: "string list"
  rc_hash :: string

text \<open>\<open>StorageMap\<close>: per address a root hash, or a map from slot to value.\<close>

type_synonym slot_map = "string js_object"

datatype storage_entry = RootHash string | Slots slot_map

type_synonym storage_map = "storage_entry js_object"

record return_info =
  ri_preOpGas :: int
  ri_prefund :: int
  ri_sigFailed :: bool
  ri_validAfter :: int
  ri_validUntil :: "int option"

record validation_result =
  vr_returnInfo :: return_info
  vr_senderInfo :: stake_info
  vr_factoryInfo :: "stake_info option"
  vr_paymasterInfo :: "stake_info option"
  vr_paymasterContext :: "string option"
  vr_aggregatorInfo :: "stake_info option"

record validate_user_op_result = validation_result +
  vr_referencedContracts :: referenced_code_hashes
  vr_storageMap :: storage_map

text \<open>The error codes of the enum \<open>ValidationErrors\<close>.\<close>

abbreviation ParseError :: int where "ParseError \<equiv> -32700"
abbreviation InvalidRequest :: int where "InvalidRequest \<equiv> -32600"
abbreviation MethodNotFound :: int where "MethodNotFound \<equiv> -32601"
abbreviation InvalidFields :: int where "InvalidFields \<equiv> -32602"
abbreviation InternalError :: int where "InternalError \<equiv> -32603"
abbreviation SimulateValidation :: int where "SimulateValidation \<equiv> -32500"
abbreviation SimulatePaymasterValidation :: int where "SimulatePaymasterValidation \<equiv> -32501"
abbreviation OpcodeValidation :: int where "OpcodeValidation \<equiv> -32502"
abbreviation NotInTimeRange :: int where "NotInTimeRange \<equiv> -32503"
abbreviation Reputation_error :: int where "Reputation_error \<equiv> -32504"
abbreviation InsufficientStake :: int where "InsufficientStake \<equiv> -32505"
abbreviation UnsupportedSignatureAggregator :: int
  where "UnsupportedSignatureAggregator \<equiv> -32506"
abbreviation InvalidSignature :: int where "InvalidSignature \<equiv> -32507"
abbreviation PaymasterDepositTooLow :: int where "PaymasterDepositTooLow \<equiv> -32508"
abbreviation UserOperationReverted :: int where "UserOperationReverted \<equiv> -32521"

text \<open>\<open>requireCond(cond, msg, code, data)\<close>: throws an \<open>RpcError\<close>.\<close>

definition requireCondData :: "bool \<Rightarrow> string \<Rightarrow> int \<Rightarrow> js \<Rightarrow> ('s, unit) act" where
  "requireCondData c m code d =
     (if \<not> c then throw (RpcExn (RpcErrorData m code d)) else ret ())"

definition requireCond :: "bool \<Rightarrow> string \<Rightarrow> int \<Rightarrow> ('s, unit) act" where
  "requireCond c m code = requireCondData c m code Undefined"

lemma requireCond_True [simp]:
  "requireCondData True m code d = ret ()" "requireCond True m code = ret ()"
  by (simp_all add: requireCond_def requireCondData_def)

lemma requireCond_False [simp]:
  "requireCondData False m code d = throw (RpcExn (RpcErrorData m code d))"
  "requireCond False m code = throw (RpcExn (RpcError m code))"
  by (simp_all add: requireCond_def requireCondData_def RpcError_def RpcErrorData_def)

lemma keeps_requireCond [simp, intro]:
  "keeps P (requireCondData c m code d)" "keeps P (requireCond c m code)"
  by (cases c; simp)+

section \<open>Mempool and reputation entries\<close>

datatype entry_status = bundling | pending | bundled | failed

record mempool_entry =
  me_userOp :: user_operation
  me_userOpHash :: string
  me_prefund :: int
  me_referencedContracts :: "referenced_code_hashes option"
  me_status :: entry_status
  me_aggregator :: "string option"

type_synonym standard_pool = "mempool_entry js_object"
type_synonym entry_count = "int js_object"

record mempool_entry_metadata =
  md_senderInfo :: "stake_info option"
  md_paymasterInfo :: "stake_info option"
  md_factoryInfo :: "stake_info option"
  md_aggregatorInfo :: "stake_info option"
  md_oldEntry :: "mempool_entry option"

type_synonym entry_with_metadata = "mempool_entry \<times> mempool_entry_metadata"

record relay_user_op_param =
  rl_userOp :: user_operation
  rl_userOpHash :: string
  rl_prefund :: int
  rl_referencedContracts :: "referenced_code_hashes option"
  rl_senderInfo :: "stake_info option"
  rl_paymasterInfo :: "stake_info option"
  rl_factoryInfo :: "stake_info option"
  rl_aggregatorInfo :: "stake_info option"

text \<open>
  \<open>enum ReputationStatus { OK, THROTTLED, BANNED }\<close>, ordered as the enum numbers it.
\<close>

datatype reputation_status = OK | THROTTLED | BANNED

fun status_number :: "reputation_status \<Rightarrow> nat" where
  "status_number OK = 0"
| "status_number THROTTLED = 1"
| "status_number BANNED = 2"

lemma status_number_inj: "status_number a = status_number b \<Longrightarrow> a = b"
  by (cases a; cases b) auto

instantiation reputation_status :: linorder
begin

definition less_eq_reputation_status :: "reputation_status \<Rightarrow> reputation_status \<Rightarrow> bool" where
  "less_eq_reputation_status a b \<longleftrightarrow> status_number a \<le> status_number b"

definition less_reputation_status :: "reputation_status \<Rightarrow> reputation_status \<Rightarrow> bool" where
  "less_reputation_status a b \<longleftrightarrow> status_number a < status_number b"

instance
  by standard
    (auto simp: less_eq_reputation_status_def less_reputation_status_def
      intro: status_number_inj)

end

lemma status_order [simp]:
  "OK \<le> s" "s \<le> BANNED" "THROTTLED \<le> s \<longleftrightarrow> s \<noteq> OK" "s \<le> OK \<longleftrightarrow> s = OK" "BANNED \<le> s \<longleftrightarrow> s = BANNED"
  by (cases s; simp add: less_eq_reputation_status_def)+

record reputation_entry =
  re_address :: string
  opsSeen :: int
  opsIncluded :: int
  re_status :: "reputation_status option"

type_synonym reputation_entries = "reputation_entry js_object"

datatype bundle_tx_status = tx_pending | tx_confirmed | tx_failed

record pending_tx_details =
  txHash :: string
  signerIndex :: nat
  tx_status :: bundle_tx_status

type_synonym bundle_txs = "pending_tx_details js_object"

section \<open>The global state\<close>

record State =
  standardPool :: standard_pool
  mempoolEntryCount :: entry_count
  bundleTxs :: bundle_txs
  blackList :: "string list"
  whiteList :: "string list"
  reputationEntries :: reputation_entries

datatype state_key =
  StandardPool | MempoolEntryCount | BundleTxs | BlackList | WhiteList | ReputationEntries

end
