(* ===== verification/Ocaps.thy ===== *)
theory Ocaps
  imports Bundler_Types "HOL-Library.Multiset" "HOL-Library.Countable"
begin

text \<open>
  The capability service of \<open>src/ocaps/\<close>: issuing and verifying signed state
  capabilities, the registry of the modules' capabilities and the start-up bootstrap.

  The cryptography and the ABI coder are the package \<open>ethers\<close>, a parameter of the model
  (\<open>crypto\<close>): \<open>abi_encode\<close> of the five encoded components, \<open>keccak256\<close>, the address of
  a private key, \<open>signMessage\<close>, \<open>verifyMessage\<close> (\<open>None\<close> is an invalid signature, where
  it throws) and \<open>isAddress\<close>. \<open>sound_crypto\<close> states what \<open>ethers\<close> documents of them.
\<close>

datatype state_operation = READ | WRITE

text \<open>The enum values are \<open>'read'\<close> and \<open>'write'\<close>; \<open>localeCompare\<close> orders them.\<close>

fun operation_string :: "state_operation \<Rightarrow> string" where
  "operation_string READ = ''read''"
| "operation_string WRITE = ''write''"

fun operation_rank :: "state_operation \<Rightarrow> nat" where
  "operation_rank READ = 0"
| "operation_rank WRITE = 1"

instantiation state_operation :: linorder
begin

definition less_eq_state_operation :: "state_operation \<Rightarrow> state_operation \<Rightarrow> bool" where
  "less_eq_state_operation a b \<longleftrightarrow> operation_rank a \<le> operation_rank b"

definition less_state_operation :: "state_operation \<Rightarrow> state_operation \<Rightarrow> bool" where
  "less_state_operation a b \<longleftrightarrow> operation_rank a < operation_rank b"

instance
proof
  fix a b :: state_operation
  show "a \<le> b \<Longrightarrow> b \<le> a \<Longrightarrow> a = b"
    by (cases a; cases b) (auto simp: less_eq_state_operation_def)
qed (auto simp: less_eq_state_operation_def less_state_operation_def)

end

type_synonym state_capability = "state_key \<times> state_operation list"

record capability =
  issuer :: string
  cap_clientVersion :: string
  moduleName :: string
  ocaps :: "state_capability list"
  salt :: string
  cap_signature :: string

record capability_request =
  rq_moduleName :: string
  rq_ocaps :: "state_capability list"
  rq_salt :: string

text \<open>What \<open>encodeStateCapability\<close> hands to the ABI coder.\<close>

type_synonym encoded_components =
  "string \<times> string \<times> string \<times> string \<times> (state_key \<times> string list) list"

record crypto =
  abi_encode :: "encoded_components \<Rightarrow> string"
  keccak256 :: "string \<Rightarrow> string"
  wallet_address :: "string \<Rightarrow> string"
  signMessage :: "string \<Rightarrow> string \<Rightarrow> string"
  verifyMessage :: "string \<Rightarrow> string \<Rightarrow> string option"
  isAddress :: "string \<Rightarrow> bool"

definition sound_crypto :: "crypto \<Rightarrow> string \<Rightarrow> bool" where
  "sound_crypto cr key \<longleftrightarrow>
     (\<forall>m. verifyMessage cr m (signMessage cr key m) = Some (wallet_address cr key)) \<and>
     (\<forall>m. signMessage cr key m \<noteq> ''0x'') \<and>
     isAddress cr (wallet_address cr key)"

record capability_service_config =
  issuerSignerPrivateKey :: string
  cs_clientVersion :: string

section \<open>Hashing a capability\<close>

definition sortedStateOperations :: "state_operation list \<Rightarrow> state_operation list" where
  "sortedStateOperations operations = sort operations"

definition encodeStateCapability :: "crypto \<Rightarrow> capability \<Rightarrow> string" where
  "encodeStateCapability cr cap =
     abi_encode cr
       (issuer cap, cap_clientVersion cap, moduleName cap, salt cap,
        map (\<lambda>c. (fst c, map operation_string (sortedStateOperations (snd c)))) (ocaps cap))"

definition getStateCapabilityHash :: "crypto \<Rightarrow> capability \<Rightarrow> string" where
  "getStateCapabilityHash cr cap = keccak256 cr (encodeStateCapability cr cap)"

section \<open>The service\<close>

definition issueStateCapability ::
  "crypto \<Rightarrow> capability_service_config \<Rightarrow> capability_request \<Rightarrow> capability" where
  "issueStateCapability cr cfg req =
     (let capToIssue =
        \<lparr>issuer = wallet_address cr (issuerSignerPrivateKey cfg),
         cap_clientVersion = cs_clientVersion cfg, moduleName = rq_moduleName req,
         ocaps = rq_ocaps req, salt = rq_salt req, cap_signature = ''0x''\<rparr>
      in capToIssue\<lparr>cap_signature :=
           signMessage cr (issuerSignerPrivateKey cfg) (getStateCapabilityHash cr capToIssue)\<rparr>)"

definition verifyStateCapability ::
  "crypto \<Rightarrow> capability_service_config \<Rightarrow> capability \<Rightarrow> bool" where
  "verifyStateCapability cr cfg cap =
     (if cap_signature cap = ''0x'' then False
      else if \<not> isAddress cr (issuer cap) then False
      else case verifyMessage cr (getStateCapabilityHash cr cap) (cap_signature cap) of
        None \<Rightarrow> False
      | Some recoveredAddress \<Rightarrow>
          if toLowerCase recoveredAddress
               \<noteq> toLowerCase (wallet_address cr (issuerSignerPrivateKey cfg))
          then False else True)"

text \<open>The registry of the internal modules.\<close>

definition STATE_CAPABILITY_REGISTRY :: "(string \<times> state_capability list) list" where
  "STATE_CAPABILITY_REGISTRY =
    [(''reputation-manager'',
       [(ReputationEntries, [READ, WRITE]), (WhiteList, [READ, WRITE]), (BlackList, [READ, WRITE])]),
     (''deposit-manager'', [(StandardPool, [READ])]),
     (''mempool-manager'',
       [(StandardPool, [READ, WRITE]), (MempoolEntryCount, [READ, WRITE])]),
     (''bundle-manager'', [(BundleTxs, [WRITE])])]"

text \<open>
  The bootstrap: one request per registry entry, each with a fresh salt (\<open>randomSalt\<close> is a
  parameter, the \<open>i\<close>-th salt drawn), issued in order.
\<close>

definition buildStateCapabilityRequests ::
  "(nat \<Rightarrow> string) \<Rightarrow> (string \<times> state_capability list) list \<Rightarrow> capability_request list" where
  "buildStateCapabilityRequests randomSalt registry =
     map (\<lambda>(i, (name, caps)). \<lparr>rq_moduleName = name, rq_ocaps = caps, rq_salt = randomSalt i\<rparr>)
       (enumerate 0 registry)"

definition bootstrapStateCapabilities ::
  "crypto \<Rightarrow> capability_service_config \<Rightarrow> (nat \<Rightarrow> string) \<Rightarrow>
   (string \<times> state_capability list) list \<Rightarrow> capability js_object" where
  "bootstrapStateCapabilities cr cfg randomSalt registry =
     fold (\<lambda>req issued. AList.update (rq_moduleName req) (issueStateCapability cr cfg req) issued)
       (buildStateCapabilityRequests randomSalt registry) []"

section \<open>Lemmas\<close>

lemma getStateCapabilityHash_signature [simp]:
  "getStateCapabilityHash cr (cap\<lparr>cap_signature := sig\<rparr>) = getStateCapabilityHash cr cap"
  by (simp add: getStateCapabilityHash_def encodeStateCapability_def)

lemma issueStateCapability_fields [simp]:
  "moduleName (issueStateCapability cr cfg req) = rq_moduleName req"
  "ocaps (issueStateCapability cr cfg req) = rq_ocaps req"
  "salt (issueStateCapability cr cfg req) = rq_salt req"
  "issuer (issueStateCapability cr cfg req) = wallet_address cr (issuerSignerPrivateKey cfg)"
  by (simp_all add: issueStateCapability_def Let_def)

lemma sortedStateOperations_perm:
  "mset xs = mset ys \<Longrightarrow> sortedStateOperations xs = sortedStateOperations ys"
  unfolding sortedStateOperations_def by (metis mset_sort properties_for_sort sorted_sort)

lemma issued_verifies:
  assumes "sound_crypto cr (issuerSignerPrivateKey cfg)"
  shows "verifyStateCapability cr cfg (issueStateCapability cr cfg req)"
  using assms
  by (simp add: sound_crypto_def verifyStateCapability_def issueStateCapability_def Let_def
      getStateCapabilityHash_def encodeStateCapability_def)

lemma bootstrap_entries:
  assumes "(name, cap) \<in> set (bootstrapStateCapabilities cr cfg rs registry)"
  shows "\<exists>req. cap = issueStateCapability cr cfg req \<and> rq_moduleName req = name \<and>
           (name, rq_ocaps req) \<in> set registry"
proof -
  let ?store = "\<lambda>req issued. AList.update (rq_moduleName req) (issueStateCapability cr cfg req) issued"
  have "(name, cap) \<in> set (fold ?store reqs acc) \<Longrightarrow>
      (name, cap) \<in> set acc \<or>
      (\<exists>req \<in> set reqs. cap = issueStateCapability cr cfg req \<and> rq_moduleName req = name)"
    for reqs acc
  proof (induction reqs arbitrary: acc)
    case (Cons r reqs)
    then have "(name, cap) \<in> set (?store r acc) \<or>
        (\<exists>req \<in> set reqs. cap = issueStateCapability cr cfg req \<and> rq_moduleName req = name)"
      by simp
    then show ?case using set_update_subset [of "rq_moduleName r" _ acc] by fastforce
  qed simp
  from this [of "buildStateCapabilityRequests rs registry" "[]"] assms
  obtain req where req: "req \<in> set (buildStateCapabilityRequests rs registry)"
    and cap: "cap = issueStateCapability cr cfg req" and name: "rq_moduleName req = name"
    by (auto simp: bootstrapStateCapabilities_def)
  from req name have "(name, rq_ocaps req) \<in> set registry"
    by (auto simp: buildStateCapabilityRequests_def in_set_enumerate_eq)
      (metis nth_mem)
  with cap name show ?thesis by blast
qed

section \<open>Properties\<close>

text \<open>
  The idealisation of the signature scheme and the hash that the tamper-resistance property
  relies on: distinct inputs have distinct encodings and hashes, and a signature recovers the
  signer's address for the signed message only.
\<close>

definition binding_crypto :: "crypto \<Rightarrow> string \<Rightarrow> bool" where
  "binding_crypto cr key \<longleftrightarrow>
     inj (abi_encode cr) \<and> inj (keccak256 cr) \<and>
     (\<forall>m m' adr. verifyMessage cr m' (signMessage cr key m) = Some adr \<longrightarrow>
        toLowerCase adr = toLowerCase (wallet_address cr key) \<longrightarrow> m' = m)"

text \<open>Two lists of state capabilities with the same keys, in order, and the same operations.\<close>

definition same_ocaps :: "state_capability list \<Rightarrow> state_capability list \<Rightarrow> bool" where
  "same_ocaps cs ds = list_all2 (\<lambda>c d. fst c = fst d \<and> mset (snd c) = mset (snd d)) cs ds"

lemma inj_operation_string: "inj operation_string"
proof (rule injI)
  fix a b show "operation_string a = operation_string b \<Longrightarrow> a = b" by (cases a; cases b) auto
qed

lemma encoded_ocaps_eq_iff:
  "map (\<lambda>c. (fst c, map operation_string (sortedStateOperations (snd c)))) cs
     = map (\<lambda>c. (fst c, map operation_string (sortedStateOperations (snd c)))) ds
   \<longleftrightarrow> same_ocaps cs ds"
proof -
  have ops: "map operation_string (sortedStateOperations xs)
      = map operation_string (sortedStateOperations ys) \<longleftrightarrow> mset xs = mset ys" for xs ys
    using sortedStateOperations_perm [of xs ys]
    by (metis inj_map_eq_map [OF inj_operation_string] mset_sort sortedStateOperations_def)
  show ?thesis
    unfolding same_ocaps_def list.rel_eq [symmetric] list.rel_map
    by (simp add: ops list.rel_eq flip: list.rel_map)
qed

lemma issued_hash:
  "getStateCapabilityHash cr ((issueStateCapability cr cfg req)\<lparr>ocaps := cs\<rparr>)
     = keccak256 cr (abi_encode cr (wallet_address cr (issuerSignerPrivateKey cfg),
         cs_clientVersion cfg, rq_moduleName req, rq_salt req,
         map (\<lambda>c. (fst c, map operation_string (sortedStateOperations (snd c)))) cs))"
  "cap_signature (issueStateCapability cr cfg req)
     = signMessage cr (issuerSignerPrivateKey cfg)
         (getStateCapabilityHash cr ((issueStateCapability cr cfg req)\<lparr>ocaps := rq_ocaps req\<rparr>))"
  by (simp_all add: issueStateCapability_def Let_def getStateCapabilityHash_def
      encodeStateCapability_def)


instance state_key :: countable
  by countable_datatype

definition demo_crypto :: crypto where
  "demo_crypto = \<lparr>abi_encode = (\<lambda>c. replicate (to_nat c) CHR ''x''), keccak256 = (\<lambda>s. s),
     wallet_address = (\<lambda>_. ''0xAA''), signMessage = (\<lambda>_ m. CHR ''s'' # m),
     verifyMessage = (\<lambda>m sig. if sig = CHR ''s'' # m then Some ''0xAA'' else None),
     isAddress = (\<lambda>_. True)\<rparr>"

definition demo_service :: capability_service_config where
  "demo_service = \<lparr>issuerSignerPrivateKey = ''0x01'', cs_clientVersion = ''transeptor''\<rparr>"

lemma demo_crypto_ok [simp]: "binding_crypto demo_crypto key" "sound_crypto demo_crypto key"
  by (auto simp: binding_crypto_def sound_crypto_def demo_crypto_def inj_def
      dest!: arg_cong [where f = length])


lemma bootstrap_keys:
  assumes "obj_ok registry"
  shows "map fst (bootstrapStateCapabilities cr cfg rs registry) = map fst registry"
proof -
  let ?store = "\<lambda>req issued. AList.update (rq_moduleName req) (issueStateCapability cr cfg req) issued"
  have keys: "map fst (fold ?store reqs acc) = map fst acc @ map rq_moduleName reqs"
    if "distinct (map fst acc @ map rq_moduleName reqs)" for reqs acc
    using that
  proof (induction reqs arbitrary: acc)
    case (Cons r reqs)
    then have "map fst (?store r acc) = map fst acc @ [rq_moduleName r]"
      by (auto simp: keys_update)
    moreover from this Cons.prems
    have "distinct (map fst (?store r acc) @ map rq_moduleName reqs)" by auto
    ultimately show ?case using Cons.IH [of "?store r acc"] by simp
  qed simp
  have names: "map rq_moduleName (buildStateCapabilityRequests rs registry) = map fst registry"
    by (simp add: buildStateCapabilityRequests_def list_eq_iff_nth_eq nth_enumerate_eq
        case_prod_unfold)
  from keys [of "[]" "buildStateCapabilityRequests rs registry"] assms names show ?thesis
    by (simp add: bootstrapStateCapabilities_def obj_ok_def)
qed

text \<open>
  The bootstrap issues one capability per module of the registry, each with the
  grants the registry gives it, and every one of them verifies with the service that issued it.
\<close>

theorem bootstrap_issues_the_registry:
  assumes "sound_crypto cr (issuerSignerPrivateKey cfg)" and "obj_ok registry"
  shows "map fst (bootstrapStateCapabilities cr cfg rs registry) = map fst registry \<and>
    (\<forall>(name, cap) \<in> set (bootstrapStateCapabilities cr cfg rs registry).
       moduleName cap = name \<and> map_of registry name = Some (ocaps cap) \<and>
       verifyStateCapability cr cfg cap)"
proof -
  have "map_of registry name = Some (ocaps cap) \<and> moduleName cap = name \<and>
      verifyStateCapability cr cfg cap"
    if mem: "(name, cap) \<in> set (bootstrapStateCapabilities cr cfg rs registry)" for name cap
    using bootstrap_entries [OF mem] assms issued_verifies [OF assms(1)] by (auto simp: obj_ok_def)
  with bootstrap_keys [OF assms(2)] show ?thesis by auto
qed

theorem bootstrap_issues_the_registry_witness:
  "map fst (bootstrapStateCapabilities demo_crypto demo_service (\<lambda>i. replicate i CHR ''0'')
      STATE_CAPABILITY_REGISTRY)
     = [''reputation-manager'', ''deposit-manager'', ''mempool-manager'', ''bundle-manager'']"
  by (subst bootstrap_issues_the_registry [THEN conjunct1])
    (simp_all add: STATE_CAPABILITY_REGISTRY_def obj_ok_def)

end
