(* ===== verification/State_Service.thy ===== *)
theory State_Service
  imports Ocaps
begin

text \<open>
  The state service of \<open>src/state/state.ts\<close>. A selection of fields (\<open>Pick<State, K>\<close>,
  \<open>Partial<State>\<close>) is the record \<open>partial_state\<close>, whose present keys are the fields that
  are not \<open>None\<close>. Each operation holds the mutex from its read to its write, so it is one
  atomic action. The capability check is a parameter, the \<open>capabilityVerifier\<close> of the
  service's configuration.

  Every action works on any extension of \<open>State\<close>, so the modules that keep closure
  variables of their own extend the record and use the same service.

  The locale \<open>state_field\<close> is the interface the managers use: an update of one field through
  the service. It is interpreted for each of the six fields.
\<close>

record partial_state =
  p_standardPool :: "standard_pool option"
  p_mempoolEntryCount :: "entry_count option"
  p_bundleTxs :: "bundle_txs option"
  p_blackList :: "string list option"
  p_whiteList :: "string list option"
  p_reputationEntries :: "reputation_entries option"

definition noKeys :: partial_state where
  "noKeys = \<lparr>p_standardPool = None, p_mempoolEntryCount = None, p_bundleTxs = None,
     p_blackList = None, p_whiteList = None, p_reputationEntries = None\<rparr>"

definition initialState :: State where
  "initialState = \<lparr>standardPool = [], mempoolEntryCount = [], bundleTxs = [],
     blackList = [], whiteList = [], reputationEntries = []\<rparr>"

text \<open>The argument \<open>keys: StateKey | StateKey[]\<close>.\<close>

datatype key_arg = One state_key | Many "state_key list"

fun key_list :: "key_arg \<Rightarrow> state_key list" where
  "key_list (One k) = [k]"
| "key_list (Many ks) = ks"

text \<open>\<open>selectedState[key] = state[key]\<close>\<close>

fun pickKey :: "'z State_scheme \<Rightarrow> state_key \<Rightarrow> partial_state \<Rightarrow> partial_state" where
  "pickKey s StandardPool p = p\<lparr>p_standardPool := Some (standardPool s)\<rparr>"
| "pickKey s MempoolEntryCount p = p\<lparr>p_mempoolEntryCount := Some (mempoolEntryCount s)\<rparr>"
| "pickKey s BundleTxs p = p\<lparr>p_bundleTxs := Some (bundleTxs s)\<rparr>"
| "pickKey s BlackList p = p\<lparr>p_blackList := Some (blackList s)\<rparr>"
| "pickKey s WhiteList p = p\<lparr>p_whiteList := Some (whiteList s)\<rparr>"
| "pickKey s ReputationEntries p = p\<lparr>p_reputationEntries := Some (reputationEntries s)\<rparr>"

definition pickKeys :: "state_key list \<Rightarrow> 'z State_scheme \<Rightarrow> partial_state" where
  "pickKeys ks s = fold (pickKey s) ks noKeys"

text \<open>\<open>Object.keys\<close> of a partial state.\<close>

definition presentKeys :: "partial_state \<Rightarrow> state_key list" where
  "presentKeys p =
     (if p_standardPool p \<noteq> None then [StandardPool] else []) @
     (if p_mempoolEntryCount p \<noteq> None then [MempoolEntryCount] else []) @
     (if p_bundleTxs p \<noteq> None then [BundleTxs] else []) @
     (if p_blackList p \<noteq> None then [BlackList] else []) @
     (if p_whiteList p \<noteq> None then [WhiteList] else []) @
     (if p_reputationEntries p \<noteq> None then [ReputationEntries] else [])"

definition validateNonEmpty :: "partial_state \<Rightarrow> bool" where
  "validateNonEmpty updatedValues = (if presentKeys updatedValues = [] then False else True)"

definition validateKeysMatch :: "state_key list \<Rightarrow> state_key list \<Rightarrow> bool" where
  "validateKeysMatch updatedKeys expectedKeys =
     (let missingKeys = filter (\<lambda>key. key \<notin> set updatedKeys) expectedKeys;
          extraKeys = filter (\<lambda>key. key \<notin> set expectedKeys) updatedKeys
      in if missingKeys \<noteq> [] then False else if extraKeys \<noteq> [] then False else True)"

text \<open>\<open>Object.assign(newState, updatedValues)\<close>\<close>

definition assignState :: "partial_state \<Rightarrow> 'z State_scheme \<Rightarrow> 'z State_scheme" where
  "assignState p s =
     (let s1 = (case p_standardPool p of None \<Rightarrow> s | Some v \<Rightarrow> s\<lparr>standardPool := v\<rparr>);
          s2 = (case p_mempoolEntryCount p of None \<Rightarrow> s1 | Some v \<Rightarrow> s1\<lparr>mempoolEntryCount := v\<rparr>);
          s3 = (case p_bundleTxs p of None \<Rightarrow> s2 | Some v \<Rightarrow> s2\<lparr>bundleTxs := v\<rparr>);
          s4 = (case p_blackList p of None \<Rightarrow> s3 | Some v \<Rightarrow> s3\<lparr>blackList := v\<rparr>);
          s5 = (case p_whiteList p of None \<Rightarrow> s4 | Some v \<Rightarrow> s4\<lparr>whiteList := v\<rparr>)
      in (case p_reputationEntries p of None \<Rightarrow> s5 | Some v \<Rightarrow> s5\<lparr>reputationEntries := v\<rparr>))"

definition getState ::
  "(capability \<Rightarrow> bool) \<Rightarrow> capability \<Rightarrow> key_arg \<Rightarrow> ('z State_scheme, partial_state) act" where
  "getState verify stateCapability keys =
     (\<lambda>s. if \<not> verify stateCapability
          then throw (ErrorExn ''Caller does not have access to the requested state keys'') s
          else (Inr (pickKeys (key_list keys) s), s))"

definition updateState ::
  "(capability \<Rightarrow> bool) \<Rightarrow> capability \<Rightarrow> key_arg \<Rightarrow> (partial_state \<Rightarrow> exn + partial_state) \<Rightarrow>
   ('z State_scheme, bool) act" where
  "updateState verify stateCapability keys updateFn =
     (\<lambda>s. if \<not> verify stateCapability
          then throw (ErrorExn
            ''Caller does not have access to the requested state keys to update'') s
          else case updateFn (pickKeys (key_list keys) s) of
            Inl e \<Rightarrow> (Inl e, s)
          | Inr updatedValues \<Rightarrow>
              if \<not> validateNonEmpty updatedValues \<or>
                 \<not> validateKeysMatch (presentKeys updatedValues) (key_list keys)
              then (Inr False, s)
              else (Inr True, assignState updatedValues s))"

section \<open>General facts\<close>

lemma updateState_denied:
  "\<not> verify cap \<Longrightarrow> snd (updateState verify cap keys f s) = s \<and>
     (\<exists>e. fst (updateState verify cap keys f s) = Inl e)"
  by (simp add: updateState_def)

lemma getState_state [simp]: "snd (getState verify cap keys s) = s"
  by (simp add: getState_def)

lemma keeps_getState [simp, intro]: "keeps P (getState verify cap keys)"
  by (simp add: keeps_def)

text \<open>The fields an accepted update may change are exactly the keys it was called with.\<close>

fun same_field :: "state_key \<Rightarrow> 'z State_scheme \<Rightarrow> 'z State_scheme \<Rightarrow> bool" where
  "same_field StandardPool s t = (standardPool s = standardPool t)"
| "same_field MempoolEntryCount s t = (mempoolEntryCount s = mempoolEntryCount t)"
| "same_field BundleTxs s t = (bundleTxs s = bundleTxs t)"
| "same_field BlackList s t = (blackList s = blackList t)"
| "same_field WhiteList s t = (whiteList s = whiteList t)"
| "same_field ReputationEntries s t = (reputationEntries s = reputationEntries t)"

lemma same_field_refl [simp]: "same_field k s s"
  by (cases k) auto

lemma assignState_same:
  "k \<notin> set (presentKeys p) \<Longrightarrow> same_field k (assignState p s) s"
  by (cases k) (auto simp: presentKeys_def assignState_def Let_def split: option.splits if_splits)

lemma validateKeysMatch_iff: "validateKeysMatch us es \<longleftrightarrow> set us = set es"
  by (auto simp: validateKeysMatch_def Let_def filter_empty_conv)

lemma updateState_frame:
  "k \<notin> set (key_list keys) \<Longrightarrow> same_field k (snd (updateState verify cap keys f s)) s"
  by (auto simp: updateState_def validateKeysMatch_iff assignState_same
      split: sum.splits if_splits)

lemma presentKeys_simps [simp]:
  "StandardPool \<in> set (presentKeys p) \<longleftrightarrow> p_standardPool p \<noteq> None"
  "MempoolEntryCount \<in> set (presentKeys p) \<longleftrightarrow> p_mempoolEntryCount p \<noteq> None"
  "BundleTxs \<in> set (presentKeys p) \<longleftrightarrow> p_bundleTxs p \<noteq> None"
  "BlackList \<in> set (presentKeys p) \<longleftrightarrow> p_blackList p \<noteq> None"
  "WhiteList \<in> set (presentKeys p) \<longleftrightarrow> p_whiteList p \<noteq> None"
  "ReputationEntries \<in> set (presentKeys p) \<longleftrightarrow> p_reputationEntries p \<noteq> None"
  by (auto simp: presentKeys_def)

lemma fold_pickKey_fields:
  "p_standardPool (fold (pickKey s) ks p)
     = (if StandardPool \<in> set ks then Some (standardPool s) else p_standardPool p)"
  "p_mempoolEntryCount (fold (pickKey s) ks p)
     = (if MempoolEntryCount \<in> set ks then Some (mempoolEntryCount s) else p_mempoolEntryCount p)"
  "p_bundleTxs (fold (pickKey s) ks p)
     = (if BundleTxs \<in> set ks then Some (bundleTxs s) else p_bundleTxs p)"
  "p_blackList (fold (pickKey s) ks p)
     = (if BlackList \<in> set ks then Some (blackList s) else p_blackList p)"
  "p_whiteList (fold (pickKey s) ks p)
     = (if WhiteList \<in> set ks then Some (whiteList s) else p_whiteList p)"
  "p_reputationEntries (fold (pickKey s) ks p)
     = (if ReputationEntries \<in> set ks then Some (reputationEntries s) else p_reputationEntries p)"
proof (induction ks arbitrary: p)
  case (Cons k ks)
  case 1 with Cons show ?case by (cases k) simp_all
  case 2 with Cons show ?case by (cases k) simp_all
  case 3 with Cons show ?case by (cases k) simp_all
  case 4 with Cons show ?case by (cases k) simp_all
  case 5 with Cons show ?case by (cases k) simp_all
  case 6 with Cons show ?case by (cases k) simp_all
qed simp_all

lemma assignState_fields:
  "standardPool (assignState p s) = (case p_standardPool p of None \<Rightarrow> standardPool s | Some v \<Rightarrow> v)"
  "mempoolEntryCount (assignState p s)
     = (case p_mempoolEntryCount p of None \<Rightarrow> mempoolEntryCount s | Some v \<Rightarrow> v)"
  "bundleTxs (assignState p s) = (case p_bundleTxs p of None \<Rightarrow> bundleTxs s | Some v \<Rightarrow> v)"
  "blackList (assignState p s) = (case p_blackList p of None \<Rightarrow> blackList s | Some v \<Rightarrow> v)"
  "whiteList (assignState p s) = (case p_whiteList p of None \<Rightarrow> whiteList s | Some v \<Rightarrow> v)"
  "reputationEntries (assignState p s)
     = (case p_reputationEntries p of None \<Rightarrow> reputationEntries s | Some v \<Rightarrow> v)"
  by (simp_all add: assignState_def Let_def split: option.split)

lemma pickKeys_assign:
  assumes "set (presentKeys p) = set ks"
  shows "pickKeys ks (assignState p s) = p"
  using presentKeys_simps [of p] unfolding assms
  by (cases p) (simp add: pickKeys_def fold_pickKey_fields assignState_fields noKeys_def
      split: option.splits)

text \<open>A refused update (\<open>false\<close> or an exception) leaves the state as it was.\<close>

lemma updateState_refused:
  "fst (updateState verify cap keys f s) \<noteq> Inr True \<Longrightarrow> snd (updateState verify cap keys f s) = s"
  by (auto simp: updateState_def split: sum.splits if_splits)

section \<open>The interface: updating one field\<close>

locale state_field =
  fixes key :: state_key
    and sel :: "'z State_scheme \<Rightarrow> 'v"
    and upd :: "('v \<Rightarrow> 'v) \<Rightarrow> 'z State_scheme \<Rightarrow> 'z State_scheme"
    and psel :: "partial_state \<Rightarrow> 'v option"
    and mk :: "'v \<Rightarrow> partial_state"
  assumes psel_pick: "psel (pickKeys [key] s) = Some (sel s)"
    and present_mk: "presentKeys (mk v) = [key]"
    and assign_mk: "assignState (mk v) s = upd (\<lambda>_. v) s"
    and sel_upd: "sel (upd g s) = g (sel s)"
    and upd_upd: "upd g (upd h s) = upd (g \<circ> h) s"
begin

lemma get_field:
  "verify cap \<Longrightarrow> getState verify cap (One key) s = (Inr (pickKeys [key] s), s)"
  by (simp add: getState_def)

lemma update_field:
  assumes "verify cap"
  shows "updateState verify cap (One key) (\<lambda>p. Inr (mk (f (the (psel p))))) s
       = (Inr True, upd (\<lambda>_. f (sel s)) s)"
  using assms by (simp add: updateState_def validateNonEmpty_def validateKeysMatch_iff
      psel_pick present_mk assign_mk)

text \<open>Two accepted updates in a row are one update by the composed function.\<close>

lemma update_field_twice:
  fixes s :: "'z State_scheme"
  assumes "verify cap"
  shows "andThen (updateState verify cap (One key) (\<lambda>p. Inr (mk (f (the (psel p))))))
           (\<lambda>_. updateState verify cap (One key) (\<lambda>p. Inr (mk (g (the (psel p)))))) s
       = updateState verify cap (One key) (\<lambda>p. Inr (mk (g (f (the (psel p)))))) s"
proof -
  have "upd (\<lambda>_. g (f (sel s))) (upd (\<lambda>_. f (sel s)) s) = upd (\<lambda>_. g (f (sel s))) s"
    by (simp add: upd_upd comp_def)
  with assms show ?thesis
    by (simp add: andThen_def update_field sel_upd update_field [where f = "g \<circ> f", simplified])
qed

lemma keeps_update_field:
  assumes "\<And>s. P s \<Longrightarrow> P (upd (\<lambda>_. f (sel s)) s)"
  shows "keeps P (updateState verify cap (One key) (\<lambda>p. Inr (mk (f (the (psel p))))))"
proof
  fix s assume "P s"
  with assms show "P (snd (updateState verify cap (One key) (\<lambda>p. Inr (mk (f (the (psel p))))) s))"
    by (cases "verify cap") (simp_all add: update_field updateState_denied)
qed

end

lemmas state_field_simps =
  pickKeys_def noKeys_def presentKeys_def assignState_def Let_def

interpretation pool_field: state_field StandardPool standardPool standardPool_update
  p_standardPool "\<lambda>v. noKeys\<lparr>p_standardPool := Some v\<rparr>"
  by unfold_locales (auto simp: state_field_simps)

interpretation count_field: state_field MempoolEntryCount mempoolEntryCount mempoolEntryCount_update
  p_mempoolEntryCount "\<lambda>v. noKeys\<lparr>p_mempoolEntryCount := Some v\<rparr>"
  by unfold_locales (auto simp: state_field_simps)

interpretation bundle_txs_field: state_field BundleTxs bundleTxs bundleTxs_update
  p_bundleTxs "\<lambda>v. noKeys\<lparr>p_bundleTxs := Some v\<rparr>"
  by unfold_locales (auto simp: state_field_simps)

interpretation black_field: state_field BlackList blackList blackList_update
  p_blackList "\<lambda>v. noKeys\<lparr>p_blackList := Some v\<rparr>"
  by unfold_locales (auto simp: state_field_simps)

interpretation white_field: state_field WhiteList whiteList whiteList_update
  p_whiteList "\<lambda>v. noKeys\<lparr>p_whiteList := Some v\<rparr>"
  by unfold_locales (auto simp: state_field_simps)

interpretation reputation_field: state_field ReputationEntries reputationEntries
  reputationEntries_update p_reputationEntries "\<lambda>v. noKeys\<lparr>p_reputationEntries := Some v\<rparr>"
  by unfold_locales (auto simp: state_field_simps)

text \<open>The one pair of fields the mempool updates together.\<close>

lemma update_pool_and_count:
  assumes "verify cap"
  shows "updateState verify cap (Many [StandardPool, MempoolEntryCount])
      (\<lambda>p. let (po, co) = f (the (p_standardPool p)) (the (p_mempoolEntryCount p))
           in Inr (noKeys\<lparr>p_standardPool := Some po, p_mempoolEntryCount := Some co\<rparr>)) s
    = (Inr True, s\<lparr>standardPool := fst (f (standardPool s) (mempoolEntryCount s)),
         mempoolEntryCount := snd (f (standardPool s) (mempoolEntryCount s))\<rparr>)"
  using assms
  by (simp add: updateState_def validateNonEmpty_def validateKeysMatch_iff state_field_simps
      split: prod.splits)

section \<open>Properties\<close>

text \<open>
  Property C22. An update is all or nothing and stays within its keys: it changes no field it
  was not called with, a rejected update (wrong keys, no keys, denied, or a throwing update
  function) changes no field at all, and an accepted one hands the stored values back.
\<close>

theorem update_state_frame:
  "(\<forall>k. k \<notin> set (key_list keys) \<longrightarrow> same_field k (snd (updateState verify cap keys f s)) s) \<and>
   (fst (updateState verify cap keys f s) \<noteq> Inr True \<longrightarrow> snd (updateState verify cap keys f s) = s) \<and>
   (\<forall>p. f (pickKeys (key_list keys) s) = Inr p \<longrightarrow> verify cap \<longrightarrow> presentKeys p \<noteq> [] \<longrightarrow>
      set (presentKeys p) = set (key_list keys) \<longrightarrow>
      fst (getState verify cap keys (snd (updateState verify cap keys f s))) = Inr p)"
proof -
  have "pickKeys (key_list keys) (assignState p s) = p"
    if "set (presentKeys p) = set (key_list keys)" for p
    using that by (rule pickKeys_assign)
  then have "fst (getState verify cap keys (snd (updateState verify cap keys f s))) = Inr p"
    if "f (pickKeys (key_list keys) s) = Inr p" "verify cap" "presentKeys p \<noteq> []"
      "set (presentKeys p) = set (key_list keys)" for p
    using that by (simp add: updateState_def validateNonEmpty_def validateKeysMatch_iff getState_def)
  then show ?thesis using updateState_frame updateState_refused by blast
qed

theorem update_state_frame_witness:
  "fst (getState (\<lambda>_. True) undefined (One BlackList)
     (snd (updateState (\<lambda>_. True) undefined (One BlackList)
        (\<lambda>p. Inr (noKeys\<lparr>p_blackList := Some (the (p_blackList p) @ [''0xab''])\<rparr>)) initialState)))
   = Inr (noKeys\<lparr>p_blackList := Some [''0xab'']\<rparr>)"
  by (rule update_state_frame [THEN conjunct2, THEN conjunct2, rule_format])
    (simp_all add: state_field_simps initialState_def)

text \<open>
  The service checks the signature of a capability and never its grants: the
  deposit manager's capability, which grants reading the pool and nothing else, is accepted for
  overwriting the black list.
\<close>

theorem grants_are_not_enforced:
  fixes s :: "'z State_scheme"
  assumes "sound_crypto cr (issuerSignerPrivateKey cfg)"
    and "(''deposit-manager'', cap)
       \<in> set (bootstrapStateCapabilities cr cfg rs STATE_CAPABILITY_REGISTRY)"
  shows "ocaps cap = [(StandardPool, [READ])] \<and>
    updateState (verifyStateCapability cr cfg) cap (One BlackList)
      (\<lambda>p. Inr (noKeys\<lparr>p_blackList := Some (g (the (p_blackList p)))\<rparr>)) s
    = (Inr True, s\<lparr>blackList := g (blackList s)\<rparr>)"
proof -
  from bootstrap_entries [OF assms(2)] obtain req where
    cap: "cap = issueStateCapability cr cfg req" "rq_moduleName req = ''deposit-manager''"
    and "(''deposit-manager'', rq_ocaps req) \<in> set STATE_CAPABILITY_REGISTRY" by blast
  then have "rq_ocaps req = [(StandardPool, [READ])]"
    by (auto simp: STATE_CAPABILITY_REGISTRY_def)
  moreover have "verifyStateCapability cr cfg cap"
    using assms(1) by (simp add: cap(1) issued_verifies)
  ultimately show ?thesis
    using black_field.update_field [where verify = "verifyStateCapability cr cfg" and cap = cap
        and f = g and s = s] cap(1) by simp
qed

theorem grants_are_not_enforced_witness:
  "snd (updateState (verifyStateCapability demo_crypto demo_service)
      (the (map_of (bootstrapStateCapabilities demo_crypto demo_service (\<lambda>_. ''0x05'')
              STATE_CAPABILITY_REGISTRY) ''deposit-manager''))
      (One BlackList) (\<lambda>p. Inr (noKeys\<lparr>p_blackList := Some (''0xab'' # the (p_blackList p))\<rparr>))
      initialState)
   = initialState\<lparr>blackList := [''0xab'']\<rparr>"
proof -
  let ?b = "bootstrapStateCapabilities demo_crypto demo_service (\<lambda>_. ''0x05'') STATE_CAPABILITY_REGISTRY"
  have "fst ` set ?b = fst ` set STATE_CAPABILITY_REGISTRY"
    using bootstrap_keys [of STATE_CAPABILITY_REGISTRY demo_crypto demo_service]
    by (simp add: STATE_CAPABILITY_REGISTRY_def obj_ok_def flip: set_map)
  then have "map_of ?b ''deposit-manager'' \<noteq> None"
    by (simp add: map_of_eq_None_iff STATE_CAPABILITY_REGISTRY_def)
  then have mem: "(''deposit-manager'', the (map_of ?b ''deposit-manager'')) \<in> set ?b"
    by (auto dest: map_of_SomeD)
  show ?thesis
    by (subst grants_are_not_enforced [OF _ mem, THEN conjunct2]) (simp_all add: initialState_def)
qed

end
