(* ===== verification/Reputation.thy ===== *)
theory Reputation
  imports State_Service
begin

text \<open>
  The reputation manager of \<open>src/reputation/reputation-manager.ts\<close>, method by method. Its
  closure variable \<open>interval\<close> extends the state: \<open>cronSnapshot = Some es\<close> is a running
  interval whose callback closed over the entries \<open>es\<close> read when it was started.

  The stake manager contract is a parameter: \<open>rm_getDepositInfo a\<close> is the stake and the
  unstake delay it reports for the address \<open>a\<close>.
\<close>

record reputation_state = State +
  cronSnapshot :: "reputation_entries option"

record reputation_config =
  rm_verify :: "capability \<Rightarrow> bool"
  rm_stateCapability :: capability
  rm_minStake :: int
  rm_minUnstakeDelay :: int
  rm_getDepositInfo :: "string \<Rightarrow> int \<times> int"

datatype seen_action = increment | decrement

section \<open>Status\<close>

definition minInclusionDenominator :: int where "minInclusionDenominator = 10"
definition throttlingSlack :: int where "throttlingSlack = 10"
definition banSlack :: int where "banSlack = 50"

definition statusOf ::
  "string list \<Rightarrow> string list \<Rightarrow> reputation_entries \<Rightarrow> string option \<Rightarrow> reputation_status" where
  "statusOf whites blacks entries adr =
     (case map_option toLowerCase adr of
        None \<Rightarrow> OK
      | Some a \<Rightarrow>
          if a \<in> set whites then OK
          else if a \<in> set blacks then BANNED
          else case map_of entries a of
            None \<Rightarrow> OK
          | Some entry \<Rightarrow>
              (let minExpectedIncluded = opsSeen entry div minInclusionDenominator in
               if minExpectedIncluded \<le> opsIncluded entry + throttlingSlack then OK
               else if minExpectedIncluded \<le> opsIncluded entry + banSlack then THROTTLED
               else BANNED))"

definition getStatus ::
  "reputation_config \<Rightarrow> string option \<Rightarrow> ('z State_scheme, reputation_status) act" where
  "getStatus cfg adr =
     andThen (getState (rm_verify cfg) (rm_stateCapability cfg)
                (Many [WhiteList, BlackList, ReputationEntries]))
       (\<lambda>p. ret (statusOf (the (p_whiteList p)) (the (p_blackList p))
                   (the (p_reputationEntries p)) adr))"

section \<open>Entries\<close>

definition newEntry :: "string \<Rightarrow> int \<Rightarrow> int \<Rightarrow> reputation_entry" where
  "newEntry a seen incl = \<lparr>re_address = a, opsSeen = seen, opsIncluded = incl, re_status = None\<rparr>"

lemma newEntry_fields [simp]:
  "re_address (newEntry a m n) = a" "opsSeen (newEntry a m n) = m"
  "opsIncluded (newEntry a m n) = n" "re_status (newEntry a m n) = None"
  by (simp_all add: newEntry_def)

definition getOrCreate :: "string \<Rightarrow> reputation_entries \<Rightarrow> reputation_entry" where
  "getOrCreate adr entries =
     (let a = toLowerCase adr in
      case map_of entries a of Some entry \<Rightarrow> entry | None \<Rightarrow> newEntry a 0 0)"

text \<open>\<open>updateState(cap, StateKey.ReputationEntries, ({reputationEntries}) => ...)\<close>\<close>

abbreviation updateEntries ::
  "reputation_config \<Rightarrow> (reputation_entries \<Rightarrow> reputation_entries) \<Rightarrow> ('z State_scheme, bool) act" where
  "updateEntries cfg f \<equiv>
     updateState (rm_verify cfg) (rm_stateCapability cfg) (One ReputationEntries)
       (\<lambda>p. Inr (noKeys\<lparr>p_reputationEntries := Some (f (the (p_reputationEntries p)))\<rparr>))"

definition setStatus ::
  "string list \<Rightarrow> string list \<Rightarrow> reputation_entries \<Rightarrow> reputation_entry \<Rightarrow> reputation_entry" where
  "setStatus whites blacks entries entry =
     entry\<lparr>re_status := Some (statusOf whites blacks entries (Some (re_address entry)))\<rparr>"

text \<open>
  \<open>dump\<close> writes \<open>entry.status\<close> into the entry objects the state holds and returns them.
\<close>

definition dump :: "reputation_config \<Rightarrow> ('z State_scheme, reputation_entry list) act" where
  "dump cfg =
     andThen (getState (rm_verify cfg) (rm_stateCapability cfg) (One ReputationEntries))
       (\<lambda>_ s. let es = map (\<lambda>(k, e). (k, setStatus (whiteList s) (blackList s) (reputationEntries s) e))
                          (reputationEntries s)
              in (Inr (map snd es), s\<lparr>reputationEntries := es\<rparr>))"

definition rep_clearState :: "reputation_config \<Rightarrow> ('z State_scheme, unit) act" where
  "rep_clearState cfg = andThen (updateEntries cfg (\<lambda>_. [])) (\<lambda>_. ret ())"

definition addWhitelist :: "reputation_config \<Rightarrow> string list \<Rightarrow> ('z State_scheme, unit) act" where
  "addWhitelist cfg items =
     (if items = [] then ret ()
      else andThen (updateState (rm_verify cfg) (rm_stateCapability cfg) (One WhiteList)
               (\<lambda>p. Inr (noKeys\<lparr>p_whiteList := Some (the (p_whiteList p) @ items)\<rparr>)))
             (\<lambda>_. ret ()))"

definition addBlacklist :: "reputation_config \<Rightarrow> string list \<Rightarrow> ('z State_scheme, unit) act" where
  "addBlacklist cfg items =
     (if items = [] then ret ()
      else andThen (updateState (rm_verify cfg) (rm_stateCapability cfg) (One BlackList)
               (\<lambda>p. Inr (noKeys\<lparr>p_blackList := Some (the (p_blackList p) @ items)\<rparr>)))
             (\<lambda>_. ret ()))"

definition bumpSeen :: "seen_action \<Rightarrow> string \<Rightarrow> reputation_entries \<Rightarrow> reputation_entries" where
  "bumpSeen action a entries =
     (let entry = getOrCreate a entries;
          val = (if action = increment then 1 else - 1)
      in AList.update a (entry\<lparr>opsSeen := max 0 (opsSeen entry + val)\<rparr>) entries)"

definition updateSeenStatus ::
  "reputation_config \<Rightarrow> string option \<Rightarrow> seen_action \<Rightarrow> ('z State_scheme, unit) act" where
  "updateSeenStatus cfg adr action =
     (if \<not> truthy adr then ret ()
      else andThen (updateEntries cfg (bumpSeen action (toLowerCase (the adr)))) (\<lambda>_. ret ()))"

text \<open>
  The accumulator of the batch starts empty and every new entry is computed from the entries
  before the batch.
\<close>

definition seenBatch :: "string list \<Rightarrow> reputation_entries \<Rightarrow> reputation_entries" where
  "seenBatch adrs entries =
     fold (\<lambda>adr acc. let a = toLowerCase adr; entry = getOrCreate a entries
                     in AList.update a (entry\<lparr>opsSeen := max 0 (opsSeen entry + 1)\<rparr>) acc)
       adrs []"

definition updateSeenStatusBatch ::
  "reputation_config \<Rightarrow> string list \<Rightarrow> ('z State_scheme, unit) act" where
  "updateSeenStatusBatch cfg adrs =
     (if adrs = [] then ret ()
      else andThen (updateEntries cfg (\<lambda>entries. spread entries (seenBatch adrs entries)))
             (\<lambda>_. ret ()))"

definition bumpIncluded :: "string \<Rightarrow> reputation_entries \<Rightarrow> reputation_entries" where
  "bumpIncluded a entries =
     (let entry = getOrCreate a entries
      in AList.update a (entry\<lparr>opsIncluded := opsIncluded entry + 1\<rparr>) entries)"

definition updateIncludedStatus ::
  "reputation_config \<Rightarrow> string \<Rightarrow> ('z State_scheme, unit) act" where
  "updateIncludedStatus cfg adr =
     andThen (updateEntries cfg (bumpIncluded (toLowerCase adr))) (\<lambda>_. ret ())"

definition getStakeStatus :: "reputation_config \<Rightarrow> string \<Rightarrow> stake_info \<times> bool" where
  "getStakeStatus cfg adr =
     (let (stk, delay) = rm_getDepositInfo cfg adr;
          isStaked = (stk \<ge> rm_minStake cfg \<and> delay \<ge> rm_minUnstakeDelay cfg)
      in (\<lparr>si_addr = adr, si_stake = stk, si_unstakeDelaySec = delay\<rparr>, isStaked))"

definition banEntry :: "string \<Rightarrow> reputation_entries \<Rightarrow> reputation_entries" where
  "banEntry a entries =
     AList.update a
       (newEntry a (case map_of entries a of Some entry \<Rightarrow> opsSeen entry + 10000 | None \<Rightarrow> 10000) 0)
       entries"

definition crashedHandleOps :: "reputation_config \<Rightarrow> string option \<Rightarrow> ('z State_scheme, unit) act" where
  "crashedHandleOps cfg adr =
     (case adr of
        None \<Rightarrow> ret ()
      | Some a \<Rightarrow> andThen (updateEntries cfg (banEntry (toLowerCase a))) (\<lambda>_. ret ()))"

text \<open>
  \<open>setReputation\<close>: \<open>Number(BigInt(x))\<close> of the given counters (integers here).
\<close>

definition givenEntries :: "reputation_entry list \<Rightarrow> reputation_entries" where
  "givenEntries reputations =
     fold (\<lambda>rep acc. let a = toLowerCase (re_address rep)
                     in AList.update a (newEntry a (Number_of (opsSeen rep)) (Number_of (opsIncluded rep))) acc)
       reputations []"

definition setReputation ::
  "reputation_config \<Rightarrow> reputation_entry list \<Rightarrow> ('z State_scheme, reputation_entry list) act" where
  "setReputation cfg reputations =
     andThen (updateEntries cfg (\<lambda>entries. spread entries (givenEntries reputations)))
       (\<lambda>_. dump cfg)"

section \<open>Checks\<close>

definition banned_error :: "string \<Rightarrow> string \<Rightarrow> exn" where
  "banned_error title adr =
     RpcExn (RpcErrorData (title @ '' '' @ adr @ '' is banned'') Reputation_error (Obj [(title, Str adr)]))"

definition checkBanned ::
  "reputation_config \<Rightarrow> string \<Rightarrow> stake_info \<Rightarrow> ('z State_scheme, unit) act" where
  "checkBanned cfg title info =
     andThen (getStatus cfg (Some (si_addr info)))
       (\<lambda>st. requireCondData (st \<noteq> BANNED) (title @ '' '' @ si_addr info @ '' is banned'')
               Reputation_error (Obj [(title, Str (si_addr info))]))"

definition checkThrottled ::
  "reputation_config \<Rightarrow> string \<Rightarrow> stake_info \<Rightarrow> ('z State_scheme, unit) act" where
  "checkThrottled cfg title info =
     andThen (getStatus cfg (Some (si_addr info)))
       (\<lambda>st. requireCondData (st \<noteq> THROTTLED) (title @ '' '' @ si_addr info @ '' is throttled'')
               Reputation_error (Obj [(title, Str (si_addr info))]))"

definition checkStake ::
  "reputation_config \<Rightarrow> string \<Rightarrow> stake_info option \<Rightarrow> ('z State_scheme, unit) act" where
  "checkStake cfg title infoOpt =
     (case infoOpt of
        None \<Rightarrow> ret ()
      | Some info \<Rightarrow>
          andThen (getStatus cfg (Some (si_addr info)))
            (\<lambda>st. andThen (requireCondData (st \<noteq> BANNED) (title @ '' '' @ si_addr info @ '' is banned'')
                            Reputation_error (Obj [(title, Str (si_addr info))]))
              (\<lambda>_. andThen (requireCond (si_stake info \<ge> rm_minStake cfg)
                      (title @ '' '' @ si_addr info @ '' stake '' @ int_str (si_stake info)
                        @ '' is too low (min='' @ int_str (rm_minStake cfg) @ '')'') InsufficientStake)
              (\<lambda>_. requireCond (si_unstakeDelaySec info \<ge> rm_minUnstakeDelay cfg)
                      (title @ '' '' @ si_addr info @ '' unstake delay ''
                        @ int_str (si_unstakeDelaySec info) @ '' is too low (min=''
                        @ int_str (rm_minUnstakeDelay cfg) @ '')'') InsufficientStake))))"

text \<open>
  The quotient \<open>opsIncluded / opsSeen\<close> times 10, floored: on doubles the floor agrees with
  integer division for counters below \<open>2 ^ 48\<close>.
\<close>

definition maxAllowedOf :: "reputation_entries \<Rightarrow> string \<Rightarrow> int" where
  "maxAllowedOf entries entity =
     (case map_of entries (toLowerCase entity) of
        None \<Rightarrow> 10
      | Some entry \<Rightarrow>
          10 + (if opsSeen entry = 0 then 0 else (opsIncluded entry * 10) div opsSeen entry)
             + min (opsIncluded entry) 10000)"

definition calculateMaxAllowedMempoolOpsUnstaked ::
  "reputation_config \<Rightarrow> string \<Rightarrow> ('z State_scheme, int) act" where
  "calculateMaxAllowedMempoolOpsUnstaked cfg entity =
     andThen (getState (rm_verify cfg) (rm_stateCapability cfg) (One ReputationEntries))
       (\<lambda>p. ret (maxAllowedOf (the (p_reputationEntries p)) entity))"

section \<open>The hourly interval\<close>

definition stopHourlyCron :: "('z reputation_state_scheme, unit) act" where
  "stopHourlyCron = (\<lambda>s. (Inr (), s\<lparr>cronSnapshot := None\<rparr>))"

definition startHourlyCron :: "reputation_config \<Rightarrow> ('z reputation_state_scheme, unit) act" where
  "startHourlyCron cfg =
     andThen stopHourlyCron
       (\<lambda>_. andThen (getState (rm_verify cfg) (rm_stateCapability cfg) (One ReputationEntries))
         (\<lambda>p s. (Inr (), s\<lparr>cronSnapshot := Some (the (p_reputationEntries p))\<rparr>)))"

definition decayEntry ::
  "string \<Rightarrow> reputation_entry \<Rightarrow> reputation_entries \<Rightarrow> reputation_entries" where
  "decayEntry a entry entries =
     (if opsIncluded entry = 0 \<and> opsSeen entry = 0 then AList.delete a entries
      else AList.update a
             (newEntry (re_address entry) ((opsSeen entry * 23) div 24) ((opsSeen entry * 23) div 24))
             entries)"

text \<open>One firing of the interval.\<close>

definition cronTick :: "reputation_config \<Rightarrow> ('z reputation_state_scheme, unit) act" where
  "cronTick cfg =
     (\<lambda>s. case cronSnapshot s of
        None \<Rightarrow> (Inr (), s)
      | Some snapshot \<Rightarrow>
          for_each (map fst snapshot)
            (\<lambda>a. andThen (updateEntries cfg (decayEntry a (the (map_of snapshot a)))) (\<lambda>_. ret ())) s)"

section \<open>What each method does when its capability is accepted\<close>

lemma getStatus_run:
  assumes "rm_verify cfg (rm_stateCapability cfg)"
  shows "getStatus cfg adr s
       = (Inr (statusOf (whiteList s) (blackList s) (reputationEntries s) adr), s)"
  using assms by (simp add: getStatus_def andThen_def getState_def pickKeys_def noKeys_def)

lemma updateEntries_run:
  assumes "rm_verify cfg (rm_stateCapability cfg)"
  shows "updateEntries cfg f s = (Inr True, s\<lparr>reputationEntries := f (reputationEntries s)\<rparr>)"
  using reputation_field.update_field
    [where verify = "rm_verify cfg" and cap = "rm_stateCapability cfg" and f = f and s = s] assms
  by simp

lemma updateEntries_then_run:
  assumes "rm_verify cfg (rm_stateCapability cfg)"
  shows "andThen (updateEntries cfg f) (\<lambda>_. ret ()) s
       = (Inr (), s\<lparr>reputationEntries := f (reputationEntries s)\<rparr>)"
  using assms by (simp add: andThen_def updateEntries_run)

lemma keeps_updateEntries:
  assumes "\<And>s. P s \<Longrightarrow> P (s\<lparr>reputationEntries := f (reputationEntries s)\<rparr>)"
  shows "keeps P (updateEntries cfg f)"
  by (rule reputation_field.keeps_update_field) (use assms in simp)

lemma keeps_getStatus [simp, intro]: "keeps P (getStatus cfg adr)"
  unfolding getStatus_def by (intro keeps_andThen keeps_getState) simp

lemma keeps_checks [simp, intro]:
  "keeps P (checkBanned cfg t i)" "keeps P (checkThrottled cfg t i)" "keeps P (checkStake cfg t io)"
  "keeps P (calculateMaxAllowedMempoolOpsUnstaked cfg a)"
  unfolding checkBanned_def checkThrottled_def checkStake_def
    calculateMaxAllowedMempoolOpsUnstaked_def
  by (auto intro!: keeps_andThen split: option.split)

lemma checkStake_run:
  assumes "rm_verify cfg (rm_stateCapability cfg)"
  obtains "checkStake cfg title info s = (Inr (), s)"
  | e where "checkStake cfg title info s = (Inl (RpcExn e), s)"
proof (cases info)
  case None
  then show thesis using that by (simp add: checkStake_def)
next
  case (Some i)
  let ?st = "statusOf (whiteList s) (blackList s) (reputationEntries s) (Some (si_addr i))"
  show thesis
    using that unfolding checkStake_def Some option.case andThen_def getStatus_run [OF assms]
    by (cases "?st = BANNED"; cases "rm_minStake cfg \<le> si_stake i";
        cases "rm_minUnstakeDelay cfg \<le> si_unstakeDelaySec i")
      (simp_all only: refl requireCond_True requireCond_False not_True_eq_False prod.case sum.case
         ret_apply throw_apply simp_thms)
qed

lemmas rep_run = getStatus_run updateEntries_run updateEntries_then_run

section \<open>The entries invariant\<close>

text \<open>
  Keys are lower-case, every entry carries its key as its address, and no counter is negative.
\<close>

definition entry_ok :: "string \<Rightarrow> reputation_entry \<Rightarrow> bool" where
  "entry_ok a e \<longleftrightarrow> toLowerCase a = a \<and> re_address e = a \<and> 0 \<le> opsSeen e \<and> 0 \<le> opsIncluded e"

definition entries_ok :: "reputation_entries \<Rightarrow> bool" where
  "entries_ok es \<longleftrightarrow> obj_ok es \<and> (\<forall>(a, e) \<in> set es. entry_ok a e)"

lemma entries_ok_Nil [simp]: "entries_ok []"
  by (simp add: entries_ok_def)

lemma entries_okD: "entries_ok es \<Longrightarrow> map_of es a = Some e \<Longrightarrow> entry_ok a e"
  by (auto simp: entries_ok_def dest: map_of_SomeD)

lemma entries_ok_update: "entries_ok es \<Longrightarrow> entry_ok a e \<Longrightarrow> entries_ok (AList.update a e es)"
  using set_update_subset [of a e es] by (fastforce simp: entries_ok_def)

lemma entries_ok_delete: "entries_ok es \<Longrightarrow> entries_ok (AList.delete a es)"
  by (auto simp: entries_ok_def set_delete)

lemma entries_ok_fold_update:
  assumes "\<And>x. x \<in> set xs \<Longrightarrow> entry_ok (k x) (e x)" and "entries_ok es"
  shows "entries_ok (fold (\<lambda>x. AList.update (k x) (e x)) xs es)"
  using assms by (induction xs arbitrary: es) (simp_all add: entries_ok_update)

lemma entries_ok_spread:
  assumes "entries_ok es" and "entries_ok fs"
  shows "entries_ok (spread es fs)"
  using assms entries_ok_fold_update [of fs fst snd es]
  by (auto simp: spread_def entries_ok_def case_prod_unfold)

lemma entry_ok_newEntry [simp]:
  "entry_ok a (newEntry a m n) \<longleftrightarrow> toLowerCase a = a \<and> 0 \<le> m \<and> 0 \<le> n"
  by (auto simp: entry_ok_def)

lemma getOrCreate_ok: "entries_ok es \<Longrightarrow> entry_ok (toLowerCase a) (getOrCreate a es)"
  by (auto simp: getOrCreate_def Let_def dest: entries_okD split: option.split)

lemma bumpSeen_ok: "entries_ok es \<Longrightarrow> entries_ok (bumpSeen action (toLowerCase a) es)"
  using getOrCreate_ok [of es "toLowerCase a"]
  by (auto simp: bumpSeen_def Let_def entry_ok_def intro!: entries_ok_update)

lemma bumpIncluded_ok: "entries_ok es \<Longrightarrow> entries_ok (bumpIncluded (toLowerCase a) es)"
  using getOrCreate_ok [of es "toLowerCase a"]
  by (auto simp: bumpIncluded_def Let_def entry_ok_def intro!: entries_ok_update)

lemma banEntry_ok: "entries_ok es \<Longrightarrow> entries_ok (banEntry (toLowerCase a) es)"
  unfolding banEntry_def
  by (rule entries_ok_update) (auto dest: entries_okD simp: entry_ok_def split: option.split)

lemma seenBatch_ok:
  assumes "entries_ok es"
  shows "entries_ok (seenBatch adrs es)"
  unfolding seenBatch_def Let_def
  using getOrCreate_ok [OF assms, of "toLowerCase a" for a]
  by (intro entries_ok_fold_update) (auto simp: entry_ok_def)

lemma decayEntry_ok: "entries_ok es \<Longrightarrow> entry_ok a e \<Longrightarrow> entries_ok (decayEntry a e es)"
  by (auto simp: decayEntry_def entry_ok_def intro!: entries_ok_update entries_ok_delete)

lemma dump_ok: "entries_ok es \<Longrightarrow> entries_ok (map (\<lambda>(k, e). (k, setStatus w b fs e)) es)"
  by (auto simp: entries_ok_def obj_ok_def entry_ok_def setStatus_def comp_def case_prod_unfold)

lemma givenEntries_ok:
  assumes "\<And>r. r \<in> set rs \<Longrightarrow> 0 \<le> Number_of (opsSeen r) \<and> 0 \<le> Number_of (opsIncluded r)"
  shows "entries_ok (givenEntries rs)"
  unfolding givenEntries_def Let_def using assms
  by (intro entries_ok_fold_update) simp_all

lemma Number_of_nonneg: "0 \<le> i \<Longrightarrow> 0 \<le> Number_of i"
  by (simp add: Number_of_def)

section \<open>Properties\<close>

abbreviation statusIn :: "'z State_scheme \<Rightarrow> string option \<Rightarrow> reputation_status" where
  "statusIn s q \<equiv> statusOf (whiteList s) (blackList s) (reputationEntries s) q"

text \<open>The status an entry alone gives, when no list names the address.\<close>

definition entryStatus :: "reputation_entry \<Rightarrow> reputation_status" where
  "entryStatus e =
     (if opsSeen e div 10 \<le> opsIncluded e + 10 then OK
      else if opsSeen e div 10 \<le> opsIncluded e + 50 then THROTTLED else BANNED)"

lemma statusOf_entry:
  assumes "toLowerCase a \<notin> set whites" and "toLowerCase a \<notin> set blacks"
  shows "statusOf whites blacks es (Some a)
       = (case map_of es (toLowerCase a) of None \<Rightarrow> OK | Some e \<Rightarrow> entryStatus e)"
  using assms by (simp add: statusOf_def entryStatus_def minInclusionDenominator_def
      throttlingSlack_def banSlack_def Let_def split: option.split)

lemma entryStatus_mono:
  assumes "opsSeen e \<le> opsSeen e'" and "opsIncluded e' \<le> opsIncluded e"
  shows "entryStatus e \<le> entryStatus e'"
proof -
  have "opsSeen e div 10 \<le> opsSeen e' div 10" using assms(1) by (rule zdiv_mono1) simp
  with assms(2) show ?thesis by (auto simp: entryStatus_def)
qed

lemma entryStatus_zero: "entryStatus (newEntry a 0 0) = OK"
  by (simp add: entryStatus_def)

text \<open>
  Comparing two dictionaries of entries: if every address is at least as bad off in the second
  one, no status improves.
\<close>

lemma statusOf_mono:
  assumes "\<And>a. (case map_of es a of None \<Rightarrow> OK | Some e \<Rightarrow> entryStatus e)
             \<le> (case map_of fs a of None \<Rightarrow> OK | Some e \<Rightarrow> entryStatus e)"
  shows "statusOf whites blacks es q \<le> statusOf whites blacks fs q"
proof (cases q)
  case None
  then show ?thesis by (simp add: statusOf_def)
next
  case (Some a)
  consider "toLowerCase a \<in> set whites" | "toLowerCase a \<notin> set whites" "toLowerCase a \<in> set blacks"
    | "toLowerCase a \<notin> set whites" "toLowerCase a \<notin> set blacks" by blast
  then show ?thesis
  proof cases
    case 3
    then show ?thesis using assms [of "toLowerCase a"] by (simp add: Some statusOf_entry)
  qed (simp_all add: Some statusOf_def)
qed

lemma getOrCreate_status:
  "entryStatus (getOrCreate a es)
     = (case map_of es (toLowerCase a) of None \<Rightarrow> OK | Some e \<Rightarrow> entryStatus e)"
  by (simp add: getOrCreate_def Let_def entryStatus_zero split: option.split)

text \<open>
  Property C27. Seeing more operations of an entity never improves any address's status, and
  seeing fewer or including one more never worsens it (\<open>OK < THROTTLED < BANNED\<close>), whatever
  address is counted and whatever address is asked for.
\<close>

theorem reputation_status_monotone:
  assumes "rm_verify cfg (rm_stateCapability cfg)" and "entries_ok (reputationEntries s)"
  shows "statusIn s q \<le> statusIn (snd (updateSeenStatus cfg a increment s)) q \<and>
    statusIn (snd (updateSeenStatus cfg a decrement s)) q \<le> statusIn s q \<and>
    statusIn (snd (updateIncludedStatus cfg b s)) q \<le> statusIn s q"
proof -
  let ?es = "reputationEntries s"
  have seen: "0 \<le> opsSeen (getOrCreate x ?es)" for x
    using getOrCreate_ok [OF assms(2), of x] by (simp add: entry_ok_def)
  have inc: "statusOf w bl ?es q \<le> statusOf w bl (bumpSeen increment (toLowerCase x) ?es) q" for w bl x
    by (rule statusOf_mono)
      (auto simp: bumpSeen_def Let_def getOrCreate_status [of "toLowerCase x", simplified, symmetric]
        intro!: entryStatus_mono)
  have dec: "statusOf w bl (bumpSeen decrement (toLowerCase x) ?es) q \<le> statusOf w bl ?es q" for w bl x
    by (rule statusOf_mono)
      (auto simp: bumpSeen_def Let_def getOrCreate_status [of "toLowerCase x", simplified, symmetric] seen
        intro!: entryStatus_mono)
  have incl: "statusOf w bl (bumpIncluded (toLowerCase x) ?es) q \<le> statusOf w bl ?es q" for w bl x
    by (rule statusOf_mono)
      (auto simp: bumpIncluded_def Let_def getOrCreate_status [of "toLowerCase x", simplified, symmetric]
        intro!: entryStatus_mono)
  show ?thesis
    using assms(1) by (simp add: updateSeenStatus_def updateIncludedStatus_def
        updateEntries_then_run inc dec incl)
qed

text \<open>A configuration and a state for the witnesses.\<close>

definition demo_capability :: capability where
  "demo_capability = \<lparr>issuer = ''0xaa'', cap_clientVersion = ''1'', moduleName = ''m'', ocaps = [],
     salt = ''0x01'', cap_signature = ''0x02''\<rparr>"

definition demo_rep :: reputation_config where
  "demo_rep = \<lparr>rm_verify = (\<lambda>_. True), rm_stateCapability = demo_capability, rm_minStake = 1,
     rm_minUnstakeDelay = 0, rm_getDepositInfo = (\<lambda>_. (0, 0))\<rparr>"

definition demo_state :: "reputation_entries \<Rightarrow> State" where
  "demo_state es = initialState\<lparr>reputationEntries := es\<rparr>"

lemma demo_simps [simp]:
  "rm_verify demo_rep c" "rm_minStake demo_rep = 1" "rm_minUnstakeDelay demo_rep = 0"
  "reputationEntries (demo_state es) = es" "whiteList (demo_state es) = []"
  "blackList (demo_state es) = []" "standardPool (demo_state es) = []"
  "mempoolEntryCount (demo_state es) = []"
  by (simp_all add: demo_rep_def demo_state_def initialState_def)

theorem reputation_status_monotone_witness:
  "let s = demo_state [(''0xab'', newEntry ''0xab'' 200 0)]; q = Some ''0xAB''
   in statusIn s q \<le> statusIn (snd (updateSeenStatus demo_rep q increment s)) q \<and>
      statusIn (snd (updateSeenStatus demo_rep q decrement s)) q \<le> statusIn s q \<and>
      statusIn (snd (updateIncludedStatus demo_rep ''0xab'' s)) q \<le> statusIn s q"
  unfolding Let_def
  by (rule reputation_status_monotone)
    (simp_all add: entries_ok_def obj_ok_def)

lemma statusOf_banEntry:
  assumes "toLowerCase a \<notin> set w" and "\<And>e. map_of es (toLowerCase a) = Some e \<Longrightarrow> 0 \<le> opsSeen e"
  shows "statusOf w b (banEntry (toLowerCase a) es) (Some a) = BANNED"
  using assms by (force simp: statusOf_def banEntry_def minInclusionDenominator_def
        throttlingSlack_def banSlack_def Let_def split: option.split)

text \<open>
  Property C28. An entity that crashed \<open>handleOps\<close> is banned from then on, whatever its record
  was, unless it is on the white list.
\<close>

theorem crashed_is_banned:
  assumes "rm_verify cfg (rm_stateCapability cfg)" and "entries_ok (reputationEntries s)"
    and "toLowerCase a \<notin> set (whiteList s)"
  shows "fst (getStatus cfg (Some a) (snd (crashedHandleOps cfg (Some a) s))) = Inr BANNED"
proof -
  have "0 \<le> opsSeen e" if "map_of (reputationEntries s) (toLowerCase a) = Some e" for e
    using entries_okD [OF assms(2) that] by (simp add: entry_ok_def)
  then have "statusIn (s\<lparr>reputationEntries := banEntry (toLowerCase a) (reputationEntries s)\<rparr>) (Some a)
      = BANNED"
    using assms(3) by (simp add: statusOf_banEntry)
  with assms(1) show ?thesis by (simp add: crashedHandleOps_def rep_run)
qed

theorem crashed_is_banned_witness:
  "fst (getStatus demo_rep (Some ''0xAB'')
     (snd (crashedHandleOps demo_rep (Some ''0xAB'') (demo_state [(''0xab'', newEntry ''0xab'' 900 900)]))))
   = Inr BANNED"
  by (rule crashed_is_banned) (simp_all add: entries_ok_def obj_ok_def)

lemma fold_decay_lookup:
  assumes "distinct ks"
  shows "map_of (fold (\<lambda>a. decayEntry a (f a)) ks es) b =
    (if b \<in> set ks
     then (if opsIncluded (f b) = 0 \<and> opsSeen (f b) = 0 then None
           else Some (newEntry (re_address (f b)) ((opsSeen (f b) * 23) div 24) ((opsSeen (f b) * 23) div 24)))
     else map_of es b)"
  using assms by (induction ks arbitrary: es) (auto simp: decayEntry_def)

lemma fold_entries_update:
  "fold (\<lambda>a s. s\<lparr>reputationEntries := g a (reputationEntries s)\<rparr>) ks s
     = s\<lparr>reputationEntries := fold g ks (reputationEntries s)\<rparr>"
  by (induction ks arbitrary: s) simp_all

lemma cronTick_run:
  assumes "rm_verify cfg (rm_stateCapability cfg)" and "cronSnapshot s = Some snap"
  shows "cronTick cfg s = (Inr (), s\<lparr>reputationEntries :=
           fold (\<lambda>a. decayEntry a (the (map_of snap a))) (map fst snap) (reputationEntries s)\<rparr>)"
  unfolding cronTick_def using assms(2)
  by (simp add: for_each_fold [where g = "\<lambda>a s. s\<lparr>reputationEntries :=
        decayEntry a (the (map_of snap a)) (reputationEntries s)\<rparr>"]
      updateEntries_then_run [OF assms(1)]
      fold_entries_update [where g = "\<lambda>a. decayEntry a (the (map_of snap a))"])

lemma entryStatus_balanced: "0 \<le> n \<Longrightarrow> entryStatus (newEntry a n n) = OK"
proof -
  assume "0 \<le> n"
  then have "n div 10 \<le> n" by simp
  then have "n div 10 \<le> n + 10" by simp
  then show ?thesis by (simp add: entryStatus_def)
qed

text \<open>
  The hourly decay writes \<open>opsSeen * 23 / 24\<close> into both counters, so one firing
  lifts every ban and every throttling of the addresses it closed over: an address of the
  snapshot that is not on the black list is \<open>OK\<close> afterwards, however many operations it failed
  to include.
\<close>

theorem cron_tick_lifts_bans:
  assumes "rm_verify cfg (rm_stateCapability cfg)"
    and "cronSnapshot s = Some snap" and "entries_ok snap"
    and "toLowerCase a \<in> fst ` set snap" and "toLowerCase a \<notin> set (blackList s)"
  shows "statusIn (snd (cronTick cfg s)) (Some a) = OK"
proof (cases "toLowerCase a \<in> set (whiteList s)")
  case True
  then show ?thesis by (simp add: cronTick_run [OF assms(1,2)] statusOf_def)
next
  case False
  define e where "e = the (map_of snap (toLowerCase a))"
  have "distinct (map fst snap)" using assms(3) by (simp add: entries_ok_def obj_ok_def)
  moreover have "map_of snap (toLowerCase a) = Some e"
    using assms(4)
    by (cases "map_of snap (toLowerCase a)") (simp_all add: e_def map_of_eq_None_iff)
  then have "0 \<le> opsSeen e" using entries_okD [OF assms(3)] by (simp add: entry_ok_def)
  ultimately show ?thesis
    using False assms(4,5)
    by (simp add: cronTick_run [OF assms(1,2)] statusOf_entry fold_decay_lookup
        entryStatus_balanced flip: e_def)
qed

definition demo_cron_state :: "reputation_entries \<Rightarrow> reputation_entries \<Rightarrow> reputation_state" where
  "demo_cron_state snap es = State.extend (demo_state es) \<lparr>cronSnapshot = Some snap\<rparr>"

lemma demo_cron_simps [simp]:
  "cronSnapshot (demo_cron_state snap es) = Some snap"
  "reputationEntries (demo_cron_state snap es) = es"
  "blackList (demo_cron_state snap es) = []" "whiteList (demo_cron_state snap es) = []"
  by (simp_all add: demo_cron_state_def demo_state_def initialState_def State.defs
      reputation_state.defs)

theorem cron_tick_lifts_bans_witness:
  "let es = [(''0xab'', newEntry ''0xab'' 10000 0)]; s = demo_cron_state es es
   in statusIn s (Some ''0xab'') = BANNED \<and>
      statusIn (snd (cronTick demo_rep s)) (Some ''0xab'') = OK"
proof -
  let ?es = "[(''0xab'', newEntry ''0xab'' 10000 0)]"
  have low: "toLowerCase ''0xab'' = ''0xab''" by simp
  have "statusIn (snd (cronTick demo_rep (demo_cron_state ?es ?es))) (Some ''0xab'') = OK"
    by (rule cron_tick_lifts_bans [where snap = ?es]) (simp_all add: entries_ok_def obj_ok_def low)
  moreover have "statusIn (demo_cron_state ?es ?es) (Some ''0xab'') = BANNED"
    by (simp add: statusOf_entry low entryStatus_def)
  ultimately show ?thesis by (simp only: Let_def simp_thms)
qed

text \<open>
  The callback closes over the entries read when the interval was started. The
  node starts it right after start-up, with no entries yet; from then on no firing changes
  anything, whatever entries have come since.
\<close>

theorem cron_started_empty_never_decays:
  assumes "rm_verify cfg (rm_stateCapability cfg)" and "reputationEntries s = []"
    and "cronSnapshot t = cronSnapshot (snd (startHourlyCron cfg s))"
  shows "cronTick cfg t = (Inr (), t)"
proof -
  have "cronSnapshot (snd (startHourlyCron cfg s)) = Some []"
    using assms(1,2) by (simp add: startHourlyCron_def stopHourlyCron_def andThen_def getState_def
        pickKeys_def noKeys_def)
  with assms(1,3) show ?thesis by (simp add: cronTick_run)
qed

theorem cron_started_empty_never_decays_witness:
  "cronTick demo_rep (demo_cron_state [] [(''0xab'', newEntry ''0xab'' 10000 0)])
     = (Inr (), demo_cron_state [] [(''0xab'', newEntry ''0xab'' 10000 0)])"
  by (rule cron_started_empty_never_decays [where s = "demo_cron_state [] []"])
    (simp_all add: startHourlyCron_def stopHourlyCron_def andThen_def getState_def
        pickKeys_def noKeys_def)

section \<open>The manager as a transition system\<close>

text \<open>
  Any interleaving of the manager's methods and of the interval, one rule per kind of step.
  \<open>setReputation\<close> is a debug method that takes counters from outside; the others need no guard.
\<close>

inductive rep_step :: "reputation_config \<Rightarrow> reputation_state \<Rightarrow> reputation_state \<Rightarrow> bool"
  for cfg where
  "rep_step cfg s (snd (addWhitelist cfg items s))"
| "rep_step cfg s (snd (addBlacklist cfg items s))"
| "rep_step cfg s (snd (updateSeenStatus cfg adr action s))"
| "rep_step cfg s (snd (updateSeenStatusBatch cfg adrs s))"
| "rep_step cfg s (snd (updateIncludedStatus cfg a s))"
| "rep_step cfg s (snd (crashedHandleOps cfg adr s))"
| "(\<And>r. r \<in> set rs \<Longrightarrow> 0 \<le> opsSeen r \<and> 0 \<le> opsIncluded r) \<Longrightarrow>
     rep_step cfg s (snd (setReputation cfg rs s))"
| "rep_step cfg s (snd (dump cfg s))"
| "rep_step cfg s (snd (rep_clearState cfg s))"
| "rep_step cfg s (snd (startHourlyCron cfg s))"
| "rep_step cfg s (snd (stopHourlyCron s))"
| "rep_step cfg s (snd (cronTick cfg s))"

definition rep_inv :: "'z reputation_state_scheme \<Rightarrow> bool" where
  "rep_inv s \<longleftrightarrow> entries_ok (reputationEntries s) \<and>
     (\<forall>snap. cronSnapshot s = Some snap \<longrightarrow> entries_ok snap)"

lemma keeps_rep_inv_entries:
  assumes "\<And>es. entries_ok es \<Longrightarrow> entries_ok (f es)"
  shows "keeps rep_inv (updateEntries cfg f)"
  by (rule keeps_updateEntries) (use assms in \<open>auto simp: rep_inv_def\<close>)

lemma keeps_rep_inv_dump: "keeps rep_inv (dump cfg)"
  unfolding dump_def
  by (intro keeps_andThen keeps_getState) (auto simp: keeps_def rep_inv_def Let_def dump_ok)

lemma keeps_rep_inv_lists:
  "keeps rep_inv (addWhitelist cfg items)" "keeps rep_inv (addBlacklist cfg items)"
  unfolding addWhitelist_def addBlacklist_def
  by (auto intro!: keeps_andThen
      white_field.keeps_update_field [where f = "\<lambda>l. l @ items"]
      black_field.keeps_update_field [where f = "\<lambda>l. l @ items"] simp: rep_inv_def)

lemma keeps_rep_inv_counters:
  "keeps rep_inv (updateSeenStatus cfg adr action)" "keeps rep_inv (updateSeenStatusBatch cfg adrs)"
  "keeps rep_inv (updateIncludedStatus cfg a)" "keeps rep_inv (crashedHandleOps cfg adr)"
  "keeps rep_inv (rep_clearState cfg)"
  unfolding updateSeenStatus_def updateSeenStatusBatch_def updateIncludedStatus_def
    crashedHandleOps_def rep_clearState_def
  by (auto intro!: keeps_andThen keeps_rep_inv_entries bumpSeen_ok bumpIncluded_ok banEntry_ok
      entries_ok_spread seenBatch_ok split: option.split)

lemma keeps_rep_inv_setReputation:
  assumes "\<And>r. r \<in> set rs \<Longrightarrow> 0 \<le> opsSeen r \<and> 0 \<le> opsIncluded r"
  shows "keeps rep_inv (setReputation cfg rs)"
  unfolding setReputation_def
  by (intro keeps_andThen keeps_rep_inv_dump keeps_rep_inv_entries entries_ok_spread givenEntries_ok)
    (use assms in \<open>auto intro: Number_of_nonneg\<close>)

lemma keeps_rep_inv_cron:
  "keeps rep_inv stopHourlyCron" "keeps rep_inv (startHourlyCron cfg)"
  unfolding startHourlyCron_def stopHourlyCron_def
  by (auto simp: keeps_def rep_inv_def andThen_def getState_def pickKeys_def noKeys_def)

lemma keeps_rep_inv_tick: "keeps rep_inv (cronTick cfg)"
proof
  fix s :: "'z reputation_state_scheme"
  assume inv: "rep_inv s"
  show "rep_inv (snd (cronTick cfg s))"
  proof (cases "cronSnapshot s")
    case None
    with inv show ?thesis by (simp add: cronTick_def)
  next
    case (Some snap)
    with inv have snap: "entries_ok snap" by (simp add: rep_inv_def)
    have "entry_ok a (the (map_of snap a))" if "a \<in> set (map fst snap)" for a
    proof -
      from that obtain e where "map_of snap a = Some e" by (cases "map_of snap a") (auto simp: map_of_eq_None_iff)
      with snap show ?thesis by (auto dest: entries_okD)
    qed
    then have "keeps rep_inv (for_each (map fst snap)
        (\<lambda>a. andThen (updateEntries cfg (decayEntry a (the (map_of snap a)))) (\<lambda>_. ret ()))
        :: ('z reputation_state_scheme, unit) act)"
      by (intro keeps_for_each keeps_andThen keeps_rep_inv_entries decayEntry_ok) auto
    from keepsD [OF this inv] Some show ?thesis by (simp add: cronTick_def)
  qed
qed

lemmas keeps_rep_inv = keeps_rep_inv_dump keeps_rep_inv_lists keeps_rep_inv_counters
  keeps_rep_inv_setReputation keeps_rep_inv_cron keeps_rep_inv_tick

lemma rep_step_inv: "rep_step cfg s t \<Longrightarrow> rep_inv s \<Longrightarrow> rep_inv t"
  by (induction rule: rep_step.induct) (blast intro: keepsD [OF keeps_rep_inv(1)]
      keepsD [OF keeps_rep_inv(2)] keepsD [OF keeps_rep_inv(3)] keepsD [OF keeps_rep_inv(4)]
      keepsD [OF keeps_rep_inv(5)] keepsD [OF keeps_rep_inv(6)] keepsD [OF keeps_rep_inv(7)]
      keepsD [OF keeps_rep_inv(8)] keepsD [OF keeps_rep_inv(9)] keepsD [OF keeps_rep_inv(10)]
      keepsD [OF keeps_rep_inv(11)] keepsD [OF keeps_rep_inv(12)])+

text \<open>
  However the manager's methods, the debug method with non-negative counters and
  the interval interleave, the dictionary has one entry per lower-case address, each carrying
  its own key as address, and no counter is ever negative.
\<close>

theorem reputation_entries_invariant:
  assumes "rep_inv s" and "(rep_step cfg)\<^sup>*\<^sup>* s t"
  shows "distinct (map fst (reputationEntries t)) \<and>
    (\<forall>(a, e) \<in> set (reputationEntries t).
       toLowerCase a = a \<and> re_address e = a \<and> 0 \<le> opsSeen e \<and> 0 \<le> opsIncluded e)"
proof -
  from assms(2,1) have "rep_inv t" by (induction rule: rtranclp_induct) (auto intro: rep_step_inv)
  then show ?thesis by (auto simp: rep_inv_def entries_ok_def obj_ok_def entry_ok_def)
qed

theorem reputation_entries_invariant_witness:
  "let t = snd (updateSeenStatus demo_rep (Some ''0xAB'') increment (demo_cron_state [] []))
   in map fst (reputationEntries t) = [''0xab''] \<and> distinct (map fst (reputationEntries t)) \<and>
      (\<forall>(a, e) \<in> set (reputationEntries t).
        toLowerCase a = a \<and> re_address e = a \<and> 0 \<le> opsSeen e \<and> 0 \<le> opsIncluded e)"
proof -
  let ?t = "snd (updateSeenStatus demo_rep (Some ''0xAB'') increment (demo_cron_state [] []))"
  have "distinct (map fst (reputationEntries ?t)) \<and>
      (\<forall>(a, e) \<in> set (reputationEntries ?t).
        toLowerCase a = a \<and> re_address e = a \<and> 0 \<le> opsSeen e \<and> 0 \<le> opsIncluded e)"
    by (rule reputation_entries_invariant [where s = "demo_cron_state [] []" and cfg = demo_rep])
      (auto simp: rep_inv_def intro: rep_step.intros r_into_rtranclp)
  moreover have "map fst (reputationEntries ?t) = [''0xab'']"
    by (simp add: updateSeenStatus_def updateEntries_then_run, simp add: bumpSeen_def Let_def)
  ultimately show ?thesis unfolding Let_def by (intro conjI) (assumption | elim conjE)+
qed

text \<open>
  The mempool allowance of an unstaked entity is 10 for an unknown entity and never
  less for a known one; an entity that has not included more than it was seen for is allowed at
  most 10020.
\<close>

theorem max_allowed_bounds:
  assumes "rm_verify cfg (rm_stateCapability cfg)" and "entries_ok (reputationEntries s)"
    and "\<And>e. map_of (reputationEntries s) (toLowerCase a) = Some e \<Longrightarrow> opsIncluded e \<le> opsSeen e"
  shows "\<exists>n. calculateMaxAllowedMempoolOpsUnstaked cfg a s = (Inr n, s) \<and> 10 \<le> n \<and> n \<le> 10020"
proof -
  have "10 \<le> maxAllowedOf (reputationEntries s) a \<and> maxAllowedOf (reputationEntries s) a \<le> 10020"
  proof (cases "map_of (reputationEntries s) (toLowerCase a)")
    case None
    then show ?thesis by (simp add: maxAllowedOf_def)
  next
    case (Some e)
    then have pos: "0 \<le> opsSeen e" "0 \<le> opsIncluded e" and le: "opsIncluded e \<le> opsSeen e"
      using entries_okD [OF assms(2) Some] assms(3) by (auto simp: entry_ok_def)
    have "(opsIncluded e * 10) div opsSeen e \<le> (opsSeen e * 10) div opsSeen e" if "opsSeen e \<noteq> 0"
      using that pos le by (intro zdiv_mono1) auto
    moreover have "0 \<le> (opsIncluded e * 10) div opsSeen e"
      using pos by (cases "opsSeen e = 0") (auto simp: pos_imp_zdiv_nonneg_iff)
    ultimately show ?thesis using pos le by (auto simp: Some maxAllowedOf_def)
  qed
  moreover have "calculateMaxAllowedMempoolOpsUnstaked cfg a s
      = (Inr (maxAllowedOf (reputationEntries s) a), s)"
    using assms(1) by (simp add: calculateMaxAllowedMempoolOpsUnstaked_def andThen_def getState_def
        pickKeys_def noKeys_def)
  ultimately show ?thesis by blast
qed

theorem max_allowed_bounds_witness:
  "\<exists>n. calculateMaxAllowedMempoolOpsUnstaked demo_rep ''0xab''
        (demo_state [(''0xab'', newEntry ''0xab'' 20000 20000)])
      = (Inr n, demo_state [(''0xab'', newEntry ''0xab'' 20000 20000)]) \<and> 10 \<le> n \<and> n \<le> 10020"
  by (rule max_allowed_bounds)
    (auto simp: entries_ok_def obj_ok_def)

lemma seenBatch_lookup:
  "map_of (seenBatch adrs es) b =
    (if b \<in> toLowerCase ` set adrs
     then Some ((getOrCreate b es)\<lparr>opsSeen := max 0 (opsSeen (getOrCreate b es) + 1)\<rparr>) else None)"
proof -
  let ?g = "\<lambda>adr acc. AList.update (toLowerCase adr)
     ((getOrCreate (toLowerCase adr) es)\<lparr>opsSeen := max 0 (opsSeen (getOrCreate (toLowerCase adr) es) + 1)\<rparr>) acc"
  have "map_of (fold ?g adrs acc) b =
    (if b \<in> toLowerCase ` set adrs
     then Some ((getOrCreate b es)\<lparr>opsSeen := max 0 (opsSeen (getOrCreate b es) + 1)\<rparr>) else map_of acc b)"
    for acc
    by (induction adrs arbitrary: acc) auto
  then show ?thesis by (simp add: seenBatch_def Let_def)
qed

lemma map_of_seenBatch_spread:
  assumes "entries_ok es"
  shows "map_of (spread es (seenBatch adrs es)) b =
    (if b \<in> toLowerCase ` set adrs
     then Some ((getOrCreate b es)\<lparr>opsSeen := opsSeen (getOrCreate b es) + 1\<rparr>) else map_of es b)"
proof -
  from seenBatch_ok [OF assms, of adrs] have "obj_ok (seenBatch adrs es)"
    by (simp add: entries_ok_def)
  moreover have "0 \<le> opsSeen (getOrCreate b es)"
    using getOrCreate_ok [OF assms, of b] by (simp add: entry_ok_def)
  ultimately show ?thesis by (simp add: map_of_spread seenBatch_lookup)
qed

text \<open>
  The batch update counts an address once, however often the batch names it: after
  it, exactly the addresses it names (in any letter case) have been seen one more time, and no
  other entry has changed.
\<close>

theorem seen_batch_counts_each_once:
  assumes "rm_verify cfg (rm_stateCapability cfg)" and "entries_ok (reputationEntries s)"
  shows "map_of (reputationEntries (snd (updateSeenStatusBatch cfg adrs s))) b =
    (if b \<in> toLowerCase ` set adrs
     then Some ((getOrCreate b (reputationEntries s))
            \<lparr>opsSeen := opsSeen (getOrCreate b (reputationEntries s)) + 1\<rparr>)
     else map_of (reputationEntries s) b)"
  using assms updateEntries_then_run
    [where f = "\<lambda>es. spread es (seenBatch adrs es)" and s = s, OF assms(1)]
  by (auto simp: updateSeenStatusBatch_def map_of_seenBatch_spread)

theorem seen_batch_counts_each_once_witness:
  "map_of (reputationEntries (snd (updateSeenStatusBatch demo_rep [''0xAB'', ''0xab'']
      (demo_state [(''0xab'', newEntry ''0xab'' 4 2)])))) ''0xab''
   = Some (newEntry ''0xab'' 5 2)"
  by (subst seen_batch_counts_each_once)
    (simp_all add: entries_ok_def obj_ok_def getOrCreate_def newEntry_def entry_ok_def)

text \<open>
  A stake check accepts exactly the entities that are absent, or not banned and
  staked with at least the configured stake and unstake delay; it never changes the state.
\<close>

theorem check_stake_accepts_iff:
  assumes "rm_verify cfg (rm_stateCapability cfg)"
  shows "snd (checkStake cfg title info s) = s \<and>
    (fst (checkStake cfg title info s) = Inr () \<longleftrightarrow>
      (\<forall>i. info = Some i \<longrightarrow> statusIn s (Some (si_addr i)) \<noteq> BANNED \<and>
         rm_minStake cfg \<le> si_stake i \<and> rm_minUnstakeDelay cfg \<le> si_unstakeDelaySec i))"
  using assms
  by (auto simp: checkStake_def andThen_def getStatus_run requireCond_def requireCondData_def
      split: option.split)

theorem check_stake_accepts_iff_witness:
  "fst (checkStake demo_rep ''paymaster''
     (Some \<lparr>si_addr = ''0xAB'', si_stake = 5, si_unstakeDelaySec = 1\<rparr>) (demo_state [])) = Inr ()"
  by (rule check_stake_accepts_iff [THEN conjunct2, THEN iffD2])
    (simp_all add: statusOf_def)

text \<open>
  \<open>addWhitelist\<close> and \<open>addBlacklist\<close> store the addresses as given while
  \<open>getStatus\<close> looks up their lower-case form, so listing an address that has an upper-case
  letter changes the status of no address at all.
\<close>

theorem mixed_case_listing_is_inert:
  assumes "rm_verify cfg (rm_stateCapability cfg)"
    and "\<And>x. x \<in> set items \<Longrightarrow> toLowerCase x \<noteq> x"
  shows "statusIn (snd (addWhitelist cfg items s)) q = statusIn s q \<and>
    statusIn (snd (addBlacklist cfg items s)) q = statusIn s q"
proof -
  have no: "toLowerCase a \<notin> set items" for a using assms(2) [of "toLowerCase a"] by auto
  have "statusOf (w @ items) bl es q = statusOf w bl es q \<and>
      statusOf w (bl @ items) es q = statusOf w bl es q" for w bl es
    by (cases q) (simp_all add: statusOf_def no)
  with assms(1) show ?thesis
    by (simp add: addWhitelist_def addBlacklist_def andThen_def
        white_field.update_field [where verify = "rm_verify cfg" and cap = "rm_stateCapability cfg"
          and f = "\<lambda>l. l @ items" and s = s]
        black_field.update_field [where verify = "rm_verify cfg" and cap = "rm_stateCapability cfg"
          and f = "\<lambda>l. l @ items" and s = s])
qed

theorem mixed_case_listing_is_inert_witness:
  "statusIn (snd (addWhitelist demo_rep [''0xAb''] (demo_state []))) (Some ''0xAb'')
     = statusIn (demo_state []) (Some ''0xAb'') \<and>
   statusIn (snd (addBlacklist demo_rep [''0xAb''] (demo_state []))) (Some ''0xAb'')
     = statusIn (demo_state []) (Some ''0xAb'')"
  by (rule mixed_case_listing_is_inert) (simp_all)

end
