(* ===== verification/UserOp_Utils.thy ===== *)
theory UserOp_Utils
  imports Bundler_Types
begin

text \<open>
  The arithmetic and data helpers of \<open>src/utils/user-op.utils.ts\<close>: the maximum cost of a user
  operation, merging of validation storage maps, and packing of user operations.

  The hex and ABI primitives of the package \<open>ethers\<close> are parameters (\<open>hex_lib\<close>); byte strings
  are hex strings. \<open>hex_laws\<close> states what its documentation says of them.
\<close>

section \<open>Maximum cost\<close>

definition nullish_or :: "int option \<Rightarrow> int \<Rightarrow> int" where
  "nullish_or x d = (case x of None \<Rightarrow> d | Some v \<Rightarrow> v)"

definition getUserOpMaxCost :: "user_operation \<Rightarrow> int" where
  "getUserOpMaxCost userOp =
     foldl (+) 0 [preVerificationGas userOp, verificationGasLimit userOp, callGasLimit userOp,
       nullish_or (paymasterVerificationGasLimit userOp) 0,
       nullish_or (paymasterPostOpGasLimit userOp) 0]
     * maxFeePerGas userOp"

section \<open>Merging storage maps\<close>

text \<open>One iteration of the loop of \<open>mergeStorageMap\<close>.\<close>

definition mergeEntry :: "string \<Rightarrow> storage_entry \<Rightarrow> storage_map \<Rightarrow> storage_map" where
  "mergeEntry adr validationEntry merged =
     (case validationEntry of
        RootHash r \<Rightarrow> AList.update adr (RootHash r) merged
      | Slots vs \<Rightarrow>
          (case map_of merged adr of
             Some (RootHash r) \<Rightarrow> merged
           | Some (Slots slots) \<Rightarrow> AList.update adr (Slots (spread slots vs)) merged
           | None \<Rightarrow> AList.update adr (Slots (spread [] vs)) merged))"

definition mergeStorageMap :: "storage_map \<Rightarrow> storage_map \<Rightarrow> storage_map" where
  "mergeStorageMap mergedStorageMap validationStorageMap =
     fold (\<lambda>(adr, e). mergeEntry adr e) validationStorageMap mergedStorageMap"

text \<open>What a storage map says of one slot of one address.\<close>

datatype slot_fact = Rooted string | Slot_value string | Unknown

fun slot_of :: "storage_entry option \<Rightarrow> string \<Rightarrow> slot_fact" where
  "slot_of None _ = Unknown"
| "slot_of (Some (RootHash r)) _ = Rooted r"
| "slot_of (Some (Slots vs)) k = (case map_of vs k of None \<Rightarrow> Unknown | Some v \<Rightarrow> Slot_value v)"

definition slot_fact_of :: "storage_map \<Rightarrow> string \<Rightarrow> string \<Rightarrow> slot_fact" where
  "slot_fact_of m adr = slot_of (map_of m adr)"

fun slots_ok :: "storage_entry \<Rightarrow> bool" where
  "slots_ok (RootHash _) = True"
| "slots_ok (Slots vs) = obj_ok vs"

definition storage_map_ok :: "storage_map \<Rightarrow> bool" where
  "storage_map_ok m \<longleftrightarrow> obj_ok m \<and> (\<forall>(a, e) \<in> set m. slots_ok e)"

text \<open>How the later map's fact combines with the earlier one's.\<close>

fun combine_fact :: "slot_fact \<Rightarrow> slot_fact \<Rightarrow> slot_fact" where
  "combine_fact _ (Rooted r) = Rooted r"
| "combine_fact (Rooted r) _ = Rooted r"
| "combine_fact _ (Slot_value v) = Slot_value v"
| "combine_fact f Unknown = f"

lemma combine_Unknown [simp]: "combine_fact Unknown f = f" "combine_fact f Unknown = f"
  by (cases f; simp)+

lemma slot_fact_mergeEntry:
  assumes "slots_ok e"
  shows "slot_fact_of (mergeEntry adr e m) adr' k =
     (if adr' = adr then combine_fact (slot_fact_of m adr k) (slot_of (Some e) k)
      else slot_fact_of m adr' k)"
proof (cases e)
  case (RootHash r)
  then show ?thesis by (simp add: mergeEntry_def slot_fact_of_def)
next
  case (Slots vs)
  have nil: "map_of (spread [] vs) k = map_of vs k" and
    sp: "map_of (spread us vs) k
      = (case map_of vs k of Some v \<Rightarrow> Some v | None \<Rightarrow> map_of us k)" for us
    using assms by (simp_all add: Slots map_of_spread split: option.split)
  show ?thesis
  proof (cases "map_of m adr")
    case None
    then show ?thesis by (simp add: Slots mergeEntry_def slot_fact_of_def nil)
  next
    case (Some me)
    then show ?thesis
      by (cases me) (simp_all add: Slots mergeEntry_def slot_fact_of_def sp split: option.split)
  qed
qed

lemma slot_fact_mergeStorageMap:
  "storage_map_ok b \<Longrightarrow>
   slot_fact_of (mergeStorageMap a b) adr k = combine_fact (slot_fact_of a adr k) (slot_fact_of b adr k)"
proof (induction b arbitrary: a)
  case Nil
  then show ?case by (simp add: mergeStorageMap_def slot_fact_of_def)
next
  case (Cons p b)
  obtain x e where p: "p = (x, e)" by (cases p)
  from Cons.prems p have ok: "storage_map_ok b" "slots_ok e" "map_of b x = None"
    by (auto simp: storage_map_ok_def obj_ok_def map_of_eq_None_iff)
  have "mergeStorageMap a (p # b) = mergeStorageMap (mergeEntry x e a) b"
    by (simp add: mergeStorageMap_def p)
  then have "slot_fact_of (mergeStorageMap a (p # b)) adr k
      = combine_fact (slot_fact_of (mergeEntry x e a) adr k) (slot_fact_of b adr k)"
    by (simp add: Cons.IH [OF ok(1)])
  then show ?case
    using ok(3) by (auto simp: slot_fact_mergeEntry [OF ok(2)]) (auto simp: p slot_fact_of_def)
qed

lemma storage_map_ok_merge:
  assumes "storage_map_ok a" and "storage_map_ok b"
  shows "storage_map_ok (mergeStorageMap a b)"
proof -
  have step: "storage_map_ok (mergeEntry x e m)" if "storage_map_ok m" "slots_ok e" for x e m
    using that set_update_subset [of x _ m]
    by (fastforce simp: storage_map_ok_def mergeEntry_def dest: map_of_SomeD
        split: storage_entry.split option.split)
  have loop: "storage_map_ok (fold (\<lambda>(adr, e). mergeEntry adr e) es m)"
    if "storage_map_ok m" "\<And>x e. (x, e) \<in> set es \<Longrightarrow> slots_ok e" for es m
    using that
  proof (induction es arbitrary: m)
    case (Cons p es)
    obtain x e where p: "p = (x, e)" by (cases p)
    from Cons.prems p have "storage_map_ok (mergeEntry x e m)" by (auto intro: step)
    with Cons p show ?case by auto
  qed simp
  have "slots_ok e" if "(x, e) \<in> set b" for x e
    using assms(2) that by (auto simp: storage_map_ok_def)
  with assms(1) show ?thesis unfolding mergeStorageMap_def by (rule loop)
qed

text \<open>
  Property C36. A merged storage map answers for every slot of every address as the two maps
  say: a storage root of either map hides the slots, the later map's root and slot values win,
  and nothing is lost. Where the two maps agree on what both know, the order of merging does not
  matter.
\<close>

theorem merge_storage_map_spec:
  assumes "storage_map_ok a" and "storage_map_ok b"
  shows "slot_fact_of (mergeStorageMap a b) adr k
      = combine_fact (slot_fact_of a adr k) (slot_fact_of b adr k) \<and>
    ((slot_fact_of a adr k = slot_fact_of b adr k \<or> slot_fact_of a adr k = Unknown
        \<or> slot_fact_of b adr k = Unknown) \<longrightarrow>
      slot_fact_of (mergeStorageMap a b) adr k = slot_fact_of (mergeStorageMap b a) adr k)"
  using assms by (auto simp: slot_fact_mergeStorageMap)

theorem merge_storage_map_spec_witness:
  "slot_fact_of (mergeStorageMap [(''0xa'', Slots [(''0'', ''v'')])] [(''0xa'', RootHash ''r'')]) ''0xa'' ''0''
     = Rooted ''r'' \<and>
   slot_fact_of (mergeStorageMap [(''0xa'', Slots [(''0'', ''v'')])] [(''0xa'', Slots [(''1'', ''w'')])]) ''0xa'' ''0''
     = Slot_value ''v''"
  by (rule conjI; subst merge_storage_map_spec [THEN conjunct1])
    (simp_all add: storage_map_ok_def obj_ok_def slot_fact_of_def)

text \<open>The operation of the examples.\<close>

definition demo_op :: "string \<Rightarrow> int \<Rightarrow> string option \<Rightarrow> int \<Rightarrow> user_operation" where
  "demo_op snd_adr n pm fee = \<lparr>sender = snd_adr, nonce = n, factory = None, factoryData = None,
     callData = ''0x'', callGasLimit = 1, verificationGasLimit = 0, preVerificationGas = 0,
     maxFeePerGas = fee, maxPriorityFeePerGas = fee, paymaster = pm,
     paymasterVerificationGasLimit = None, paymasterPostOpGasLimit = None, paymasterData = None,
     signature = ''0x'', eip7702Auth = None\<rparr>"

lemma demo_op_simps [simp]:
  "sender (demo_op a n pm fee) = a" "nonce (demo_op a n pm fee) = n"
  "paymaster (demo_op a n pm fee) = pm" "factory (demo_op a n pm fee) = None"
  "maxFeePerGas (demo_op a n pm fee) = fee" "maxPriorityFeePerGas (demo_op a n pm fee) = fee"
  "getUserOpMaxCost (demo_op a n pm fee) = fee" "eip7702Auth (demo_op a n pm fee) = None"
  by (simp_all add: demo_op_def getUserOpMaxCost_def nullish_or_def)

end
