(* ===== verification/Deposit.thy ===== *)
theory Deposit
  imports State_Service UserOp_Utils
begin

text \<open>
  The deposit manager of \<open>src/deposit/deposit-manager.ts\<close>. The entry point's \<open>balanceOf\<close> is a
  parameter.
\<close>

record deposit_config =
  dp_verify :: "capability \<Rightarrow> bool"
  dp_stateCapability :: capability
  dp_balanceOf :: "string \<Rightarrow> int"

definition has_paymaster :: "user_operation \<Rightarrow> bool" where
  "has_paymaster op = (case paymaster op of
     None \<Rightarrow> False | Some pm \<Rightarrow> \<not> (pm = ''0x'' \<or> pm = ZeroAddress))"

text \<open>
  The loop subtracts \<open>getUserOpMaxCost(userOp)\<close>, the cost of the new operation, once per pool
  entry of the paymaster.
\<close>

definition depositLeft :: "int \<Rightarrow> user_operation \<Rightarrow> standard_pool \<Rightarrow> int" where
  "depositLeft balance userOp po =
     fold (\<lambda>entry deposit. if paymaster (me_userOp entry) = paymaster userOp
                           then deposit - getUserOpMaxCost userOp else deposit)
       (map snd po) (balance - getUserOpMaxCost userOp)"

definition checkPaymasterDeposit ::
  "deposit_config \<Rightarrow> user_operation \<Rightarrow> ('z State_scheme, unit) act" where
  "checkPaymasterDeposit cfg userOp =
     (if \<not> has_paymaster userOp then ret ()
      else andThen (getState (dp_verify cfg) (dp_stateCapability cfg) (One StandardPool))
        (\<lambda>p. requireCond
               (depositLeft (dp_balanceOf cfg (the (paymaster userOp))) userOp
                  (the (p_standardPool p)) \<ge> 0)
               ''paymaster deposit too low for all mempool UserOps'' PaymasterDepositTooLow))"

lemma keeps_checkPaymasterDeposit [simp, intro]: "keeps P (checkPaymasterDeposit cfg op)"
  unfolding checkPaymasterDeposit_def by (auto intro!: keeps_andThen)

lemma checkPaymasterDeposit_state [simp]: "snd (checkPaymasterDeposit cfg op s) = s"
  by (rule keeps_same) simp

lemma checkPaymasterDeposit_run:
  assumes "dp_verify cfg (dp_stateCapability cfg)"
  shows "checkPaymasterDeposit cfg op s =
    (if has_paymaster op \<longrightarrow>
        depositLeft (dp_balanceOf cfg (the (paymaster op))) op (standardPool s) \<ge> 0
     then Inr ()
     else Inl (RpcExn (RpcError ''paymaster deposit too low for all mempool UserOps'' PaymasterDepositTooLow)),
     s)"
  using assms by (simp add: checkPaymasterDeposit_def andThen_def getState_def pickKeys_def noKeys_def)

section \<open>Properties\<close>

text \<open>The pool's entries that name a given paymaster, and what they may cost together.\<close>

definition paymasterOps :: "string option \<Rightarrow> standard_pool \<Rightarrow> user_operation list" where
  "paymasterOps pm po = filter (\<lambda>op. paymaster op = pm) (map (me_userOp \<circ> snd) po)"

definition totalMaxCost :: "string option \<Rightarrow> standard_pool \<Rightarrow> int" where
  "totalMaxCost pm po = sum_list (map getUserOpMaxCost (paymasterOps pm po))"

lemma depositLeft_eq:
  "depositLeft balance op po
     = balance - (1 + int (length (paymasterOps (paymaster op) po))) * getUserOpMaxCost op"
proof -
  have "fold (\<lambda>entry deposit. if paymaster (me_userOp entry) = paymaster op
                           then deposit - getUserOpMaxCost op else deposit) (map snd po) d
    = d - int (length (paymasterOps (paymaster op) po)) * getUserOpMaxCost op" for d
    by (induction po arbitrary: d) (simp_all add: paymasterOps_def algebra_simps)
  then show ?thesis by (simp add: depositLeft_def algebra_simps)
qed

text \<open>
  Property C37. The deposit check accepts an operation with a paymaster exactly when the deposit
  covers as many times the new operation's maximum cost as the pool has entries of this
  paymaster, plus once; an operation without a paymaster is always accepted. It changes nothing.
\<close>

theorem deposit_check_outcome:
  assumes "dp_verify cfg (dp_stateCapability cfg)"
  shows "snd (checkPaymasterDeposit cfg op s) = s \<and>
    (fst (checkPaymasterDeposit cfg op s) = Inr () \<longleftrightarrow>
      (has_paymaster op \<longrightarrow>
        (1 + int (length (paymasterOps (paymaster op) (standardPool s)))) * getUserOpMaxCost op
          \<le> dp_balanceOf cfg (the (paymaster op))))"
  using assms by (auto simp: checkPaymasterDeposit_run depositLeft_eq)

definition demo_entry :: "user_operation \<Rightarrow> string \<Rightarrow> entry_status \<Rightarrow> mempool_entry" where
  "demo_entry op h st = \<lparr>me_userOp = op, me_userOpHash = h, me_prefund = 0,
     me_referencedContracts = Some \<lparr>rc_addresses = [], rc_hash = ''0x''\<rparr>, me_status = st,
     me_aggregator = None\<rparr>"

lemma demo_entry_simps [simp]:
  "me_userOp (demo_entry op h st) = op" "me_userOpHash (demo_entry op h st) = h"
  "me_status (demo_entry op h st) = st" "me_aggregator (demo_entry op h st) = None"
  by (simp_all add: demo_entry_def)

definition demo_deposit :: "int \<Rightarrow> deposit_config" where
  "demo_deposit b = \<lparr>dp_verify = (\<lambda>_. True),
     dp_stateCapability = \<lparr>issuer = ''0xaa'', cap_clientVersion = ''1'', moduleName = ''deposit-manager'',
       ocaps = [], salt = ''0x01'', cap_signature = ''0x02''\<rparr>,
     dp_balanceOf = (\<lambda>_. b)\<rparr>"

lemma demo_deposit_simps [simp]: "dp_verify (demo_deposit b) c" "dp_balanceOf (demo_deposit b) pm = b"
  by (simp_all add: demo_deposit_def)

definition demo_pool_state :: "standard_pool \<Rightarrow> entry_count \<Rightarrow> State" where
  "demo_pool_state po co = initialState\<lparr>standardPool := po, mempoolEntryCount := co\<rparr>"

lemma demo_pool_state_simps [simp]:
  "standardPool (demo_pool_state po co) = po" "mempoolEntryCount (demo_pool_state po co) = co"
  "whiteList (demo_pool_state po co) = []" "blackList (demo_pool_state po co) = []"
  "reputationEntries (demo_pool_state po co) = []"
  by (simp_all add: demo_pool_state_def initialState_def)

theorem deposit_check_outcome_witness:
  "fst (checkPaymasterDeposit (demo_deposit 9) (demo_op ''0x1'' 0 (Some ''0xaa'') 5)
     (demo_pool_state [(''h1'', demo_entry (demo_op ''0x2'' 0 (Some ''0xaa'') 1) ''h1'' pending)] [])) \<noteq> Inr ()"
  by (subst deposit_check_outcome [THEN conjunct2])
    (simp_all add: paymasterOps_def has_paymaster_def ZeroAddress_def)

text \<open>
  Where every pooled operation of the paymaster costs at most what the new one
  costs, an accepted operation keeps the total maximum cost of the paymaster's operations, the
  new one included, within its deposit.
\<close>

theorem deposit_check_sound_for_cheaper_pool:
  assumes "dp_verify cfg (dp_stateCapability cfg)" and "has_paymaster op"
    and "\<forall>x \<in> set (paymasterOps (paymaster op) (standardPool s)).
           getUserOpMaxCost x \<le> getUserOpMaxCost op"
    and "fst (checkPaymasterDeposit cfg op s) = Inr ()"
  shows "totalMaxCost (paymaster op) (standardPool s) + getUserOpMaxCost op
    \<le> dp_balanceOf cfg (the (paymaster op))"
proof -
  have "sum_list (map getUserOpMaxCost xs) \<le> int (length xs) * getUserOpMaxCost op"
    if "\<forall>x \<in> set xs. getUserOpMaxCost x \<le> getUserOpMaxCost op" for xs
    using that by (induction xs) (auto simp: algebra_simps)
  from this [OF assms(3)]
  have "totalMaxCost (paymaster op) (standardPool s) + getUserOpMaxCost op
    \<le> (1 + int (length (paymasterOps (paymaster op) (standardPool s)))) * getUserOpMaxCost op"
    by (simp add: totalMaxCost_def algebra_simps)
  also have "\<dots> \<le> dp_balanceOf cfg (the (paymaster op))"
    using assms(1,2,4) by (auto simp: checkPaymasterDeposit_run depositLeft_eq split: if_splits)
  finally show ?thesis .
qed

theorem deposit_check_sound_for_cheaper_pool_witness:
  "totalMaxCost (Some ''0xaa'') [(''h1'', demo_entry (demo_op ''0x2'' 0 (Some ''0xaa'') 1) ''h1'' pending)] + 5
    \<le> (10 :: int)"
  using deposit_check_sound_for_cheaper_pool [where cfg = "demo_deposit 10"
      and op = "demo_op ''0x1'' 0 (Some ''0xaa'') 5"
      and s = "demo_pool_state [(''h1'', demo_entry (demo_op ''0x2'' 0 (Some ''0xaa'') 1) ''h1'' pending)] []"]
  by (simp add: checkPaymasterDeposit_run depositLeft_eq paymasterOps_def has_paymaster_def ZeroAddress_def)

text \<open>
  In general the check does not bound that total: with an expensive operation of the
  paymaster in the pool, a cheap new one is accepted although the two together may cost more
  than the deposit.
\<close>

theorem deposit_check_ignores_pooled_costs:
  "\<exists>op s. has_paymaster op \<and>
     fst (checkPaymasterDeposit (demo_deposit 100) op (s :: State)) = Inr () \<and>
     totalMaxCost (paymaster op) (standardPool s) + getUserOpMaxCost op
       > dp_balanceOf (demo_deposit 100) (the (paymaster op))"
proof (intro exI conjI)
  let ?op = "demo_op ''0x1'' 0 (Some ''0xaa'') 5"
  let ?s = "demo_pool_state [(''h1'', demo_entry (demo_op ''0x2'' 0 (Some ''0xaa'') 99) ''h1'' pending)] []"
  show "has_paymaster ?op" by (simp add: has_paymaster_def ZeroAddress_def)
  show "fst (checkPaymasterDeposit (demo_deposit 100) ?op ?s) = Inr ()"
    by (simp add: checkPaymasterDeposit_run depositLeft_eq paymasterOps_def)
  show "totalMaxCost (paymaster ?op) (standardPool ?s) + getUserOpMaxCost ?op
       > dp_balanceOf (demo_deposit 100) (the (paymaster ?op))"
    by (simp add: totalMaxCost_def paymasterOps_def)
qed

end
