(* ===== verification/Mempool_Helper.thy ===== *)
theory Mempool_Helper
  imports Reputation Deposit
begin

text \<open>
  The functions of \<open>src/mempool/mempool-helper.ts\<close>: reputation checks of an incoming operation,
  the multiple-roles rule, the replacement rule and the update of the pool. The counters read by
  the checks are the argument \<open>counts\<close> (\<open>mempoolEntryCount\<close>), the reputation manager's methods are those of
  the theory \<open>Reputation\<close>.
\<close>

section \<open>Reputation\<close>

definition THROTTLED_ENTITY_MEMPOOL_COUNT :: int where "THROTTLED_ENTITY_MEMPOOL_COUNT = 4"
definition MAX_MEMPOOL_USEROPS_PER_SENDER :: int where "MAX_MEMPOOL_USEROPS_PER_SENDER = 4"

definition countOf :: "entry_count \<Rightarrow> string \<Rightarrow> int" where
  "countOf co a = (case map_of co a of None \<Rightarrow> 0 | Some n \<Rightarrow> n)"

definition checkReputationStatus ::
  "reputation_config \<Rightarrow> entry_count \<Rightarrow> string \<Rightarrow> stake_info \<Rightarrow> int option \<Rightarrow>
   ('z State_scheme, unit) act" where
  "checkReputationStatus cfg counts title stakeInfo override =
     andThen (case override of
         Some n \<Rightarrow> ret n
       | None \<Rightarrow> calculateMaxAllowedMempoolOpsUnstaked cfg (si_addr stakeInfo))
       (\<lambda>maxAllowed. andThen (checkBanned cfg title stakeInfo)
         (\<lambda>_. let foundCount = countOf counts (toLowerCase (si_addr stakeInfo)) in
           andThen (if foundCount > THROTTLED_ENTITY_MEMPOOL_COUNT
                    then checkThrottled cfg title stakeInfo else ret ())
             (\<lambda>_. if foundCount \<ge> maxAllowed
                   then checkStake cfg title (Some stakeInfo) else ret ())))"

definition checkOptional ::
  "reputation_config \<Rightarrow> entry_count \<Rightarrow> string \<Rightarrow> stake_info option \<Rightarrow>
   ('z State_scheme, unit) act" where
  "checkOptional cfg counts title infoOpt =
     (case infoOpt of None \<Rightarrow> ret ()
      | Some info \<Rightarrow> checkReputationStatus cfg counts title info None)"

text \<open>
  The information on the sender can be null (the debug API passes null): \<open>checkBanned\<close> reads the
  address of it first, which throws.
\<close>

definition checkSender ::
  "reputation_config \<Rightarrow> entry_count \<Rightarrow> stake_info option \<Rightarrow> ('z State_scheme, unit) act" where
  "checkSender cfg counts infoOpt =
     (case infoOpt of
        None \<Rightarrow> throw (TypeErrorExn ''Cannot read properties of null (reading addr)'')
      | Some info \<Rightarrow>
          checkReputationStatus cfg counts ''account'' info (Some MAX_MEMPOOL_USEROPS_PER_SENDER))"

definition checkReputation ::
  "reputation_config \<Rightarrow> entry_count \<Rightarrow> mempool_entry_metadata \<Rightarrow> ('z State_scheme, unit) act" where
  "checkReputation cfg counts md =
     andThen (checkSender cfg counts (md_senderInfo md))
       (\<lambda>_. andThen (checkOptional cfg counts ''paymaster'' (md_paymasterInfo md))
       (\<lambda>_. andThen (checkOptional cfg counts ''deployer'' (md_factoryInfo md))
       (\<lambda>_. checkOptional cfg counts ''aggregator'' (md_aggregatorInfo md))))"

text \<open>
  The helper \<open>updateSeenStatus\<close>: the sender is always incremented; only an \<open>RpcError\<close> of its
  stake check is swallowed.
\<close>

definition updateSeenStatusOp ::
  "string option \<Rightarrow> user_operation \<Rightarrow> reputation_config \<Rightarrow> stake_info option \<Rightarrow> seen_action \<Rightarrow>
   ('z State_scheme, unit) act" where
  "updateSeenStatusOp aggregator userOp cfg senderInfo action =
     andThen
       (catch_exn
          (andThen (checkStake cfg ''account'' senderInfo)
             (\<lambda>_. updateSeenStatus cfg (Some (sender userOp)) increment))
          (\<lambda>e. case e of RpcExn _ \<Rightarrow> ret () | _ \<Rightarrow> throw e))
       (\<lambda>_. andThen (updateSeenStatus cfg aggregator action)
       (\<lambda>_. andThen (updateSeenStatus cfg (paymaster userOp) action)
       (\<lambda>_. updateSeenStatus cfg (factory userOp) action)))"

section \<open>Roles\<close>

definition getKnownSenders :: "standard_pool \<Rightarrow> string list" where
  "getKnownSenders po =
     foldl (\<lambda>acc userOp. acc @ [toLowerCase (sender userOp)]) [] (map (me_userOp \<circ> snd) po)"

definition entity_or_0x :: "string option \<Rightarrow> string" where
  "entity_or_0x a = (if truthy a then the a else ''0x'')"

definition getKnownEntities :: "standard_pool \<Rightarrow> string list" where
  "getKnownEntities po =
     map toLowerCase (filter (\<lambda>a. a \<noteq> ''0x'')
       (foldl (\<lambda>acc userOp. acc @ [entity_or_0x (paymaster userOp), entity_or_0x (factory userOp)])
          [] (map (me_userOp \<circ> snd) po)))"

definition lower_or_empty :: "string option \<Rightarrow> string" where
  "lower_or_empty a = (case a of None \<Rightarrow> '''' | Some x \<Rightarrow> toLowerCase x)"

definition str_undefined :: "string option \<Rightarrow> string" where
  "str_undefined a = (case a of None \<Rightarrow> ''undefined'' | Some x \<Rightarrow> x)"

definition checkMultipleRolesViolation ::
  "entry_with_metadata \<Rightarrow> string list \<Rightarrow> string list \<Rightarrow> (rpc_error, entry_with_metadata) either" where
  "checkMultipleRolesViolation em knownEntities knownSenders =
     (let userOp = me_userOp (fst em) in
      if toLowerCase (sender userOp) \<in> set knownEntities then
        Left (RpcError (''The sender address \"'' @ sender userOp @
          ''\" is used as a different entity in another UserOperation currently in mempool'')
          OpcodeValidation)
      else if lower_or_empty (paymaster userOp) \<in> set knownSenders then
        Left (RpcError (''A Paymaster at '' @ str_undefined (paymaster userOp) @
          '' in this UserOperation is used as a sender entity in another UserOperation currently in mempool.'')
          OpcodeValidation)
      else if lower_or_empty (factory userOp) \<in> set knownSenders then
        Left (RpcError (''A Factory at '' @ str_undefined (factory userOp) @
          '' in this UserOperation is used as a sender entity in another UserOperation currently in mempool.'')
          OpcodeValidation)
      else Right em)"

section \<open>Replacement\<close>

text \<open>
  The literal \<open>1.1\<close> is the double \<open>4953959590107546 / 2 ^ 52\<close>. The product of an integer-valued
  double with it is rounded to 53 significant bits; both sides of the comparison are scaled by
  \<open>2 ^ 52\<close>, which is exact.
\<close>

definition atLeastTenPercentMore :: "int \<Rightarrow> int \<Rightarrow> bool" where
  "atLeastTenPercentMore newFee oldFee \<longleftrightarrow>
     Number_of (oldFee * 4953959590107546) \<le> newFee * 2 ^ 52"

definition checkReplaceUserOp ::
  "entry_with_metadata \<Rightarrow> (rpc_error, entry_with_metadata) either" where
  "checkReplaceUserOp em =
     (case md_oldEntry (snd em) of
        None \<Rightarrow> Right em
      | Some oldEntry \<Rightarrow>
          (let oldMaxPriorityFeePerGas = Number_of (maxPriorityFeePerGas (me_userOp oldEntry));
               newMaxPriorityFeePerGas = Number_of (maxPriorityFeePerGas (me_userOp (fst em)));
               oldMaxFeePerGas = Number_of (maxFeePerGas (me_userOp oldEntry));
               newMaxFeePerGas = Number_of (maxFeePerGas (me_userOp (fst em)))
           in if \<not> atLeastTenPercentMore newMaxPriorityFeePerGas oldMaxPriorityFeePerGas then
                Left (RpcError (''Replacement UserOperation must have higher maxPriorityFeePerGas (old=''
                  @ int_str oldMaxPriorityFeePerGas @ '' new='' @ int_str newMaxPriorityFeePerGas
                  @ '') '') InvalidFields)
              else if \<not> atLeastTenPercentMore newMaxFeePerGas oldMaxFeePerGas then
                Left (RpcError (''Replacement UserOperation must have higher maxFeePerGas (old=''
                  @ int_str oldMaxFeePerGas @ '' new='' @ int_str newMaxFeePerGas @ '') '')
                  InvalidFields)
              else Right em))"

definition findBySenderNonce :: "string \<Rightarrow> int \<Rightarrow> standard_pool \<Rightarrow> mempool_entry option" where
  "findBySenderNonce sd n po =
     List.find (\<lambda>entry. toLowerCase (sender (me_userOp entry)) = toLowerCase sd \<and>
                        nonce (me_userOp entry) = n) (map snd po)"

definition replaceOrAddUserOpChecks ::
  "reputation_config \<Rightarrow> entry_count \<Rightarrow> standard_pool \<Rightarrow> entry_with_metadata \<Rightarrow>
   ('z State_scheme, (rpc_error, entry_with_metadata) either) act" where
  "replaceOrAddUserOpChecks cfg counts po em =
     (let userOp = me_userOp (fst em) in
      case findBySenderNonce (sender userOp) (nonce userOp) po of
        Some oldEntry \<Rightarrow>
          ret (flatMap (either_map (\<lambda>(entry, md). (entry, md\<lparr>md_oldEntry := Some oldEntry\<rparr>)) (Right em))
                 checkReplaceUserOp)
      | None \<Rightarrow>
          andThen (checkReputation cfg counts (snd em))
            (\<lambda>_. ret (flatMap (Right em)
               (\<lambda>em. checkMultipleRolesViolation em (getKnownEntities po) (getKnownSenders po)))))"

section \<open>Updating the pool\<close>

definition countEntity :: "string option \<Rightarrow> entry_count \<Rightarrow> entry_count \<Rightarrow> entry_count" where
  "countEntity a counts upd =
     (if truthy a \<and> toLowerCase (the a) \<noteq> ''0x''
      then AList.update (toLowerCase (the a)) (countOf counts (toLowerCase (the a)) + 1) upd
      else upd)"

definition doUpdateMempoolState ::
  "entry_with_metadata \<Rightarrow> standard_pool \<Rightarrow> entry_count \<Rightarrow> standard_pool \<times> entry_count" where
  "doUpdateMempoolState em po counts =
     (let entry = fst em; userOp = me_userOp entry in
      case md_oldEntry (snd em) of
        Some oldEntry \<Rightarrow>
          (AList.update (me_userOpHash entry) entry (AList.delete (me_userOpHash oldEntry) po),
           counts)
      | None \<Rightarrow>
          (let a = toLowerCase (sender userOp);
               entriesCountToUpdate =
                 countEntity (factory userOp) counts
                   (countEntity (paymaster userOp) counts
                      [(a, countOf counts a + 1)])
           in (AList.update (me_userOpHash entry) entry po,
               spread counts entriesCountToUpdate)))"

section \<open>Lemmas\<close>

lemma keeps_checkReputation [simp, intro]: "keeps P (checkReputation cfg co md)"
proof -
  have "keeps P (checkReputationStatus cfg co t i ov)" for t i ov
    unfolding checkReputationStatus_def Let_def
    by (cases ov) (auto intro!: keeps_andThen)
  then show ?thesis
    unfolding checkReputation_def checkSender_def checkOptional_def
    by (auto intro!: keeps_andThen split: option.split)
qed

lemma keeps_replaceOrAdd [simp, intro]: "keeps P (replaceOrAddUserOpChecks cfg co po em)"
  unfolding replaceOrAddUserOpChecks_def Let_def
  by (auto intro!: keeps_andThen split: option.split)

lemma keeps_updateSeenStatusOp:
  assumes "\<And>a act. keeps P (updateSeenStatus cfg a act :: ('z State_scheme, unit) act)"
  shows "keeps P (updateSeenStatusOp ag op cfg si act :: ('z State_scheme, unit) act)"
  unfolding updateSeenStatusOp_def
  by (intro keeps_andThen keeps_catch assms keeps_checks) (auto split: exn.split)

lemma set_getKnownSenders:
  "set (getKnownSenders po) = (\<lambda>e. toLowerCase (sender (me_userOp (snd e)))) ` set po"
proof -
  have "foldl (\<lambda>acc userOp. acc @ [toLowerCase (sender userOp)]) acc ops
      = acc @ map (toLowerCase \<circ> sender) ops" for acc and ops :: "user_operation list"
    by (induction ops arbitrary: acc) simp_all
  then show ?thesis by (auto simp: getKnownSenders_def)
qed

text \<open>The addresses an operation names as paymaster or factory.\<close>

definition entitiesOf :: "user_operation \<Rightarrow> string set" where
  "entitiesOf op = toLowerCase ` ({entity_or_0x (paymaster op), entity_or_0x (factory op)} - {''0x''})"

lemma set_getKnownEntities:
  "set (getKnownEntities po) = (\<Union>e \<in> set po. entitiesOf (me_userOp (snd e)))"
proof -
  have "foldl (\<lambda>acc userOp. acc @ [entity_or_0x (paymaster userOp), entity_or_0x (factory userOp)]) acc ops
      = acc @ concat (map (\<lambda>userOp. [entity_or_0x (paymaster userOp), entity_or_0x (factory userOp)]) ops)"
    for acc and ops :: "user_operation list" by (induction ops arbitrary: acc) simp_all
  then show ?thesis by (simp add: getKnownEntities_def entitiesOf_def) blast
qed

lemma findBySenderNonce_Some:
  assumes "findBySenderNonce sd n po = Some e"
  shows "\<exists>h. (h, e) \<in> set po \<and> toLowerCase (sender (me_userOp e)) = toLowerCase sd \<and>
    nonce (me_userOp e) = n"
  using assms by (auto simp: findBySenderNonce_def find_Some_iff in_set_conv_nth) (metis prod.collapse)

lemma findBySenderNonce_None:
  "findBySenderNonce sd n po = None \<longleftrightarrow>
    (\<forall>(h, e) \<in> set po. \<not> (toLowerCase (sender (me_userOp e)) = toLowerCase sd \<and> nonce (me_userOp e) = n))"
  by (auto simp: findBySenderNonce_def find_None_iff)

lemma checkReplaceUserOp_Right [dest]: "checkReplaceUserOp em = Right em' \<Longrightarrow> em' = em"
  by (auto simp: checkReplaceUserOp_def Let_def split: option.splits if_splits)

lemma checkMultipleRoles_Right [dest]: "checkMultipleRolesViolation em ks ss = Right em' \<Longrightarrow> em' = em"
  by (auto simp: checkMultipleRolesViolation_def Let_def split: if_splits)

text \<open>What an accepting run of the checks says of the pool it looked at.\<close>

lemma replaceOrAdd_accepts:
  assumes "replaceOrAddUserOpChecks cfg co po (entry, md) s = (Inr (Right (entry', md')), s')"
    and "md_oldEntry md = None"
  shows "entry' = entry \<and> md' = md\<lparr>md_oldEntry :=
    findBySenderNonce (sender (me_userOp entry)) (nonce (me_userOp entry)) po\<rparr>"
  using assms
  by (auto simp: replaceOrAddUserOpChecks_def Let_def andThen_def
      split: option.splits sum.splits prod.splits)

end
