(* ===== verification/Mempool.thy ===== *)
theory Mempool
  imports Mempool_Helper
begin

text \<open>
  The mempool manager of \<open>src/mempool/mempool-manager.ts\<close>. An operation that awaits other
  services is the composition of its parts; \<open>addUserOp\<close> is split at its last read
  (\<open>addUserOp_checks\<close>) and its first write (\<open>addUserOp_commit\<close>), between which other requests
  can run.

  Entries are objects: the list \<open>getNextPending\<close> and \<open>getAllPending\<close> return shares the
  entries whose status they set, so it is the list of the updated entries.
\<close>

record mempool_config =
  mp_verify :: "capability \<Rightarrow> bool"
  mp_stateCapability :: capability
  mp_bundleSize :: int
  mp_reputation :: reputation_config
  mp_deposit :: deposit_config

section \<open>Queries\<close>

definition readPool :: "mempool_config \<Rightarrow> (standard_pool \<Rightarrow> 'a) \<Rightarrow> ('z State_scheme, 'a) act" where
  "readPool cfg f =
     andThen (getState (mp_verify cfg) (mp_stateCapability cfg) (One StandardPool))
       (\<lambda>p. ret (f (the (p_standardPool p))))"

definition mp_getKnownSenders :: "mempool_config \<Rightarrow> ('z State_scheme, string list) act" where
  "mp_getKnownSenders cfg = readPool cfg getKnownSenders"

definition mp_getKnownEntities :: "mempool_config \<Rightarrow> ('z State_scheme, string list) act" where
  "mp_getKnownEntities cfg = readPool cfg getKnownEntities"

definition findByHash :: "mempool_config \<Rightarrow> string \<Rightarrow> ('z State_scheme, mempool_entry option) act" where
  "findByHash cfg userOpHash = readPool cfg (\<lambda>po. map_of po userOpHash)"

definition isMempoolOverloaded :: "mempool_config \<Rightarrow> ('z State_scheme, bool) act" where
  "isMempoolOverloaded cfg = readPool cfg (\<lambda>po. int (length po) \<ge> mp_bundleSize cfg)"

definition mp_size :: "mempool_config \<Rightarrow> ('z State_scheme, nat) act" where
  "mp_size cfg = readPool cfg length"

definition mp_dump :: "mempool_config \<Rightarrow> ('z State_scheme, user_operation list) act" where
  "mp_dump cfg = readPool cfg (map (me_userOp \<circ> snd))"

section \<open>Adding an operation\<close>

text \<open>\<open>updateState(cap, [StandardPool, MempoolEntryCount], f)\<close>\<close>

definition updatePoolAndCount ::
  "mempool_config \<Rightarrow> (standard_pool \<Rightarrow> entry_count \<Rightarrow> standard_pool \<times> entry_count) \<Rightarrow>
   ('z State_scheme, bool) act" where
  "updatePoolAndCount cfg f =
     updateState (mp_verify cfg) (mp_stateCapability cfg) (Many [StandardPool, MempoolEntryCount])
       (\<lambda>p. let (po, co) = f (the (p_standardPool p)) (the (p_mempoolEntryCount p))
            in Inr (noKeys\<lparr>p_standardPool := Some po, p_mempoolEntryCount := Some co\<rparr>))"

definition incomingEntry :: "relay_user_op_param \<Rightarrow> entry_with_metadata" where
  "incomingEntry r =
     (\<lparr>me_userOp = rl_userOp r, me_userOpHash = rl_userOpHash r, me_prefund = rl_prefund r,
        me_referencedContracts = rl_referencedContracts r, me_status = pending,
        me_aggregator = map_option si_addr (rl_aggregatorInfo r)\<rparr>,
      \<lparr>md_senderInfo = rl_senderInfo r, md_paymasterInfo = rl_paymasterInfo r,
        md_factoryInfo = rl_factoryInfo r, md_aggregatorInfo = rl_aggregatorInfo r,
        md_oldEntry = None\<rparr>)"

definition addUserOp_checks ::
  "mempool_config \<Rightarrow> relay_user_op_param \<Rightarrow>
   ('z State_scheme, (rpc_error, entry_with_metadata) either) act" where
  "addUserOp_checks cfg r =
     andThen (checkPaymasterDeposit (mp_deposit cfg) (rl_userOp r))
       (\<lambda>_. andThen (getState (mp_verify cfg) (mp_stateCapability cfg)
                      (Many [StandardPool, MempoolEntryCount]))
         (\<lambda>p. replaceOrAddUserOpChecks (mp_reputation cfg) (the (p_mempoolEntryCount p))
                (the (p_standardPool p)) (incomingEntry r)))"

definition addUserOp_commit ::
  "mempool_config \<Rightarrow> relay_user_op_param \<Rightarrow> (rpc_error, entry_with_metadata) either \<Rightarrow>
   ('z State_scheme, (rpc_error, string) either) act" where
  "addUserOp_commit cfg r res =
     foldAsync (\<lambda>e. ret (Left e))
       (\<lambda>em. andThen (updatePoolAndCount cfg (doUpdateMempoolState em))
         (\<lambda>_. andThen
           (case md_oldEntry (snd em) of
              None \<Rightarrow> ret ()
            | Some old \<Rightarrow> updateSeenStatusOp (me_aggregator old) (me_userOp old) (mp_reputation cfg)
                            (rl_senderInfo r) decrement)
         (\<lambda>_. andThen
           (updateSeenStatusOp (map_option si_addr (rl_aggregatorInfo r)) (rl_userOp r)
              (mp_reputation cfg) (rl_senderInfo r) increment)
         (\<lambda>_. ret (Right (rl_userOpHash r)))))) res"

definition addUserOp ::
  "mempool_config \<Rightarrow> relay_user_op_param \<Rightarrow> ('z State_scheme, (rpc_error, string) either) act" where
  "addUserOp cfg r = andThen (addUserOp_checks cfg r) (addUserOp_commit cfg r)"

section \<open>Removing operations\<close>

text \<open>The argument \<open>userOpOrHash: string | UserOperation\<close>.\<close>

datatype op_or_hash = By_hash string | By_op user_operation

fun findEntry :: "op_or_hash \<Rightarrow> standard_pool \<Rightarrow> mempool_entry option" where
  "findEntry (By_hash h) po = map_of po h"
| "findEntry (By_op op) po = findBySenderNonce (sender op) (nonce op) po"

text \<open>The counter is kept under the sender as it is written, not under its lower-case form.\<close>

definition dropEntry ::
  "mempool_entry \<Rightarrow> standard_pool \<Rightarrow> entry_count \<Rightarrow> standard_pool \<times> entry_count" where
  "dropEntry entry po counts =
     (let a = sender (me_userOp entry); n = countOf counts a - 1
      in (AList.delete (me_userOpHash entry) po,
          if n \<le> 0 then AList.delete a counts else AList.update a n counts))"

definition removeUserOp :: "mempool_config \<Rightarrow> op_or_hash \<Rightarrow> ('z State_scheme, bool) act" where
  "removeUserOp cfg x =
     andThen (readPool cfg (findEntry x))
       (\<lambda>found. case found of
          None \<Rightarrow> ret False
        | Some entry \<Rightarrow> andThen (updatePoolAndCount cfg (dropEntry entry)) (\<lambda>_. ret True))"

definition names_address :: "string \<Rightarrow> user_operation \<Rightarrow> bool" where
  "names_address adr op \<longleftrightarrow> sender op = adr \<or> paymaster op = Some adr \<or> factory op = Some adr"

definition delete_if :: "string option \<Rightarrow> entry_count \<Rightarrow> entry_count" where
  "delete_if a counts = (if truthy a then AList.delete (the a) counts else counts)"

definition dropBanned ::
  "mempool_entry list \<Rightarrow> standard_pool \<Rightarrow> entry_count \<Rightarrow> standard_pool \<times> entry_count" where
  "dropBanned opsToRemove po counts =
     fold (\<lambda>entry (po, counts).
             (AList.delete (me_userOpHash entry) po,
              delete_if (factory (me_userOp entry))
                (delete_if (paymaster (me_userOp entry))
                  (AList.delete (sender (me_userOp entry)) counts))))
       opsToRemove (po, counts)"

definition removeUserOpsForBannedAddr :: "mempool_config \<Rightarrow> string \<Rightarrow> ('z State_scheme, unit) act" where
  "removeUserOpsForBannedAddr cfg adr =
     andThen (readPool cfg (\<lambda>po. filter (\<lambda>entry. names_address adr (me_userOp entry)) (map snd po)))
       (\<lambda>opsToRemove. andThen (updatePoolAndCount cfg (dropBanned opsToRemove)) (\<lambda>_. ret ()))"

section \<open>Taking pending operations\<close>

text \<open>\<open>standardPool[hash].status = st\<close>; reading a missing key throws.\<close>

definition setPoolStatus :: "entry_status \<Rightarrow> string \<Rightarrow> standard_pool \<Rightarrow> exn + standard_pool" where
  "setPoolStatus st h po =
     (case map_of po h of
        None \<Rightarrow> Inl (TypeErrorExn ''Cannot set properties of undefined'')
      | Some e \<Rightarrow> Inr (AList.update h (e\<lparr>me_status := st\<rparr>) po))"

fun setPoolStatuses :: "entry_status \<Rightarrow> string list \<Rightarrow> standard_pool \<Rightarrow> exn + standard_pool" where
  "setPoolStatuses st [] po = Inr po"
| "setPoolStatuses st (h # hs) po =
     (case setPoolStatus st h po of Inl e \<Rightarrow> Inl e | Inr po' \<Rightarrow> setPoolStatuses st hs po')"

text \<open>Updating the status of the found entries to \<open>'bundling'\<close> and returning them.\<close>

definition markBundling :: "mempool_config \<Rightarrow> mempool_entry list \<Rightarrow> ('z State_scheme, mempool_entry list) act" where
  "markBundling cfg found =
     andThen (updateState (mp_verify cfg) (mp_stateCapability cfg) (One StandardPool)
        (\<lambda>p. case setPoolStatuses bundling (map me_userOpHash found) (the (p_standardPool p)) of
               Inl e \<Rightarrow> Inl e
             | Inr po \<Rightarrow> Inr (noKeys\<lparr>p_standardPool := Some po\<rparr>)))
       (\<lambda>_. ret (map (me_status_update (\<lambda>_. bundling)) found))"

text \<open>The loop of \<open>getNextPending\<close> with its counter.\<close>

fun takePending :: "int \<Rightarrow> int \<Rightarrow> mempool_entry list \<Rightarrow> mempool_entry list" where
  "takePending n bundleSize [] = []"
| "takePending n bundleSize (e # es) =
     (if n < bundleSize \<and> me_status e = pending
      then e # takePending (n + 1) bundleSize es else takePending n bundleSize es)"

definition getNextPending :: "mempool_config \<Rightarrow> ('z State_scheme, mempool_entry list) act" where
  "getNextPending cfg =
     andThen (readPool cfg (\<lambda>po. takePending 0 (mp_bundleSize cfg) (map snd po))) (markBundling cfg)"

definition getAllPending :: "mempool_config \<Rightarrow> ('z State_scheme, mempool_entry list) act" where
  "getAllPending cfg =
     andThen (readPool cfg (\<lambda>po. filter (\<lambda>e. me_status e = pending) (map snd po)))
       (markBundling cfg)"

definition updateEntryStatus ::
  "mempool_config \<Rightarrow> op_or_hash \<Rightarrow> entry_status \<Rightarrow> ('z State_scheme, unit) act" where
  "updateEntryStatus cfg x st =
     andThen (readPool cfg (findEntry x))
       (\<lambda>found. case found of
          None \<Rightarrow> ret ()
        | Some entry \<Rightarrow>
            andThen (updateState (mp_verify cfg) (mp_stateCapability cfg) (One StandardPool)
               (\<lambda>p. Inr (noKeys\<lparr>p_standardPool := Some (AList.update (me_userOpHash entry)
                      (entry\<lparr>me_status := st\<rparr>) (the (p_standardPool p)))\<rparr>)))
              (\<lambda>_. ret ()))"

definition mp_clearState :: "mempool_config \<Rightarrow> ('z State_scheme, bool) act" where
  "mp_clearState cfg = updatePoolAndCount cfg (\<lambda>_ _. ([], []))"

section \<open>Runs\<close>

lemma readPool_run:
  "mp_verify cfg (mp_stateCapability cfg) \<Longrightarrow> readPool cfg f s = (Inr (f (standardPool s)), s)"
  by (simp add: readPool_def andThen_def getState_def pickKeys_def noKeys_def)

lemma readPool_then_run:
  "mp_verify cfg (mp_stateCapability cfg) \<Longrightarrow> andThen (readPool cfg f) g s = g (f (standardPool s)) s"
  by (simp add: andThen_def readPool_run)

lemma updatePoolAndCount_run:
  "mp_verify cfg (mp_stateCapability cfg) \<Longrightarrow> updatePoolAndCount cfg f s
     = (Inr True, s\<lparr>standardPool := fst (f (standardPool s) (mempoolEntryCount s)),
          mempoolEntryCount := snd (f (standardPool s) (mempoolEntryCount s))\<rparr>)"
  unfolding updatePoolAndCount_def by (rule update_pool_and_count)

lemma keeps_updatePoolAndCount:
  assumes "\<And>s. P s \<Longrightarrow> P (s\<lparr>standardPool := fst (f (standardPool s) (mempoolEntryCount s)),
          mempoolEntryCount := snd (f (standardPool s) (mempoolEntryCount s))\<rparr>)"
  shows "keeps P (updatePoolAndCount cfg f)"
proof
  fix s assume s: "P s"
  show "P (snd (updatePoolAndCount cfg f s))"
  proof (cases "mp_verify cfg (mp_stateCapability cfg)")
    case True
    with s assms show ?thesis by (simp add: updatePoolAndCount_run)
  next
    case False
    with s show ?thesis by (simp add: updatePoolAndCount_def updateState_denied)
  qed
qed

lemma keeps_readPool [simp, intro]: "keeps P (readPool cfg f)"
  unfolding readPool_def by (intro keeps_andThen keeps_getState keeps_ret)

lemma updatePool_run:
  assumes "mp_verify cfg (mp_stateCapability cfg)"
  shows "updateState (mp_verify cfg) (mp_stateCapability cfg) (One StandardPool)
      (\<lambda>p. case g (the (p_standardPool p)) of Inl e \<Rightarrow> Inl e
           | Inr po \<Rightarrow> Inr (noKeys\<lparr>p_standardPool := Some po\<rparr>)) s
    = (case g (standardPool s) of Inl e \<Rightarrow> (Inl e, s) | Inr po \<Rightarrow> (Inr True, s\<lparr>standardPool := po\<rparr>))"
  using assms
  by (simp add: updateState_def validateNonEmpty_def validateKeysMatch_iff state_field_simps
      split: sum.split)

section \<open>The pool invariant\<close>

text \<open>
  Every entry is stored under its hash, and no two entries have the same sender (in any letter
  case) and nonce.
\<close>

definition slot :: "mempool_entry \<Rightarrow> string \<times> int" where
  "slot e = (toLowerCase (sender (me_userOp e)), nonce (me_userOp e))"

definition pool_ok :: "standard_pool \<Rightarrow> bool" where
  "pool_ok po \<longleftrightarrow> obj_ok po \<and> (\<forall>(h, e) \<in> set po. me_userOpHash e = h) \<and>
     (\<forall>(h, e) \<in> set po. \<forall>(h', e') \<in> set po. slot e = slot e' \<longrightarrow> h = h')"

lemma pool_ok_Nil [simp]: "pool_ok []"
  by (simp add: pool_ok_def)

lemma pool_ok_delete: "pool_ok po \<Longrightarrow> pool_ok (AList.delete h po)"
  by (auto simp: pool_ok_def set_delete)

lemma pool_ok_update:
  assumes "pool_ok po" and "me_userOpHash e = h"
    and "\<And>h' e'. (h', e') \<in> set po \<Longrightarrow> slot e' = slot e \<Longrightarrow> h' = h"
  shows "pool_ok (AList.update h e po)"
  using assms by (fastforce simp: pool_ok_def set_update_distinct)

lemma pool_ok_lookup: "pool_ok po \<Longrightarrow> map_of po h = Some e \<longleftrightarrow> (h, e) \<in> set po"
  by (simp add: pool_ok_def obj_ok_map_of_iff)

lemma pool_ok_hash: "pool_ok po \<Longrightarrow> (h, e) \<in> set po \<Longrightarrow> me_userOpHash e = h"
  by (auto simp: pool_ok_def)

lemma pool_ok_slot:
  "pool_ok po \<Longrightarrow> (h, e) \<in> set po \<Longrightarrow> (h', e') \<in> set po \<Longrightarrow> slot e = slot e' \<Longrightarrow> h = h'"
  by (fastforce simp: pool_ok_def)

lemma slot_status [simp]: "slot (e\<lparr>me_status := st\<rparr>) = slot e"
  by (simp add: slot_def)

lemma pool_ok_status:
  assumes "pool_ok po" and "(h, e) \<in> set po"
  shows "pool_ok (AList.update h (e\<lparr>me_status := st\<rparr>) po)"
  using assms by (intro pool_ok_update) (auto dest: pool_ok_hash pool_ok_slot)

lemma pool_ok_setPoolStatuses:
  "pool_ok po \<Longrightarrow> setPoolStatuses st hs po = Inr po' \<Longrightarrow> pool_ok po'"
proof (induction hs arbitrary: po)
  case (Cons h hs)
  then obtain e where "map_of po h = Some e"
    and "setPoolStatuses st hs (AList.update h (e\<lparr>me_status := st\<rparr>) po) = Inr po'"
    by (auto simp: setPoolStatus_def split: sum.splits option.splits)
  with Cons show ?case by (auto intro: pool_ok_status dest: map_of_SomeD)
qed simp

lemma pool_ok_find:
  assumes "pool_ok po" and "findBySenderNonce sd n po = Some e"
  shows "(me_userOpHash e, e) \<in> set po \<and> slot e = (toLowerCase sd, n)"
  using findBySenderNonce_Some [OF assms(2)] pool_ok_hash [OF assms(1)] by (auto simp: slot_def)

lemma pool_ok_findEntry:
  "pool_ok po \<Longrightarrow> findEntry x po = Some e \<Longrightarrow> (me_userOpHash e, e) \<in> set po"
  by (cases x) (auto simp: pool_ok_lookup dest: pool_ok_find pool_ok_hash)

text \<open>The update an accepted operation makes, when its old entry is the one the pool has.\<close>

lemma pool_ok_doUpdate:
  assumes "pool_ok po"
    and "md_oldEntry md = findBySenderNonce (sender (me_userOp e)) (nonce (me_userOp e)) po"
  shows "pool_ok (fst (doUpdateMempoolState (e, md) po co))"
proof (cases "md_oldEntry md")
  case None
  with assms(2) [symmetric] have "\<forall>(h, x) \<in> set po. slot x \<noteq> slot e"
    by (auto simp: findBySenderNonce_None slot_def)
  with assms(1) None show ?thesis
    by (auto simp: doUpdateMempoolState_def Let_def intro!: pool_ok_update)
next
  case (Some old)
  with assms have old: "(me_userOpHash old, old) \<in> set po" "slot old = slot e"
    using pool_ok_find [OF assms(1), of "sender (me_userOp e)" "nonce (me_userOp e)" old]
    by (auto simp: slot_def)
  have "h' = me_userOpHash old" if "(h', e') \<in> set po" "slot e' = slot e" for h' e'
    using pool_ok_slot [OF assms(1) that(1) old(1)] that(2) old(2) by simp
  with assms(1) Some show ?thesis
    by (auto simp: doUpdateMempoolState_def Let_def set_delete intro!: pool_ok_update pool_ok_delete)
qed

lemma pool_ok_dropBanned: "pool_ok po \<Longrightarrow> pool_ok (fst (dropBanned es po co))"
  unfolding dropBanned_def
  by (induction es arbitrary: po co) (simp_all add: pool_ok_delete)

lemma pool_ok_dropEntry: "pool_ok po \<Longrightarrow> pool_ok (fst (dropEntry e po co))"
  by (simp add: dropEntry_def Let_def pool_ok_delete)

section \<open>Adding, run\<close>

lemma keeps_addUserOp_checks [simp, intro]: "keeps P (addUserOp_checks cfg r)"
  unfolding addUserOp_checks_def by (intro keeps_andThen) auto

lemma addUserOp_checks_state [simp]: "snd (addUserOp_checks cfg r s) = s"
  using keepsD [OF keeps_addUserOp_checks, where P = "\<lambda>t. t = s" and s = s] by simp

lemma addUserOp_run:
  "addUserOp cfg r s =
     (case fst (addUserOp_checks cfg r s) of
        Inl e \<Rightarrow> (Inl e, s)
      | Inr (Left e) \<Rightarrow> (Inr (Left e), s)
      | Inr (Right em) \<Rightarrow> addUserOp_commit cfg r (Right em) s)"
  using addUserOp_checks_state [of cfg r s]
  by (auto simp: addUserOp_def andThen_def addUserOp_commit_def split: prod.splits sum.splits
      either.splits simp del: addUserOp_checks_state)

text \<open>What the checks hand to the commit.\<close>

lemma addUserOp_checks_Right:
  assumes "mp_verify cfg (mp_stateCapability cfg)"
    and "fst (addUserOp_checks cfg r s) = Inr (Right (entry, md))"
  shows "entry = fst (incomingEntry r) \<and> md = (snd (incomingEntry r))\<lparr>md_oldEntry :=
    findBySenderNonce (sender (rl_userOp r)) (nonce (rl_userOp r)) (standardPool s)\<rparr>"
proof -
  from assms(2) obtain s' where
    "replaceOrAddUserOpChecks (mp_reputation cfg) (mempoolEntryCount s) (standardPool s)
       (incomingEntry r) s = (Inr (Right (entry, md)), s')"
    using assms(1) checkPaymasterDeposit_state [of "mp_deposit cfg" "rl_userOp r" s]
    by (cases "checkPaymasterDeposit (mp_deposit cfg) (rl_userOp r) s")
      (auto simp: addUserOp_checks_def andThen_def getState_def pickKeys_def noKeys_def prod_eq_iff
        split: sum.splits)
  from replaceOrAdd_accepts [of _ _ _ "fst (incomingEntry r)" "snd (incomingEntry r)", simplified, OF this]
  show ?thesis by (simp add: incomingEntry_def)
qed

lemma updateSeenStatus_total:
  "rm_verify cfg (rm_stateCapability cfg) \<Longrightarrow> \<exists>es. updateSeenStatus cfg a act s
     = (Inr (), s\<lparr>reputationEntries := es\<rparr>)"
proof (cases "truthy a")
  case False
  then have "updateSeenStatus cfg a act s = (Inr (), s\<lparr>reputationEntries := reputationEntries s\<rparr>)"
    by (simp add: updateSeenStatus_def)
  then show ?thesis by blast
next
  case True
  moreover assume "rm_verify cfg (rm_stateCapability cfg)"
  ultimately have "updateSeenStatus cfg a act s = (Inr (),
      s\<lparr>reputationEntries := bumpSeen act (toLowerCase (the a)) (reputationEntries s)\<rparr>)"
    by (simp add: updateSeenStatus_def updateEntries_then_run)
  then show ?thesis by blast
qed

lemma updateSeenStatusOp_total:
  assumes "rm_verify cfg (rm_stateCapability cfg)"
  shows "\<exists>es. updateSeenStatusOp ag op cfg si act s = (Inr (), s\<lparr>reputationEntries := es\<rparr>)"
proof -
  note seen = updateSeenStatus_total [OF assms]
  have "\<exists>es. catch_exn (andThen (checkStake cfg ''account'' si)
             (\<lambda>_. updateSeenStatus cfg (Some (sender op)) increment))
          (\<lambda>e. case e of RpcExn _ \<Rightarrow> ret () | _ \<Rightarrow> throw e) s = (Inr (), s\<lparr>reputationEntries := es\<rparr>)"
    (is "\<exists>es. ?try s = _ es")
  proof (rule checkStake_run [OF assms, of "''account''" si s])
    assume "checkStake cfg ''account'' si s = (Inr (), s)"
    with seen [of "Some (sender op)" increment s] show ?thesis
      by (auto simp: catch_exn_def andThen_def)
  next
    fix e assume "checkStake cfg ''account'' si s = (Inl (RpcExn e), s)"
    then have "?try s = (Inr (), s\<lparr>reputationEntries := reputationEntries s\<rparr>)"
      by (simp add: catch_exn_def andThen_def)
    then show ?thesis by blast
  qed
  then obtain es where "?try s = (Inr (), s\<lparr>reputationEntries := es\<rparr>)" ..
  moreover obtain es2 where "updateSeenStatus cfg ag act (s\<lparr>reputationEntries := es\<rparr>)
      = (Inr (), s\<lparr>reputationEntries := es2\<rparr>)"
    using seen [of ag act "s\<lparr>reputationEntries := es\<rparr>"] by auto
  moreover obtain es3 where "updateSeenStatus cfg (paymaster op) act (s\<lparr>reputationEntries := es2\<rparr>)
      = (Inr (), s\<lparr>reputationEntries := es3\<rparr>)"
    using seen [of "paymaster op" act "s\<lparr>reputationEntries := es2\<rparr>"] by auto
  moreover obtain es4 where "updateSeenStatus cfg (factory op) act (s\<lparr>reputationEntries := es3\<rparr>)
      = (Inr (), s\<lparr>reputationEntries := es4\<rparr>)"
    using seen [of "factory op" act "s\<lparr>reputationEntries := es3\<rparr>"] by auto
  ultimately have "updateSeenStatusOp ag op cfg si act s = (Inr (), s\<lparr>reputationEntries := es4\<rparr>)"
    by (simp add: updateSeenStatusOp_def andThen_def)
  then show ?thesis by blast
qed

lemma updateSeenStatusOp_again:
  assumes "rm_verify cfg (rm_stateCapability cfg)"
  shows "\<exists>es. updateSeenStatusOp ag op cfg si act (s\<lparr>reputationEntries := fs\<rparr>)
    = (Inr (), s\<lparr>reputationEntries := es\<rparr>)"
  using updateSeenStatusOp_total [OF assms, of ag op si act "s\<lparr>reputationEntries := fs\<rparr>"] by simp

text \<open>A commit always succeeds; it stores the pool and the counters, and counts the operations seen.\<close>

lemma addUserOp_commit_run:
  assumes "mp_verify cfg (mp_stateCapability cfg)"
    and "rm_verify (mp_reputation cfg) (rm_stateCapability (mp_reputation cfg))"
  shows "\<exists>es. addUserOp_commit cfg r (Right em) s =
    (Inr (Right (rl_userOpHash r)),
     s\<lparr>standardPool := fst (doUpdateMempoolState em (standardPool s) (mempoolEntryCount s)),
       mempoolEntryCount := snd (doUpdateMempoolState em (standardPool s) (mempoolEntryCount s)),
       reputationEntries := es\<rparr>)"
proof -
  obtain t where t: "updatePoolAndCount cfg (doUpdateMempoolState em) s = (Inr True, t)"
    and t_eq: "t = s\<lparr>standardPool := fst (doUpdateMempoolState em (standardPool s) (mempoolEntryCount s)),
       mempoolEntryCount := snd (doUpdateMempoolState em (standardPool s) (mempoolEntryCount s))\<rparr>"
    using updatePoolAndCount_run [OF assms(1)] by blast
  have "\<exists>es. (case md_oldEntry (snd em) of
              None \<Rightarrow> ret ()
            | Some old \<Rightarrow> updateSeenStatusOp (me_aggregator old) (me_userOp old) (mp_reputation cfg)
                            (rl_senderInfo r) decrement) t = (Inr (), t\<lparr>reputationEntries := es\<rparr>)"
  proof (cases "md_oldEntry (snd em)")
    case None
    have "t = t\<lparr>reputationEntries := reputationEntries t\<rparr>" by simp
    with None show ?thesis unfolding None option.case ret_apply by blast
  next
    case (Some old)
    show ?thesis unfolding Some option.case by (rule updateSeenStatusOp_total [OF assms(2)])
  qed
  then obtain es where old: "(case md_oldEntry (snd em) of
              None \<Rightarrow> ret ()
            | Some old \<Rightarrow> updateSeenStatusOp (me_aggregator old) (me_userOp old) (mp_reputation cfg)
                            (rl_senderInfo r) decrement) t = (Inr (), t\<lparr>reputationEntries := es\<rparr>)" ..
  from updateSeenStatusOp_again [OF assms(2)]
  obtain es' where new: "updateSeenStatusOp (map_option si_addr (rl_aggregatorInfo r)) (rl_userOp r)
        (mp_reputation cfg) (rl_senderInfo r) increment (t\<lparr>reputationEntries := es\<rparr>)
      = (Inr (), t\<lparr>reputationEntries := es'\<rparr>)" ..
  have "addUserOp_commit cfg r (Right em) s = (Inr (Right (rl_userOpHash r)), t\<lparr>reputationEntries := es'\<rparr>)"
    unfolding addUserOp_commit_def foldAsync_simps
    by (simp only: andThen_def t old new prod.case sum.case ret_apply)
  then show ?thesis unfolding t_eq by blast
qed

end
