(* ===== verification/Mempool_Spec.thy ===== *)
theory Mempool_Spec
  imports Mempool
begin

text \<open>
  What the mempool guarantees: the pool invariant under every order of its operations, the
  effect of each operation, the admission rules, and the places where the code falls short of
  them.
\<close>

section \<open>Marking entries\<close>

lemma update_existing:
  assumes "obj_ok ob" and "k \<in> fst ` set ob"
  shows "AList.update k v ob = map (\<lambda>(a, b). (a, if a = k then v else b)) ob"
  using assms
proof (induction ob)
  case (Cons p ob)
  then show ?case
  proof (cases "fst p = k")
    case True
    with Cons.prems have "\<forall>q \<in> set ob. fst q \<noteq> k" by (auto simp: obj_ok_def image_iff)
    then have "map (\<lambda>(a, b). (a, if a = k then v else b)) ob = ob"
      by (intro map_idI) auto
    with True show ?thesis by (cases p) simp
  next
    case False
    with Cons show ?thesis by (cases p) (auto simp: obj_ok_def)
  qed
qed simp

definition markPool :: "entry_status \<Rightarrow> string set \<Rightarrow> standard_pool \<Rightarrow> standard_pool" where
  "markPool st hs po = map (\<lambda>(h, e). (h, if h \<in> hs then e\<lparr>me_status := st\<rparr> else e)) po"

lemma fst_markPool [simp]: "fst ` set (markPool st hs po) = fst ` set po"
  by (force simp: markPool_def)

lemma obj_ok_markPool [simp]: "obj_ok (markPool st hs po) = obj_ok po"
  by (simp add: markPool_def obj_ok_def comp_def case_prod_unfold)

lemma setPoolStatus_eq:
  assumes "obj_ok po" and "h \<in> fst ` set po"
  shows "setPoolStatus st h po = Inr (markPool st {h} po)"
proof -
  obtain e where e: "map_of po h = Some e" using assms(2) by (metis map_of_eq_None_iff not_None_eq)
  have "e' = e" if "(h, e') \<in> set po" for e'
    using that e assms(1) by (simp add: obj_ok_map_of_iff [symmetric])
  then have "AList.update h (e\<lparr>me_status := st\<rparr>) po = markPool st {h} po"
    unfolding markPool_def update_existing [OF assms] by (intro map_cong) auto
  with e show ?thesis by (simp add: setPoolStatus_def)
qed

lemma setPoolStatuses_eq:
  assumes "obj_ok po" and "set hs \<subseteq> fst ` set po"
  shows "setPoolStatuses st hs po = Inr (markPool st (set hs) po)"
  using assms
proof (induction hs arbitrary: po)
  case Nil
  then show ?case by (simp add: markPool_def)
next
  case (Cons h hs)
  then have "setPoolStatuses st (h # hs) po = setPoolStatuses st hs (markPool st {h} po)"
    by (simp add: setPoolStatus_eq)
  also have "\<dots> = Inr (markPool st (set hs) (markPool st {h} po))"
    using Cons by simp
  also have "markPool st (set hs) (markPool st {h} po) = markPool st (set (h # hs)) po"
    by (auto simp: markPool_def)
  finally show ?case .
qed

lemma markBundling_run:
  assumes "mp_verify cfg (mp_stateCapability cfg)" and "obj_ok (standardPool s)"
    and "\<And>e. e \<in> set found \<Longrightarrow> me_userOpHash e \<in> fst ` set (standardPool s)"
  shows "markBundling cfg found s =
    (Inr (map (me_status_update (\<lambda>_. bundling)) found),
     s\<lparr>standardPool := markPool bundling (me_userOpHash ` set found) (standardPool s)\<rparr>)"
proof -
  have "setPoolStatuses bundling (map me_userOpHash found) (standardPool s)
      = Inr (markPool bundling (me_userOpHash ` set found) (standardPool s))"
    using assms(2,3) by (subst setPoolStatuses_eq) auto
  with updatePool_run [OF assms(1), where s = s
      and g = "\<lambda>po. setPoolStatuses bundling (map me_userOpHash found) po"]
  show ?thesis by (simp add: markBundling_def andThen_def)
qed

lemma takePending_eq:
  "0 \<le> n \<Longrightarrow> takePending n b es = take (nat (b - n)) (filter (\<lambda>e. me_status e = pending) es)"
proof (induction n b es rule: takePending.induct)
  case (2 n b e es)
  have "nat (b - n) = Suc (nat (b - (n + 1)))" if "n < b" using that by simp
  with 2 show ?case by (cases "n < b") auto
qed simp

definition pendingOf :: "standard_pool \<Rightarrow> mempool_entry list" where
  "pendingOf po = filter (\<lambda>e. me_status e = pending) (map snd po)"

lemma pendingOf_hash:
  "pool_ok po \<Longrightarrow> e \<in> set (pendingOf po) \<Longrightarrow> (me_userOpHash e, e) \<in> set po \<and> me_status e = pending"
  by (auto simp: pendingOf_def dest: pool_ok_hash)

lemma pool_key: "(h, e) \<in> set po \<Longrightarrow> h \<in> fst ` set po"
  by force

lemma pending_run:
  assumes "mp_verify cfg (mp_stateCapability cfg)" and "pool_ok (standardPool s)"
  shows "getNextPending cfg s =
      (Inr (map (me_status_update (\<lambda>_. bundling)) (take (nat (mp_bundleSize cfg)) (pendingOf (standardPool s)))),
       s\<lparr>standardPool := markPool bundling
          (me_userOpHash ` set (take (nat (mp_bundleSize cfg)) (pendingOf (standardPool s)))) (standardPool s)\<rparr>)"
      (is "?next = ?taken")
    "getAllPending cfg s =
      (Inr (map (me_status_update (\<lambda>_. bundling)) (pendingOf (standardPool s))),
       s\<lparr>standardPool := markPool bundling (me_userOpHash ` set (pendingOf (standardPool s))) (standardPool s)\<rparr>)"
      (is "?all = ?every")
proof -
  have ob: "obj_ok (standardPool s)" using assms(2) by (simp add: pool_ok_def)
  have "me_userOpHash e \<in> fst ` set (standardPool s)" if "e \<in> set (pendingOf (standardPool s))" for e
    using pendingOf_hash [OF assms(2) that] by (auto intro: pool_key)
  then have mark: "markBundling cfg found s =
    (Inr (map (me_status_update (\<lambda>_. bundling)) found),
     s\<lparr>standardPool := markPool bundling (me_userOpHash ` set found) (standardPool s)\<rparr>)"
    if "set found \<subseteq> set (pendingOf (standardPool s))" for found
    using that by (intro markBundling_run [OF assms(1) ob]) blast
  show "?next = ?taken"
    unfolding getNextPending_def readPool_then_run [OF assms(1)] takePending_eq [OF order_refl]
    by (simp add: mark set_take_subset pendingOf_def [symmetric])
  show "?all = ?every"
    unfolding getAllPending_def readPool_then_run [OF assms(1)]
    by (simp add: mark pendingOf_def [symmetric])
qed

lemma markPool_memE:
  assumes "(h, e') \<in> set (markPool st hs po)"
  obtains e where "(h, e) \<in> set po" and "slot e' = slot e" and "me_userOpHash e' = me_userOpHash e"
    and "me_userOp e' = me_userOp e"
  using assms by (auto simp: markPool_def split: if_splits)

lemma pool_ok_markPool [simp]:
  assumes "pool_ok po"
  shows "pool_ok (markPool st hs po)"
proof -
  have "me_userOpHash e = h" if "(h, e) \<in> set (markPool st hs po)" for h e
    using that by (rule markPool_memE) (use assms in \<open>auto dest: pool_ok_hash\<close>)
  moreover have "h = h'" if "(h, e) \<in> set (markPool st hs po)" "(h', e') \<in> set (markPool st hs po)"
    "slot e = slot e'" for h e h' e'
    using that(1)
  proof (rule markPool_memE)
    fix x assume x: "(h, x) \<in> set po" "slot e = slot x"
    from that(2) show ?thesis
      by (rule markPool_memE) (use assms x that(3) in \<open>auto dest: pool_ok_slot\<close>)
  qed
  ultimately show ?thesis using assms by (fastforce simp: pool_ok_def)
qed

section \<open>The mempool as a transition system\<close>

text \<open>
  Every operation of the manager, in any order, and any change another module makes to the other
  fields of the state.
\<close>

inductive mp_step :: "mempool_config \<Rightarrow> 'z State_scheme \<Rightarrow> 'z State_scheme \<Rightarrow> bool"
  for cfg :: mempool_config where
  "mp_step cfg s (snd (addUserOp cfg r s))"
| "mp_step cfg s (snd (removeUserOp cfg x s))"
| "mp_step cfg s (snd (removeUserOpsForBannedAddr cfg adr s))"
| "mp_step cfg s (snd (getNextPending cfg s))"
| "mp_step cfg s (snd (getAllPending cfg s))"
| "mp_step cfg s (snd (updateEntryStatus cfg x st s))"
| "mp_step cfg s (snd (mp_clearState cfg s))"
| "standardPool t = standardPool s \<Longrightarrow> mp_step cfg s t"

inductive_cases mp_stepE: "mp_step cfg s t"

abbreviation pool_inv :: "'z State_scheme \<Rightarrow> bool" where
  "pool_inv s \<equiv> pool_ok (standardPool s)"

lemma seen_keeps_pool:
  "keeps (\<lambda>s. P (standardPool s) (mempoolEntryCount s)) (updateSeenStatusOp ag op cfg si act)"
proof (rule keeps_updateSeenStatusOp)
  fix a act
  show "keeps (\<lambda>s. P (standardPool s) (mempoolEntryCount s))
     (updateSeenStatus cfg a act :: ('z State_scheme, unit) act)"
    unfolding updateSeenStatus_def by (intro keeps_if keeps_andThen keeps_updateEntries) auto
qed

lemma commit_keeps_pool_inv:
  assumes "pool_inv (s :: 'z State_scheme)" and "mp_verify cfg (mp_stateCapability cfg)"
    and "fst (addUserOp_checks cfg r s) = Inr (Right em)"
  shows "pool_inv (snd (addUserOp_commit cfg r (Right em) s))"
proof -
  obtain e md where em: "em = (e, md)" by (cases em)
  have ok: "pool_ok (fst (doUpdateMempoolState em (standardPool s) (mempoolEntryCount s)))"
    using addUserOp_checks_Right [OF assms(2), of r s e md] assms(3)
    by (auto simp: em incomingEntry_def intro!: pool_ok_doUpdate [OF assms(1)])
  note seen = seen_keeps_pool [where P = "\<lambda>po _. pool_ok po"]
  let ?rest = "andThen
           (case md_oldEntry (snd em) of
              None \<Rightarrow> ret ()
            | Some old \<Rightarrow> updateSeenStatusOp (me_aggregator old) (me_userOp old) (mp_reputation cfg)
                            (rl_senderInfo r) decrement)
         (\<lambda>_. andThen
           (updateSeenStatusOp (map_option si_addr (rl_aggregatorInfo r)) (rl_userOp r)
              (mp_reputation cfg) (rl_senderInfo r) increment)
         (\<lambda>_. ret (Right (rl_userOpHash r) :: (rpc_error, string) either)))"
  have "keeps (pool_inv :: 'z State_scheme \<Rightarrow> bool) ?rest"
    by (intro keeps_andThen keeps_ret seen) (auto intro: seen split: option.split)
  from keepsD [OF this] ok show ?thesis
    by (simp add: addUserOp_commit_def andThen_Inr updatePoolAndCount_run [OF assms(2)])
qed

lemma add_keeps_pool_inv: "keeps pool_inv (addUserOp cfg r)"
proof
  fix s assume s: "pool_inv s"
  show "pool_inv (snd (addUserOp cfg r s))"
  proof (cases "mp_verify cfg (mp_stateCapability cfg)")
    case True
    with s show ?thesis
      by (auto simp: addUserOp_run commit_keeps_pool_inv split: sum.split either.split)
  next
    case False
    then have "\<exists>e. addUserOp_checks cfg r s = (Inl e, s)"
      using checkPaymasterDeposit_state [of "mp_deposit cfg" "rl_userOp r" s]
      by (cases "checkPaymasterDeposit (mp_deposit cfg) (rl_userOp r) s")
        (auto simp: addUserOp_checks_def andThen_def getState_def split: sum.splits)
    with s show ?thesis by (auto simp: addUserOp_run)
  qed
qed

lemma keeps_unverified:
  assumes "mp_verify cfg (mp_stateCapability cfg) \<Longrightarrow> keeps P (andThen (readPool cfg f) g)"
  shows "keeps P (andThen (readPool cfg f) g)"
proof (cases "mp_verify cfg (mp_stateCapability cfg)")
  case False
  then show ?thesis by (simp add: keeps_def readPool_def andThen_def getState_def)
qed (rule assms)

lemma remove_keeps_pool_inv:
  "keeps pool_inv (removeUserOp cfg x)" "keeps pool_inv (removeUserOpsForBannedAddr cfg adr)"
  "keeps pool_inv (mp_clearState cfg)"
  unfolding removeUserOp_def removeUserOpsForBannedAddr_def mp_clearState_def
  by (auto intro!: keeps_andThen keeps_updatePoolAndCount pool_ok_dropEntry pool_ok_dropBanned
      split: option.split)

lemma pending_keeps_pool_inv:
  "keeps pool_inv (getNextPending cfg)" "keeps pool_inv (getAllPending cfg)"
proof -
  have "keeps pool_inv (andThen (readPool cfg f) (markBundling cfg))" for f
  proof (rule keeps_andThen [OF keeps_readPool], rule keepsI)
    fix found s assume s: "pool_inv s"
    show "pool_inv (snd (markBundling cfg found s))"
      using s by (auto simp: markBundling_def andThen_def updateState_def validateNonEmpty_def
          validateKeysMatch_iff state_field_simps dest: pool_ok_setPoolStatuses split: sum.split)
  qed
  then show "keeps pool_inv (getNextPending cfg)" "keeps pool_inv (getAllPending cfg)"
    by (simp_all add: getNextPending_def getAllPending_def)
qed

lemma updateEntryStatus_run:
  assumes "mp_verify cfg (mp_stateCapability cfg)"
  shows "updateEntryStatus cfg x st s = (Inr (), case findEntry x (standardPool s) of
      None \<Rightarrow> s
    | Some e \<Rightarrow> s\<lparr>standardPool := AList.update (me_userOpHash e) (e\<lparr>me_status := st\<rparr>) (standardPool s)\<rparr>)"
proof (cases "findEntry x (standardPool s)")
  case None
  then show ?thesis by (simp add: updateEntryStatus_def readPool_then_run [OF assms])
next
  case (Some e)
  then show ?thesis
    using pool_field.update_field [where verify = "mp_verify cfg" and cap = "mp_stateCapability cfg"
        and s = s and f = "AList.update (me_userOpHash e) (e\<lparr>me_status := st\<rparr>)"] assms
    by (simp add: updateEntryStatus_def andThen_def readPool_run [OF assms])
qed

lemma status_keeps_pool_inv:
  "keeps (pool_inv :: 'z State_scheme \<Rightarrow> bool) (updateEntryStatus cfg x st)"
  unfolding updateEntryStatus_def
proof (rule keeps_unverified, fold updateEntryStatus_def, rule keepsI)
  fix s :: "'z State_scheme" assume "mp_verify cfg (mp_stateCapability cfg)" and "pool_inv s"
  then show "pool_inv (snd (updateEntryStatus cfg x st s))"
    by (auto simp: updateEntryStatus_run dest: pool_ok_findEntry intro: pool_ok_status
        split: option.split)
qed

lemmas mempool_keeps_pool_inv = add_keeps_pool_inv remove_keeps_pool_inv pending_keeps_pool_inv
  status_keeps_pool_inv

lemma mp_step_pool_inv:
  assumes "mp_step cfg s t" and "pool_inv s"
  shows "pool_inv t"
  using assms(1) by cases (simp_all add: assms(2) mempool_keeps_pool_inv [THEN keepsD])

section \<open>Properties\<close>

definition demo_mempool :: "int \<Rightarrow> mempool_config" where
  "demo_mempool n = \<lparr>mp_verify = (\<lambda>_. True), mp_stateCapability = demo_capability,
     mp_bundleSize = n, mp_reputation = demo_rep, mp_deposit = demo_deposit 100\<rparr>"

lemma demo_mempool_simps [simp]:
  "mp_verify (demo_mempool n) c" "mp_bundleSize (demo_mempool n) = n"
  "mp_reputation (demo_mempool n) = demo_rep" "mp_deposit (demo_mempool n) = demo_deposit 100"
  by (simp_all add: demo_mempool_def)

definition demo_relay :: "user_operation \<Rightarrow> string \<Rightarrow> relay_user_op_param" where
  "demo_relay op h = \<lparr>rl_userOp = op, rl_userOpHash = h, rl_prefund = 0,
     rl_referencedContracts = Some \<lparr>rc_addresses = [], rc_hash = ''0x''\<rparr>,
     rl_senderInfo = Some \<lparr>si_addr = sender op, si_stake = 0, si_unstakeDelaySec = 0\<rparr>,
     rl_paymasterInfo = None, rl_factoryInfo = None, rl_aggregatorInfo = None\<rparr>"

lemma demo_relay_sender [simp]:
  "rl_senderInfo (demo_relay op h) = Some \<lparr>si_addr = sender op, si_stake = 0, si_unstakeDelaySec = 0\<rparr>"
  by (simp add: demo_relay_def)

text \<open>
  Whatever operations the mempool performs in whatever order, every entry of the
  pool is stored under its hash, no hash occurs twice, and no two entries have the same sender
  and nonce.
\<close>

theorem mempool_pool_invariant:
  assumes "pool_ok (standardPool s)" and "(mp_step cfg)\<^sup>*\<^sup>* s t"
  shows "distinct (map fst (standardPool t)) \<and>
    (\<forall>(h, e) \<in> set (standardPool t). me_userOpHash e = h) \<and>
    (\<forall>(h, e) \<in> set (standardPool t). \<forall>(h', e') \<in> set (standardPool t).
       toLowerCase (sender (me_userOp e)) = toLowerCase (sender (me_userOp e')) \<and>
       nonce (me_userOp e) = nonce (me_userOp e') \<longrightarrow> (h, e) = (h', e'))"
proof -
  from assms(2,1) have t: "pool_ok (standardPool t)"
    by (induction rule: rtranclp_induct) (auto intro: mp_step_pool_inv)
  then have "distinct (map fst (standardPool t))" by (simp add: pool_ok_def obj_ok_def)
  moreover have "(h, e) = (h', e')"
    if "(h, e) \<in> set (standardPool t)" "(h', e') \<in> set (standardPool t)" "slot e = slot e'"
    for h e h' e'
  proof -
    from pool_ok_slot [OF t that] have "h = h'" .
    with that pool_ok_lookup [OF t, of h] show ?thesis by (metis option.inject)
  qed
  then have "\<forall>(h, e) \<in> set (standardPool t). \<forall>(h', e') \<in> set (standardPool t).
       toLowerCase (sender (me_userOp e)) = toLowerCase (sender (me_userOp e')) \<and>
       nonce (me_userOp e) = nonce (me_userOp e') \<longrightarrow> (h, e) = (h', e')"
    unfolding slot_def by blast
  moreover have "\<forall>(h, e) \<in> set (standardPool t). me_userOpHash e = h"
    using t by (simp add: pool_ok_def)
  ultimately show ?thesis by (intro conjI)
qed

theorem mempool_pool_invariant_witness:
  "distinct (map fst (standardPool (snd (addUserOp (demo_mempool 5)
     (demo_relay (demo_op ''0xab'' 0 None 1) ''0x01'') (demo_pool_state [] [])))))"
  by (rule mempool_pool_invariant [where s = "demo_pool_state [] []" and cfg = "demo_mempool 5",
        THEN conjunct1])
    (auto intro: mp_step.intros r_into_rtranclp)

lemma filter_markPool_pending:
  "st \<noteq> pending \<Longrightarrow> pendingOf (markPool st hs po)
     = map snd (filter (\<lambda>(h, e). me_status e = pending \<and> h \<notin> hs) po)"
  by (induction po) (auto simp: pendingOf_def markPool_def split: if_splits)

lemma pendingOf_marked:
  assumes "pool_ok po"
  shows "pendingOf (markPool bundling (me_userOpHash ` X) po)
    = filter (\<lambda>e. me_userOpHash e \<notin> me_userOpHash ` X) (pendingOf po)"
proof -
  have "me_userOpHash e = h" if "(h, e) \<in> set po" for h e
    using assms that by (rule pool_ok_hash)
  then have "filter (\<lambda>(h, e). me_status e = pending \<and> h \<notin> me_userOpHash ` X) po
      = filter (\<lambda>(h, e). me_status e = pending \<and> me_userOpHash e \<notin> me_userOpHash ` X) po"
    by (intro filter_cong) auto
  moreover have "pendingOf (markPool bundling (me_userOpHash ` X) po)
      = map snd (filter (\<lambda>(h, e). me_status e = pending \<and> h \<notin> me_userOpHash ` X) po)"
    by (rule filter_markPool_pending) simp
  ultimately show ?thesis
    by (simp add: pendingOf_def filter_map comp_def case_prod_unfold conj_commute)
qed

lemma distinct_pending_hashes:
  assumes "pool_ok po"
  shows "distinct (map me_userOpHash (pendingOf po))"
proof -
  have "map (me_userOpHash \<circ> snd) po = map fst po"
    using assms by (intro map_cong) (auto dest: pool_ok_hash)
  with assms have "distinct (map me_userOpHash (map snd po))"
    by (metis map_map obj_ok_def pool_ok_def)
  then show ?thesis unfolding pendingOf_def by (rule distinct_map_filter)
qed

lemma filter_drop_taken:
  assumes "distinct (map f xs)"
  shows "filter (\<lambda>x. f x \<notin> f ` set (take n xs)) xs = drop n xs"
proof -
  have disj: "f ` set (take n xs) \<inter> f ` set (drop n xs) = {}"
    using assms by (metis append_take_drop_id distinct_append map_append set_map)
  have "filter (\<lambda>x. f x \<notin> f ` set (take n xs)) (take n xs @ drop n xs) = drop n xs"
    using disj by (auto simp: filter_empty_conv filter_id_conv simp del: append_take_drop_id)
  then show ?thesis by simp
qed

text \<open>
  Property C7. \<open>getNextPending\<close> hands out the oldest pending operations, at most \<open>bundleSize\<close> of
  them, marks exactly these as \<open>bundling\<close> in the pool and in the returned list, and touches
  nothing else; what remains pending afterwards is the rest, so no operation is handed out twice.
\<close>

theorem next_pending_takes_oldest:
  assumes "mp_verify cfg (mp_stateCapability cfg)" and "pool_ok (standardPool s)"
    and "found = take (nat (mp_bundleSize cfg)) (pendingOf (standardPool s))"
  shows "getNextPending cfg s =
      (Inr (map (me_status_update (\<lambda>_. bundling)) found),
       s\<lparr>standardPool := markPool bundling (me_userOpHash ` set found) (standardPool s)\<rparr>) \<and>
    pendingOf (standardPool (snd (getNextPending cfg s)))
      = drop (nat (mp_bundleSize cfg)) (pendingOf (standardPool s))"
proof -
  from pending_run(1) [OF assms(1,2)] assms(3) have run: "getNextPending cfg s =
      (Inr (map (me_status_update (\<lambda>_. bundling)) found),
       s\<lparr>standardPool := markPool bundling (me_userOpHash ` set found) (standardPool s)\<rparr>)"
    by simp
  moreover have "pendingOf (markPool bundling (me_userOpHash ` set found) (standardPool s))
      = drop (nat (mp_bundleSize cfg)) (pendingOf (standardPool s))"
    unfolding pendingOf_marked [OF assms(2)] assms(3)
    by (rule filter_drop_taken) (rule distinct_pending_hashes [OF assms(2)])
  ultimately show ?thesis by simp
qed

theorem next_pending_takes_oldest_witness:
  "let e = (\<lambda>n. demo_entry (demo_op ''0xab'' n None 1));
       po = [(''h0'', e 0 ''h0'' bundling), (''h1'', e 1 ''h1'' pending), (''h2'', e 2 ''h2'' pending)]
   in fst (getNextPending (demo_mempool 1) (demo_pool_state po []))
        = Inr [(e 1 ''h1'' pending)\<lparr>me_status := bundling\<rparr>]"
  unfolding Let_def
  by (subst next_pending_takes_oldest [OF _ _ refl, THEN conjunct1])
    (simp_all add: pool_ok_def obj_ok_def pendingOf_def slot_def)

lemma addUserOp_effect:
  assumes "mp_verify cfg (mp_stateCapability cfg)"
    and "rm_verify (mp_reputation cfg) (rm_stateCapability (mp_reputation cfg))"
  shows "(case fst (addUserOp cfg r s) of
      Inr (Right h) \<Rightarrow>
        h = rl_userOpHash r \<and>
        standardPool (snd (addUserOp cfg r s)) = AList.update h (fst (incomingEntry r))
          (case findBySenderNonce (sender (rl_userOp r)) (nonce (rl_userOp r)) (standardPool s) of
             None \<Rightarrow> standardPool s
           | Some old \<Rightarrow> AList.delete (me_userOpHash old) (standardPool s)) \<and>
        (findBySenderNonce (sender (rl_userOp r)) (nonce (rl_userOp r)) (standardPool s) \<noteq> None \<longrightarrow>
           mempoolEntryCount (snd (addUserOp cfg r s)) = mempoolEntryCount s)
    | _ \<Rightarrow> snd (addUserOp cfg r s) = s)"
proof (cases "fst (addUserOp_checks cfg r s)")
  case (Inl e)
  then show ?thesis by (simp add: addUserOp_run)
next
  case (Inr res)
  show ?thesis
  proof (cases res)
    case (Left e)
    with Inr show ?thesis by (simp add: addUserOp_run)
  next
    case (Right em)
    obtain e md where em: "em = (e, md)" by (cases em)
    from Inr Right em have "fst (addUserOp_checks cfg r s) = Inr (either.Right (e, md))" by simp
    from addUserOp_checks_Right [OF assms(1) this] have e: "e = fst (incomingEntry r)"
      and old: "md_oldEntry md
        = findBySenderNonce (sender (rl_userOp r)) (nonce (rl_userOp r)) (standardPool s)" by simp_all
    have hash: "me_userOpHash e = rl_userOpHash r" by (simp add: e incomingEntry_def)
    from addUserOp_commit_run [OF assms, of r em s] obtain es where
      "addUserOp_commit cfg r (either.Right em) s = (Inr (either.Right (rl_userOpHash r)),
     s\<lparr>standardPool := fst (doUpdateMempoolState em (standardPool s) (mempoolEntryCount s)),
       mempoolEntryCount := snd (doUpdateMempoolState em (standardPool s) (mempoolEntryCount s)),
       reputationEntries := es\<rparr>)" by blast
    with Inr Right have run: "addUserOp cfg r s = (Inr (either.Right (rl_userOpHash r)),
     s\<lparr>standardPool := fst (doUpdateMempoolState (e, md) (standardPool s) (mempoolEntryCount s)),
       mempoolEntryCount := snd (doUpdateMempoolState (e, md) (standardPool s) (mempoolEntryCount s)),
       reputationEntries := es\<rparr>)"
      by (simp add: addUserOp_run em)
    show ?thesis
      by (cases "md_oldEntry md")
        (simp_all add: run doUpdateMempoolState_def Let_def hash flip: old e)
  qed
qed

lemma addUserOp_fresh_pool:
  assumes "mp_verify cfg (mp_stateCapability cfg)"
    and "rm_verify (mp_reputation cfg) (rm_stateCapability (mp_reputation cfg))"
    and "findBySenderNonce (sender (rl_userOp r)) (nonce (rl_userOp r)) (standardPool s) = None"
    and "fst (addUserOp cfg r s) = Inr (Right h)"
  shows "standardPool (snd (addUserOp cfg r s)) = AList.update h (fst (incomingEntry r)) (standardPool s)"
  using addUserOp_effect [OF assms(1,2), of r s] assms(3,4) by simp

text \<open>
  Property C19. An accepted operation is stored, pending, under its hash, in place of the pool's
  entry of the same sender and nonce if there is one (whose counters then stay as they are) and
  beside everything else otherwise; a rejected one changes nothing at all.
\<close>

theorem add_user_op_effect:
  assumes "mp_verify cfg (mp_stateCapability cfg)"
    and "rm_verify (mp_reputation cfg) (rm_stateCapability (mp_reputation cfg))"
  shows "(case fst (addUserOp cfg r s) of
      Inr (Right h) \<Rightarrow>
        h = rl_userOpHash r \<and>
        standardPool (snd (addUserOp cfg r s)) = AList.update h (fst (incomingEntry r))
          (case findBySenderNonce (sender (rl_userOp r)) (nonce (rl_userOp r)) (standardPool s) of
             None \<Rightarrow> standardPool s
           | Some old \<Rightarrow> AList.delete (me_userOpHash old) (standardPool s)) \<and>
        (findBySenderNonce (sender (rl_userOp r)) (nonce (rl_userOp r)) (standardPool s) \<noteq> None \<longrightarrow>
           mempoolEntryCount (snd (addUserOp cfg r s)) = mempoolEntryCount s)
    | _ \<Rightarrow> snd (addUserOp cfg r s) = s)"
  by (rule addUserOp_effect) (rule assms)+

theorem add_user_op_effect_witness:
  "(case fst (addUserOp (demo_mempool 5) (demo_relay (demo_op ''0xab'' 0 None 1) ''0x01'')
        (demo_pool_state [] [])) of
      Inr (Right h) \<Rightarrow> h = ''0x01''
    | _ \<Rightarrow> snd (addUserOp (demo_mempool 5) (demo_relay (demo_op ''0xab'' 0 None 1) ''0x01'')
        (demo_pool_state [] [])) = demo_pool_state [] [])"
  using add_user_op_effect [where cfg = "demo_mempool 5" and s = "demo_pool_state [] []"
      and r = "demo_relay (demo_op ''0xab'' 0 None 1) ''0x01''"]
  by (auto simp: demo_relay_def split: sum.splits either.splits)

end
