(* ===== verification/Mempool_Rules.thy ===== *)
theory Mempool_Rules
  imports Mempool_Spec
begin

text \<open>
  The mempool's admission rules: reputation and stake, roles of addresses, the fee bump of a
  replacement, and the counters. Each is stated as the code has it; where a rule is broken by a
  path of the code, the theorem shows that path.
\<close>

section \<open>Admission by reputation\<close>

lemma getStatus_state [simp]: "snd (getStatus cfg a s) = s"
  by (rule keeps_same) simp

text \<open>What the reputation of an entity must be, with the limit on its pooled operations.\<close>

definition admitted :: "reputation_config \<Rightarrow> 'z State_scheme \<Rightarrow> stake_info \<Rightarrow> int \<Rightarrow> bool" where
  "admitted cfg s i limit \<longleftrightarrow>
     statusIn s (Some (si_addr i)) \<noteq> BANNED \<and>
     (let n = countOf (mempoolEntryCount s) (toLowerCase (si_addr i)) in
        (n > 4 \<longrightarrow> statusIn s (Some (si_addr i)) \<noteq> THROTTLED) \<and>
        (n \<ge> limit \<longrightarrow> rm_minStake cfg \<le> si_stake i \<and> rm_minUnstakeDelay cfg \<le> si_unstakeDelaySec i))"

lemma checkBanned_run:
  assumes "rm_verify cfg (rm_stateCapability cfg)"
  shows "checkBanned cfg t i s = requireCondData (statusIn s (Some (si_addr i)) \<noteq> BANNED)
      (t @ '' '' @ si_addr i @ '' is banned'') Reputation_error (Obj [(t, Str (si_addr i))]) s"
    and "checkThrottled cfg t i s = requireCondData (statusIn s (Some (si_addr i)) \<noteq> THROTTLED)
      (t @ '' '' @ si_addr i @ '' is throttled'') Reputation_error (Obj [(t, Str (si_addr i))]) s"
  using assms by (simp_all add: checkBanned_def checkThrottled_def andThen_def getStatus_run)

lemma checkStake_Inr:
  assumes "rm_verify cfg (rm_stateCapability cfg)" and "checkStake cfg t (Some i) s = (Inr (), s')"
  shows "rm_minStake cfg \<le> si_stake i \<and> rm_minUnstakeDelay cfg \<le> si_unstakeDelaySec i \<and> s' = s"
  using assms
  by (auto simp: checkStake_def andThen_def getStatus_run requireCond_def requireCondData_def
      split: if_splits)

lemma requireCondData_Inr: "requireCondData c m code d s = (Inr (), s') \<longleftrightarrow> c \<and> s' = s"
  by (auto simp: requireCondData_def)

lemma checkReputationStatus_Inr:
  assumes "rm_verify cfg (rm_stateCapability cfg)"
    and "checkReputationStatus cfg (mempoolEntryCount s) t i ov s = (Inr (), s')"
  shows "s' = s \<and> admitted cfg s i
     (case ov of Some n \<Rightarrow> n | None \<Rightarrow> maxAllowedOf (reputationEntries s) (si_addr i))"
proof -
  let ?limit = "case ov of Some n \<Rightarrow> n | None \<Rightarrow> maxAllowedOf (reputationEntries s) (si_addr i)"
  let ?n = "countOf (mempoolEntryCount s) (toLowerCase (si_addr i))"
  have limit: "(case ov of Some n \<Rightarrow> ret n
       | None \<Rightarrow> calculateMaxAllowedMempoolOpsUnstaked cfg (si_addr i)) s = (Inr ?limit, s)"
    using assms(1) by (cases ov) (simp_all add: calculateMaxAllowedMempoolOpsUnstaked_def andThen_def
        getState_def pickKeys_def noKeys_def)
  from assms(2) obtain l s0 u1 s1 u2 s2 where "(case ov of Some n \<Rightarrow> ret n
       | None \<Rightarrow> calculateMaxAllowedMempoolOpsUnstaked cfg (si_addr i)) s = (Inr l, s0)"
    and "checkBanned cfg t i s0 = (Inr u1, s1)"
    and "(if ?n > 4 then checkThrottled cfg t i else ret ()) s1 = (Inr u2, s2)"
    and "(if ?n \<ge> l then checkStake cfg t (Some i) else ret ()) s2 = (Inr (), s')"
    unfolding checkReputationStatus_def Let_def THROTTLED_ENTITY_MEMPOOL_COUNT_def
    by (elim andThen_InrE)
  with limit have 1: "checkBanned cfg t i s = (Inr (), s1)"
    and 2: "(if ?n > 4 then checkThrottled cfg t i else ret ()) s1 = (Inr (), s2)"
    and 3: "(if ?n \<ge> ?limit then checkStake cfg t (Some i) else ret ()) s2 = (Inr (), s')"
    by simp_all
  from 1 assms(1) have b: "s1 = s" "statusIn s (Some (si_addr i)) \<noteq> BANNED"
    by (simp_all add: checkBanned_run requireCondData_Inr)
  from 2 assms(1) have c: "s2 = s" "?n > 4 \<longrightarrow> statusIn s (Some (si_addr i)) \<noteq> THROTTLED"
    by (auto simp: b(1) checkBanned_run requireCondData_Inr split: if_splits)
  from 3 have "s' = s" "?n \<ge> ?limit \<longrightarrow>
      rm_minStake cfg \<le> si_stake i \<and> rm_minUnstakeDelay cfg \<le> si_unstakeDelaySec i"
    by (auto simp: c(1) dest: checkStake_Inr [OF assms(1)] split: if_splits)
  with b(2) c(2) show ?thesis by (simp add: admitted_def Let_def)
qed

lemma checkOptional_Inr:
  assumes "rm_verify cfg (rm_stateCapability cfg)"
    and "checkOptional cfg (mempoolEntryCount s) t io s = (Inr (), s')"
  shows "s' = s \<and> (\<forall>i. io = Some i \<longrightarrow> admitted cfg s i (maxAllowedOf (reputationEntries s) (si_addr i)))"
proof (cases io)
  case (Some i)
  with assms(2) have "checkReputationStatus cfg (mempoolEntryCount s) t i None s = (Inr (), s')"
    by (simp add: checkOptional_def)
  from checkReputationStatus_Inr [OF assms(1) this] Some show ?thesis by simp
qed (use assms(2) in \<open>simp add: checkOptional_def\<close>)

lemma checkReputation_Inr:
  assumes "rm_verify cfg (rm_stateCapability cfg)"
    and "checkReputation cfg (mempoolEntryCount s) md s = (Inr (), s')"
  shows "(case md_senderInfo md of None \<Rightarrow> False | Some i \<Rightarrow> admitted cfg s i 4) \<and>
    (\<forall>i. Some i \<in> {md_paymasterInfo md, md_factoryInfo md, md_aggregatorInfo md} \<longrightarrow>
       admitted cfg s i (maxAllowedOf (reputationEntries s) (si_addr i)))"
proof -
  from assms(2) obtain i s1 s2 s3 where
    i: "md_senderInfo md = Some i"
    and 1: "checkReputationStatus cfg (mempoolEntryCount s) ''account'' i (Some 4) s = (Inr (), s1)"
    and 2: "checkOptional cfg (mempoolEntryCount s) ''paymaster'' (md_paymasterInfo md) s1 = (Inr (), s2)"
    and 3: "checkOptional cfg (mempoolEntryCount s) ''deployer'' (md_factoryInfo md) s2 = (Inr (), s3)"
    and 4: "checkOptional cfg (mempoolEntryCount s) ''aggregator'' (md_aggregatorInfo md) s3 = (Inr (), s')"
    by (auto simp: checkReputation_def checkSender_def MAX_MEMPOOL_USEROPS_PER_SENDER_def elim!: andThen_InrE
        split: option.splits)
  note s = checkReputationStatus_Inr [OF assms(1) 1]
  then have s1: "s1 = s" by simp
  note p = checkOptional_Inr [OF assms(1) 2 [unfolded s1]]
  then have s2: "s2 = s" by simp
  note f = checkOptional_Inr [OF assms(1) 3 [unfolded s2]]
  then have s3: "s3 = s" by simp
  note a = checkOptional_Inr [OF assms(1) 4 [unfolded s3]]
  from s p f a i show ?thesis by auto
qed

lemma replaceOrAdd_fresh:
  assumes "replaceOrAddUserOpChecks cfg (mempoolEntryCount s) po (e, md) s = (Inr (Right em), s')"
    and "findBySenderNonce (sender (me_userOp e)) (nonce (me_userOp e)) po = None"
  shows "(\<exists>s''. checkReputation cfg (mempoolEntryCount s) md s = (Inr (), s'')) \<and>
    checkMultipleRolesViolation (e, md) (getKnownEntities po) (getKnownSenders po) = Right em"
  using assms by (auto simp: replaceOrAddUserOpChecks_def Let_def elim!: andThen_InrE)

lemma addUserOp_checks_run:
  assumes "mp_verify cfg (mp_stateCapability cfg)"
    and "fst (addUserOp_checks cfg r s) = Inr (Right em)"
  shows "\<exists>s'. replaceOrAddUserOpChecks (mp_reputation cfg) (mempoolEntryCount s) (standardPool s)
      (incomingEntry r) s = (Inr (Right em), s')"
  using assms checkPaymasterDeposit_state [of "mp_deposit cfg" "rl_userOp r" s]
  by (cases "checkPaymasterDeposit (mp_deposit cfg) (rl_userOp r) s")
    (auto simp: addUserOp_checks_def andThen_def getState_def pickKeys_def noKeys_def prod_eq_iff
      split: sum.splits)

lemma addUserOp_accepts:
  assumes "fst (addUserOp cfg r s) = Inr (Right h)"
  shows "\<exists>em. fst (addUserOp_checks cfg r s) = Inr (Right em)"
  using assms by (auto simp: addUserOp_run split: sum.splits either.splits)

lemma fresh_accepted:
  assumes "mp_verify cfg (mp_stateCapability cfg)"
    and "findBySenderNonce (sender (rl_userOp r)) (nonce (rl_userOp r)) (standardPool s) = None"
    and "fst (addUserOp cfg r s) = Inr (Right h)"
  shows "\<exists>s'. checkReputation (mp_reputation cfg) (mempoolEntryCount s) (snd (incomingEntry r)) s = (Inr (), s')"
    and "\<exists>em. checkMultipleRolesViolation (incomingEntry r) (getKnownEntities (standardPool s))
      (getKnownSenders (standardPool s)) = Right em"
proof -
  from addUserOp_accepts [OF assms(3)] obtain em where
    "fst (addUserOp_checks cfg r s) = Inr (Right em)" ..
  from addUserOp_checks_run [OF assms(1) this] obtain s' where
    "replaceOrAddUserOpChecks (mp_reputation cfg) (mempoolEntryCount s) (standardPool s)
      (incomingEntry r) s = (Inr (Right em), s')" ..
  moreover have "me_userOp (fst (incomingEntry r)) = rl_userOp r" by (simp add: incomingEntry_def)
  ultimately show "\<exists>s'. checkReputation (mp_reputation cfg) (mempoolEntryCount s) (snd (incomingEntry r)) s = (Inr (), s')"
    and "\<exists>em. checkMultipleRolesViolation (incomingEntry r) (getKnownEntities (standardPool s))
      (getKnownSenders (standardPool s)) = Right em"
    using replaceOrAdd_fresh [of _ s _ "fst (incomingEntry r)" "snd (incomingEntry r)" em s'] assms(2)
    by auto
qed

text \<open>
  Property C20. A new operation (one that replaces nothing) is accepted only if none of its
  entities is banned, none with more than four pooled operations is throttled, and every one at
  its limit (four for the sender, the reputation's allowance for the others) is staked.
\<close>

theorem admission_requires_reputation:
  assumes "mp_verify cfg (mp_stateCapability cfg)"
    and "rm_verify (mp_reputation cfg) (rm_stateCapability (mp_reputation cfg))"
    and "findBySenderNonce (sender (rl_userOp r)) (nonce (rl_userOp r)) (standardPool s) = None"
    and "fst (addUserOp cfg r s) = Inr (Right h)"
  shows "(case rl_senderInfo r of None \<Rightarrow> False | Some i \<Rightarrow> admitted (mp_reputation cfg) s i 4) \<and>
    (\<forall>i. Some i \<in> {rl_paymasterInfo r, rl_factoryInfo r, rl_aggregatorInfo r} \<longrightarrow>
       admitted (mp_reputation cfg) s i (maxAllowedOf (reputationEntries s) (si_addr i)))"
proof -
  from fresh_accepted(1) [OF assms(1,3,4)] obtain s' where
    "checkReputation (mp_reputation cfg) (mempoolEntryCount s) (snd (incomingEntry r)) s = (Inr (), s')" ..
  from checkReputation_Inr [OF assms(2) this] show ?thesis by (simp add: incomingEntry_def)
qed

text \<open>An operation of an unknown sender without other entities passes on an empty pool.\<close>

lemmas checks_eval = addUserOp_checks_def checkPaymasterDeposit_def has_paymaster_def andThen_def
  getState_def pickKeys_def noKeys_def replaceOrAddUserOpChecks_def Let_def
  checkReputation_def checkSender_def checkReputationStatus_def checkOptional_def checkBanned_run
  requireCondData_def statusOf_def countOf_def MAX_MEMPOOL_USEROPS_PER_SENDER_def
  THROTTLED_ENTITY_MEMPOOL_COUNT_def checkMultipleRolesViolation_def lower_or_empty_def
  set_getKnownEntities set_getKnownSenders incomingEntry_def findBySenderNonce_def

lemma demo_add_accepted:
  "fst (addUserOp (demo_mempool n) (demo_relay (demo_op a m None f) h) (demo_pool_state [] [])) = Inr (Right h)"
proof -
  let ?r = "demo_relay (demo_op a m None f) h"
  have "fst (addUserOp_checks (demo_mempool n) ?r (demo_pool_state [] [])) = Inr (Right (incomingEntry ?r))"
    by (simp add: checks_eval demo_relay_def)
  moreover obtain es where "addUserOp_commit (demo_mempool n) ?r (Right (incomingEntry ?r)) (demo_pool_state [] [])
      = (Inr (Right (rl_userOpHash ?r)), es)"
    using addUserOp_commit_run [where cfg = "demo_mempool n" and r = ?r and em = "incomingEntry ?r"
        and s = "demo_pool_state [] []"] by auto
  ultimately show ?thesis by (simp add: addUserOp_run demo_relay_def)
qed

theorem admission_requires_reputation_witness:
  "case rl_senderInfo (demo_relay (demo_op ''0xab'' 0 None 1) ''0x01'') of None \<Rightarrow> False
     | Some i \<Rightarrow> admitted demo_rep (demo_pool_state [] []) i 4"
  using admission_requires_reputation [where cfg = "demo_mempool 5" and s = "demo_pool_state [] []"
      and r = "demo_relay (demo_op ''0xab'' 0 None 1) ''0x01''" and h = "''0x01''"]
  by (simp add: demo_add_accepted findBySenderNonce_def)

section \<open>Roles\<close>

text \<open>No address is the sender of one entry and the paymaster or factory of another.\<close>

definition roles_ok :: "standard_pool \<Rightarrow> bool" where
  "roles_ok po \<longleftrightarrow> (\<forall>(h, e) \<in> set po. \<forall>(h', e') \<in> set po.
     h \<noteq> h' \<longrightarrow> toLowerCase (sender (me_userOp e)) \<notin> entitiesOf (me_userOp e'))"

lemma roles_ok_delete: "roles_ok po \<Longrightarrow> roles_ok (AList.delete h po)"
  by (auto simp: roles_ok_def set_delete)

lemma roles_ok_update:
  assumes "roles_ok po"
    and "toLowerCase (sender (me_userOp e)) \<notin> set (getKnownEntities po)"
    and "entitiesOf (me_userOp e) \<inter> set (getKnownSenders po) = {}"
  shows "roles_ok (AList.update h e po)"
proof -
  have mem: "(h', e') = (h, e) \<or> (h', e') \<in> set po" if "(h', e') \<in> set (AList.update h e po)" for h' e'
    using that set_update_subset [of h e po] by blast
  have new: "toLowerCase (sender (me_userOp e)) \<notin> entitiesOf (me_userOp e')"
    "toLowerCase (sender (me_userOp e')) \<notin> entitiesOf (me_userOp e)" if "(h', e') \<in> set po" for h' e'
    using that assms(2,3) by (force simp: set_getKnownEntities set_getKnownSenders)+
  have "toLowerCase (sender (me_userOp x)) \<notin> entitiesOf (me_userOp y)"
    if "(a, x) \<in> set (AList.update h e po)" "(b, y) \<in> set (AList.update h e po)" "a \<noteq> b" for a x b y
    using mem [OF that(1)] mem [OF that(2)] that(3) new assms(1) by (auto simp: roles_ok_def)
  then show ?thesis unfolding roles_ok_def by blast
qed

lemma checkMultipleRoles_iff:
  "(\<exists>em'. checkMultipleRolesViolation em ks ss = Right em') \<longleftrightarrow>
     toLowerCase (sender (me_userOp (fst em))) \<notin> set ks \<and>
     lower_or_empty (paymaster (me_userOp (fst em))) \<notin> set ss \<and>
     lower_or_empty (factory (me_userOp (fst em))) \<notin> set ss"
  by (simp add: checkMultipleRolesViolation_def Let_def)

lemma entitiesOf_subset:
  "entitiesOf op \<subseteq> {lower_or_empty (paymaster op), lower_or_empty (factory op)}"
  by (auto simp: entitiesOf_def entity_or_0x_def lower_or_empty_def truthy_iff split: if_splits)

text \<open>
  Property C21. Accepting a new operation (one that replaces nothing) keeps the roles of the
  pool's addresses apart: no address is the sender of one entry and the paymaster or factory of
  another one.
\<close>

theorem new_operation_keeps_roles_apart:
  assumes "mp_verify cfg (mp_stateCapability cfg)"
    and "rm_verify (mp_reputation cfg) (rm_stateCapability (mp_reputation cfg))"
    and "findBySenderNonce (sender (rl_userOp r)) (nonce (rl_userOp r)) (standardPool s) = None"
    and "fst (addUserOp cfg r s) = Inr (Right h)" and "roles_ok (standardPool s)"
  shows "roles_ok (standardPool (snd (addUserOp cfg r s)))"
proof -
  have op: "me_userOp (fst (incomingEntry r)) = rl_userOp r" by (simp add: incomingEntry_def)
  from fresh_accepted(2) [OF assms(1,3,4), unfolded checkMultipleRoles_iff op] have
    "toLowerCase (sender (rl_userOp r)) \<notin> set (getKnownEntities (standardPool s))"
    "entitiesOf (rl_userOp r) \<inter> set (getKnownSenders (standardPool s)) = {}"
    using entitiesOf_subset [of "rl_userOp r"] by auto
  with assms(5) have "roles_ok (AList.update h (fst (incomingEntry r)) (standardPool s))"
    by (intro roles_ok_update) (simp_all add: op)
  moreover have "standardPool (snd (addUserOp cfg r s))
      = AList.update h (fst (incomingEntry r)) (standardPool s)"
    using addUserOp_fresh_pool [OF assms(1-4)] .
  ultimately show ?thesis by simp
qed

theorem new_operation_keeps_roles_apart_witness:
  "roles_ok (standardPool (snd (addUserOp (demo_mempool 5)
     (demo_relay (demo_op ''0xab'' 0 None 1) ''0x01'') (demo_pool_state [] []))))"
  by (rule new_operation_keeps_roles_apart [where h = "''0x01''"])
    (simp_all add: demo_add_accepted findBySenderNonce_def roles_ok_def)

definition demo_pair :: standard_pool where
  "demo_pair = [(''0x01'', demo_entry (demo_op ''0xaa'' 0 None 1) ''0x01'' pending),
     (''0x02'', demo_entry (demo_op ''0xbb'' 0 None 1) ''0x02'' pending)]"

lemma replaceOrAdd_old:
  assumes "findBySenderNonce (sender (me_userOp e)) (nonce (me_userOp e)) po = Some old"
  shows "replaceOrAddUserOpChecks cfg co po (e, md) s
    = (Inr (checkReplaceUserOp (e, md\<lparr>md_oldEntry := Some old\<rparr>)), s)"
  using assms by (simp add: replaceOrAddUserOpChecks_def)

lemma demo_replacement_run:
  "\<exists>t. addUserOp (demo_mempool 5) (demo_relay (demo_op ''0xaa'' 0 (Some ''0xbb'') 2) ''0x03'')
      (demo_pool_state demo_pair []) = (Inr (Right ''0x03''), t) \<and>
    standardPool t = [(''0x02'', demo_entry (demo_op ''0xbb'' 0 None 1) ''0x02'' pending),
      (''0x03'', demo_entry (demo_op ''0xaa'' 0 (Some ''0xbb'') 2) ''0x03'' pending)]"
proof -
  let ?r = "demo_relay (demo_op ''0xaa'' 0 (Some ''0xbb'') 2) ''0x03''"
  let ?s = "demo_pool_state demo_pair []"
  let ?old = "demo_entry (demo_op ''0xaa'' 0 None 1) ''0x01'' pending"
  let ?em = "(fst (incomingEntry ?r), (snd (incomingEntry ?r))\<lparr>md_oldEntry := Some ?old\<rparr>)"
  have find: "findBySenderNonce ''0xaa'' 0 demo_pair = Some ?old"
    by (simp add: findBySenderNonce_def demo_pair_def)
  have "Number_of 1 = 1" "Number_of 2 = 2" "Number_of 4953959590107546 = 4953959590107546"
    by (simp_all add: Number_of_exact)
  then have "checkReplaceUserOp ?em = Right ?em"
    by (simp add: checkReplaceUserOp_def Let_def atLeastTenPercentMore_def incomingEntry_def demo_relay_def)
  then have "fst (addUserOp_checks (demo_mempool 5) ?r ?s) = Inr (Right ?em)"
    using find
    by (simp add: addUserOp_checks_def checkPaymasterDeposit_run andThen_def getState_def pickKeys_def
        noKeys_def has_paymaster_def ZeroAddress_def depositLeft_eq paymasterOps_def demo_pair_def
        replaceOrAddUserOpChecks_def Let_def incomingEntry_def demo_relay_def)
  moreover obtain es where "addUserOp_commit (demo_mempool 5) ?r (Right ?em) ?s
      = (Inr (Right (rl_userOpHash ?r)),
         ?s\<lparr>standardPool := fst (doUpdateMempoolState ?em (standardPool ?s) (mempoolEntryCount ?s)),
           mempoolEntryCount := snd (doUpdateMempoolState ?em (standardPool ?s) (mempoolEntryCount ?s)),
           reputationEntries := es\<rparr>)"
    using addUserOp_commit_run [where cfg = "demo_mempool 5" and r = ?r and em = ?em and s = ?s] by auto
  ultimately show ?thesis
    by (simp add: addUserOp_run doUpdateMempoolState_def Let_def incomingEntry_def demo_relay_def
        demo_pair_def demo_entry_def)
qed

text \<open>
  The replacement path skips the roles check: an operation that replaces an entry
  may name as its paymaster the sender of another entry.
\<close>

theorem replacement_can_mix_roles:
  "\<exists>s r h. pool_ok (standardPool (s :: State)) \<and> roles_ok (standardPool s) \<and>
     fst (addUserOp (demo_mempool 5) r s) = Inr (Right h) \<and>
     \<not> roles_ok (standardPool (snd (addUserOp (demo_mempool 5) r s)))"
proof -
  from demo_replacement_run obtain t where t: "addUserOp (demo_mempool 5)
      (demo_relay (demo_op ''0xaa'' 0 (Some ''0xbb'') 2) ''0x03'') (demo_pool_state demo_pair [])
      = (Inr (Right ''0x03''), t)"
    "standardPool t = [(''0x02'', demo_entry (demo_op ''0xbb'' 0 None 1) ''0x02'' pending),
      (''0x03'', demo_entry (demo_op ''0xaa'' 0 (Some ''0xbb'') 2) ''0x03'' pending)]" by blast
  have "\<not> roles_ok (standardPool t)"
    by (simp add: t(2) roles_ok_def entitiesOf_def entity_or_0x_def insert_Diff_if)
  moreover have "pool_ok demo_pair" "roles_ok demo_pair"
    by (simp_all add: demo_pair_def pool_ok_def obj_ok_def slot_def roles_ok_def entitiesOf_def
        entity_or_0x_def)
  ultimately show ?thesis using t(1)
    by (intro exI [of _ "demo_pool_state demo_pair []"]
        exI [of _ "demo_relay (demo_op ''0xaa'' 0 (Some ''0xbb'') 2) ''0x03''"] exI [of _ "''0x03''"]) simp
qed

section \<open>The fee bump of a replacement\<close>

lemma ten_percent_bounds:
  assumes "0 \<le> old" and "old < 2 ^ 48"
  shows "atLeastTenPercentMore new old \<Longrightarrow> 11 * old \<le> 10 * new"
    and "11 * old < 10 * new \<Longrightarrow> atLeastTenPercentMore new old"
proof -
  let ?m = "old * 4953959590107546"
  from assms have "?m < 2 ^ (54 + 47)" "0 \<le> ?m" by simp_all
  from Number_of_error [OF this(2,1)] have err: "\<bar>Number_of ?m - ?m\<bar> \<le> 2 ^ 47" .
  show "11 * old \<le> 10 * new" if "atLeastTenPercentMore new old"
    using that err assms unfolding atLeastTenPercentMore_def by simp
  show "atLeastTenPercentMore new old" if "11 * old < 10 * new"
    using that err assms unfolding atLeastTenPercentMore_def by simp
qed

text \<open>
  A replacement is allowed only if it raises both fees by at least ten per cent, and
  raising both by more than ten per cent is enough (for old fees below \<open>2 ^ 48\<close> wei, where the
  double arithmetic of the comparison is precise enough).
\<close>

theorem replacement_fee_bump:
  assumes "md_oldEntry md = Some old"
    and "f = maxFeePerGas (me_userOp old)" and "p = maxPriorityFeePerGas (me_userOp old)"
    and "f' = maxFeePerGas (me_userOp e)" and "p' = maxPriorityFeePerGas (me_userOp e)"
    and "0 \<le> f" and "f < 2 ^ 48" and "0 \<le> p" and "p < 2 ^ 48"
    and "0 \<le> f'" and "f' < 2 ^ 53" and "0 \<le> p'" and "p' < 2 ^ 53"
  shows "(checkReplaceUserOp (e, md) = Right (e, md) \<longrightarrow> 11 * f \<le> 10 * f' \<and> 11 * p \<le> 10 * p') \<and>
    (11 * f < 10 * f' \<and> 11 * p < 10 * p' \<longrightarrow> checkReplaceUserOp (e, md) = Right (e, md))"
proof -
  have num: "Number_of f = f" "Number_of p = p" "Number_of f' = f'" "Number_of p' = p'"
    using assms by (auto intro!: Number_of_exact)
  have "checkReplaceUserOp (e, md) = Right (e, md) \<longleftrightarrow>
      atLeastTenPercentMore p' p \<and> atLeastTenPercentMore f' f"
    using assms(1) num unfolding assms(2-5)
    by (simp add: checkReplaceUserOp_def Let_def)
  then show ?thesis
    using ten_percent_bounds [OF assms(6,7)] ten_percent_bounds [OF assms(8,9)] by blast
qed

theorem replacement_fee_bump_witness:
  "checkReplaceUserOp (demo_entry (demo_op ''0xaa'' 0 None 111) ''0x02'' pending,
       (snd (incomingEntry (demo_relay (demo_op ''0xaa'' 0 None 111) ''0x02'')))
         \<lparr>md_oldEntry := Some (demo_entry (demo_op ''0xaa'' 0 None 100) ''0x01'' pending)\<rparr>)
   = Right (demo_entry (demo_op ''0xaa'' 0 None 111) ''0x02'' pending,
       (snd (incomingEntry (demo_relay (demo_op ''0xaa'' 0 None 111) ''0x02'')))
         \<lparr>md_oldEntry := Some (demo_entry (demo_op ''0xaa'' 0 None 100) ''0x01'' pending)\<rparr>)"
  by (rule replacement_fee_bump [where old = "demo_entry (demo_op ''0xaa'' 0 None 100) ''0x01'' pending",
        OF _ refl refl refl refl, THEN conjunct2, THEN mp]) simp_all

text \<open>
  A bump of exactly ten per cent can be refused: the literal \<open>1.1\<close> is a double
  slightly above eleven tenths, so replacing a fee of 100 by 110 is rejected.
\<close>

theorem exact_ten_percent_bump_rejected:
  "checkReplaceUserOp (demo_entry (demo_op ''0xaa'' 0 None 110) ''0x02'' pending,
       (snd (incomingEntry (demo_relay (demo_op ''0xaa'' 0 None 110) ''0x02'')))
         \<lparr>md_oldEntry := Some (demo_entry (demo_op ''0xaa'' 0 None 100) ''0x01'' pending)\<rparr>)
   = Left (RpcError ''Replacement UserOperation must have higher maxPriorityFeePerGas (old=100 new=110) ''
       InvalidFields)"
proof -
  have "Number_of 100 = 100" "Number_of 110 = 110" by (simp_all add: Number_of_exact)
  moreover have "\<not> atLeastTenPercentMore 110 100"
    by (simp add: atLeastTenPercentMore_def Number_of_def rne53_def bit_len.simps Let_def)
  moreover have "int_str 100 = ''100''" "int_str 110 = ''110''" by code_simp+
  ultimately show ?thesis by (simp add: checkReplaceUserOp_def Let_def)
qed

section \<open>Counters\<close>

lemma addUserOp_fresh_run:
  assumes "mp_verify cfg (mp_stateCapability cfg)"
    and "rm_verify (mp_reputation cfg) (rm_stateCapability (mp_reputation cfg))"
    and "findBySenderNonce (sender (rl_userOp r)) (nonce (rl_userOp r)) (standardPool s) = None"
    and "fst (addUserOp cfg r s) = Inr (Right h)"
  shows "\<exists>es. addUserOp cfg r s = (Inr (Right (rl_userOpHash r)),
     s\<lparr>standardPool := AList.update (rl_userOpHash r) (fst (incomingEntry r)) (standardPool s),
       mempoolEntryCount := snd (doUpdateMempoolState (incomingEntry r) (standardPool s) (mempoolEntryCount s)),
       reputationEntries := es\<rparr>)"
proof -
  from addUserOp_accepts [OF assms(4)] obtain e md where
    ok: "fst (addUserOp_checks cfg r s) = Inr (Right (e, md))" by auto
  from addUserOp_checks_Right [OF assms(1) ok] assms(3)
  have em: "(e, md) = incomingEntry r" by (simp add: incomingEntry_def)
  from addUserOp_commit_run [OF assms(1,2), of r "(e, md)" s] ok show ?thesis
    by (simp add: addUserOp_run em) (simp add: incomingEntry_def doUpdateMempoolState_def Let_def)
qed

lemma count_after_add:
  "countOf (snd (doUpdateMempoolState (incomingEntry r) po co)) (toLowerCase (sender (rl_userOp r)))
     = countOf co (toLowerCase (sender (rl_userOp r))) + 1"
proof -
  let ?a = "toLowerCase (sender (rl_userOp r))"
  let ?upd = "countEntity (factory (rl_userOp r)) co (countEntity (paymaster (rl_userOp r)) co
      [(?a, countOf co ?a + 1)])"
  have ok: "obj_ok (countEntity x co upd)" if "obj_ok upd" for x upd
    using that by (simp add: countEntity_def)
  have "map_of (countEntity x co upd) ?a = Some (countOf co ?a + 1)"
    if "map_of upd ?a = Some (countOf co ?a + 1)" for x upd
    using that by (simp add: countEntity_def)
  then have "map_of ?upd ?a = Some (countOf co ?a + 1)" by simp
  moreover have "obj_ok ?upd" by (intro ok) (simp add: obj_ok_def)
  ultimately have "map_of (spread co ?upd) ?a = Some (countOf co ?a + 1)"
    by (simp add: map_of_spread)
  then show ?thesis
    by (simp add: doUpdateMempoolState_def incomingEntry_def Let_def countOf_def)
qed

lemma removeUserOp_run:
  assumes "mp_verify cfg (mp_stateCapability cfg)" and "findEntry x (standardPool s) = Some e"
  shows "removeUserOp cfg x s = (Inr True,
     s\<lparr>standardPool := fst (dropEntry e (standardPool s) (mempoolEntryCount s)),
       mempoolEntryCount := snd (dropEntry e (standardPool s) (mempoolEntryCount s))\<rparr>)"
  using assms(2)
  by (simp add: removeUserOp_def andThen_def readPool_run [OF assms(1)] updatePoolAndCount_run [OF assms(1)])

lemma count_after_drop:
  "countOf (snd (dropEntry e po co)) a =
    (if a = sender (me_userOp e) then max 0 (countOf co a - 1) else countOf co a)"
  by (simp add: dropEntry_def Let_def countOf_def)

text \<open>
  Adding an operation and removing it again removes it from the pool, but gives its
  sender's counter back only if the sender was written in lower case: the counter is raised
  under the lower-case address and lowered under the address as written, so every operation of a
  checksummed address leaves a count behind.
\<close>

theorem removal_leaks_sender_count:
  assumes "mp_verify cfg (mp_stateCapability cfg)"
    and "rm_verify (mp_reputation cfg) (rm_stateCapability (mp_reputation cfg))"
    and "findBySenderNonce (sender (rl_userOp r)) (nonce (rl_userOp r)) (standardPool s) = None"
    and "fst (addUserOp cfg r s) = Inr (Right h)"
    and "a = sender (rl_userOp r)" and "0 \<le> countOf (mempoolEntryCount s) (toLowerCase a)"
  shows "let u = snd (removeUserOp cfg (By_hash h) (snd (addUserOp cfg r s))) in
    map_of (standardPool u) h = None \<and>
    countOf (mempoolEntryCount u) (toLowerCase a)
      = countOf (mempoolEntryCount s) (toLowerCase a) + (if toLowerCase a = a then 0 else 1)"
proof -
  from addUserOp_fresh_run [OF assms(1-4)] obtain es where
    add: "addUserOp cfg r s = (Inr (Right (rl_userOpHash r)),
     s\<lparr>standardPool := AList.update (rl_userOpHash r) (fst (incomingEntry r)) (standardPool s),
       mempoolEntryCount := snd (doUpdateMempoolState (incomingEntry r) (standardPool s) (mempoolEntryCount s)),
       reputationEntries := es\<rparr>)" ..
  then have h: "h = rl_userOpHash r" using assms(4) by simp
  have e: "me_userOpHash (fst (incomingEntry r)) = rl_userOpHash r"
    "me_userOp (fst (incomingEntry r)) = rl_userOp r" by (simp_all add: incomingEntry_def)
  define t where "t = snd (addUserOp cfg r s)"
  have t: "map_of (standardPool t) h = Some (fst (incomingEntry r))"
    "countOf (mempoolEntryCount t) (toLowerCase a) = countOf (mempoolEntryCount s) (toLowerCase a) + 1"
    by (simp_all add: t_def add h count_after_add assms(5))
  then have u: "removeUserOp cfg (By_hash h) t = (Inr True,
     t\<lparr>standardPool := fst (dropEntry (fst (incomingEntry r)) (standardPool t) (mempoolEntryCount t)),
       mempoolEntryCount := snd (dropEntry (fst (incomingEntry r)) (standardPool t) (mempoolEntryCount t))\<rparr>)"
    by (intro removeUserOp_run [OF assms(1)]) simp
  have "map_of (fst (dropEntry (fst (incomingEntry r)) (standardPool t) (mempoolEntryCount t))) h = None"
    by (simp add: dropEntry_def Let_def e h)
  moreover have "countOf (mempoolEntryCount t) a = countOf (mempoolEntryCount s) a + 1"
    if "toLowerCase a = a"
    using t(2) that by simp
  ultimately show ?thesis
    using assms(6) by (auto simp: Let_def u count_after_drop e t(2) simp flip: t_def assms(5))
qed

theorem removal_leaks_sender_count_witness:
  "countOf (mempoolEntryCount (snd (removeUserOp (demo_mempool 5) (By_hash ''0x01'')
     (snd (addUserOp (demo_mempool 5) (demo_relay (demo_op ''0xAB'' 0 None 1) ''0x01'')
        (demo_pool_state [] [])))))) ''0xab'' = 1"
proof -
  let ?r = "demo_relay (demo_op ''0xAB'' 0 None 1) ''0x01''"
  have "sender (rl_userOp ?r) = ''0xAB''" by (simp add: demo_relay_def)
  from removal_leaks_sender_count [where cfg = "demo_mempool 5" and s = "demo_pool_state [] []"
      and r = ?r and h = "''0x01''", OF _ _ _ _ refl]
  show ?thesis
    by (simp add: demo_add_accepted findBySenderNonce_def countOf_def Let_def
        \<open>sender (rl_userOp ?r) = ''0xAB''\<close>)
qed

section \<open>Interleaved requests\<close>

text \<open>
  The checks and the commit of \<open>addUserOp\<close> are separate accesses to the state. When
  the checks of two requests for the same sender and nonce both run before either commit, both
  are accepted and the pool ends up with two entries for one sender and nonce.
\<close>

theorem interleaved_adds_duplicate_nonce:
  "\<exists>r1 r2 (s :: State) em1 em2.
     fst (addUserOp_checks (demo_mempool 5) r1 s) = Inr (Right em1) \<and>
     fst (addUserOp_checks (demo_mempool 5) r2 s) = Inr (Right em2) \<and>
     pool_ok (standardPool s) \<and>
     (let t = snd (addUserOp_commit (demo_mempool 5) r1 (Right em1) s);
          u = snd (addUserOp_commit (demo_mempool 5) r2 (Right em2) t)
      in length (filter (\<lambda>e. slot e = slot (fst em1)) (map snd (standardPool u))) = 2)"
proof -
  let ?r = "\<lambda>n h. demo_relay (demo_op ''0xab'' 0 None n) h"
  let ?s = "demo_pool_state [] []"
  have checks: "fst (addUserOp_checks (demo_mempool 5) (?r n h) ?s) = Inr (Right (incomingEntry (?r n h)))"
    for n h by (simp add: checks_eval demo_relay_def)
  have commit: "standardPool (snd (addUserOp_commit (demo_mempool 5) (?r n h)
      (Right (incomingEntry (?r n h))) s))
    = AList.update h (fst (incomingEntry (?r n h))) (standardPool s)" for n h and s :: State
    using addUserOp_commit_run [where cfg = "demo_mempool 5" and r = "?r n h"
        and em = "incomingEntry (?r n h)" and s = s]
    by (auto simp: doUpdateMempoolState_def Let_def incomingEntry_def demo_relay_def)
  show ?thesis
    by (intro exI [of _ "?r 1 ''0x01''"] exI [of _ "?r 2 ''0x02''"] exI [of _ ?s]
        exI [of _ "incomingEntry (?r 1 ''0x01'')"] exI [of _ "incomingEntry (?r 2 ''0x02'')"])
      (simp add: checks commit Let_def, simp add: incomingEntry_def demo_relay_def slot_def)
qed

end
