(* ===== verification/Event.thy ===== *)
theory Event
  imports Mempool_Spec
begin

text \<open>
  The event manager of \<open>src/event/event-manager.ts\<close>. Its closure variables extend the state
  and those of the reputation manager.
  Events arrive with their decoded arguments; the chain (block number, \<open>queryFilter\<close>, the
  entry point's event fragments) is a parameter.
\<close>

record event_state = reputation_state +
  lastBlock :: "int option"
  eventAggregator :: "string option"
  eventAggregatorTxHash :: "string option"

text \<open>The arguments of the three events; \<open>paymaster\<close> and \<open>aggregator\<close> can be null.\<close>

datatype event_args =
    UserOperationEvent (ua_userOpHash: string) (ua_success: bool) (ua_sender: string)
      (ua_paymaster: "string option")
  | AccountDeployed (da_factory: "string option")
  | SignatureAggregatorChanged (sa_aggregator: "string option")
  | OtherEvent

record event_log =
  ev_args :: event_args
  blockNumber :: int
  transactionHash :: string

record event_config =
  ec_mempool :: mempool_config
  ec_reputation :: reputation_config
  ec_getBlockNumber :: int
  ec_queryUserOperation :: "int \<Rightarrow> event_log list"
  ec_queryAccountDeployed :: "int \<Rightarrow> event_log list"
  ec_queryAggregatorChanged :: "int \<Rightarrow> event_log list"

definition LAST_1000_BLOCKS :: int where "LAST_1000_BLOCKS = 1000"

section \<open>Handling an event\<close>

definition getEventAggregator :: "event_log \<Rightarrow> ('z event_state_scheme, string option) act" where
  "getEventAggregator ev =
     (\<lambda>s. if Some (transactionHash ev) \<noteq> eventAggregatorTxHash s
          then (Inr None, s\<lparr>eventAggregator := None,
                  eventAggregatorTxHash := Some (transactionHash ev)\<rparr>)
          else (Inr (eventAggregator s), s))"

definition includedAddress ::
  "event_config \<Rightarrow> string option \<Rightarrow> ('z State_scheme, unit) act" where
  "includedAddress cfg data =
     (case data of
        None \<Rightarrow> ret ()
      | Some d \<Rightarrow> if length d > 42 then updateIncludedStatus (ec_reputation cfg) (take 42 d) else ret ())"

definition handleUserOperationEvent ::
  "event_config \<Rightarrow> event_log \<Rightarrow> string \<Rightarrow> bool \<Rightarrow> string \<Rightarrow> string option \<Rightarrow>
   ('z event_state_scheme, unit) act" where
  "handleUserOperationEvent cfg ev userOpHash success sd pm =
     andThen (if success
              then andThen (removeUserOp (ec_mempool cfg) (By_hash userOpHash)) (\<lambda>_. ret ())
              else updateEntryStatus (ec_mempool cfg) (By_hash userOpHash) failed)
       (\<lambda>_. andThen (includedAddress cfg (Some sd))
       (\<lambda>_. andThen (includedAddress cfg pm)
       (\<lambda>_. andThen (getEventAggregator ev) (includedAddress cfg))))"

definition handleAggregatorChangedEvent ::
  "event_log \<Rightarrow> string option \<Rightarrow> ('z event_state_scheme, unit) act" where
  "handleAggregatorChangedEvent ev ag =
     (\<lambda>s. (Inr (), s\<lparr>eventAggregator := ag, eventAggregatorTxHash := Some (transactionHash ev)\<rparr>))"

definition setLastBlock :: "int \<Rightarrow> ('z event_state_scheme, unit) act" where
  "setLastBlock n = (\<lambda>s. (Inr (), s\<lparr>lastBlock := Some n\<rparr>))"

definition handleEvent :: "event_config \<Rightarrow> event_log \<Rightarrow> ('z event_state_scheme, unit) act" where
  "handleEvent cfg ev =
     andThen
       (case ev_args ev of
          UserOperationEvent userOpHash success sd pm \<Rightarrow>
            handleUserOperationEvent cfg ev userOpHash success sd pm
        | AccountDeployed fac \<Rightarrow> includedAddress cfg fac
        | SignatureAggregatorChanged ag \<Rightarrow> handleAggregatorChangedEvent ev ag
        | OtherEvent \<Rightarrow> ret ())
       (\<lambda>_. setLastBlock (blockNumber ev + 1))"

text \<open>
  \<open>handlePastEvents\<close>: the three queries run from the same block and their results are handled
  one list after the other.
\<close>

definition firstBlock :: "event_config \<Rightarrow> int option \<Rightarrow> int" where
  "firstBlock cfg lb =
     (case lb of
        None \<Rightarrow> max 1 (ec_getBlockNumber cfg - LAST_1000_BLOCKS)
      | Some n \<Rightarrow> if n = 0 then max 1 (ec_getBlockNumber cfg - LAST_1000_BLOCKS) else n)"

definition pastEvents :: "event_config \<Rightarrow> int \<Rightarrow> event_log list" where
  "pastEvents cfg from_block =
     ec_queryUserOperation cfg from_block @ ec_queryAccountDeployed cfg from_block
       @ ec_queryAggregatorChanged cfg from_block"

definition handlePastEvents :: "event_config \<Rightarrow> ('z event_state_scheme, unit) act" where
  "handlePastEvents cfg =
     (\<lambda>s. let lb = firstBlock cfg (lastBlock s)
          in for_each (pastEvents cfg lb) (handleEvent cfg) (s\<lparr>lastBlock := Some lb\<rparr>))"

section \<open>Filtering logs\<close>

type_synonym log_topics = "string list"

definition topic :: "nat \<Rightarrow> log_topics \<Rightarrow> string option" where
  "topic n log = (if n < length log then Some (log ! n) else None)"

text \<open>One iteration of the loop: index, start index and end index.\<close>

definition filterStep ::
  "string \<Rightarrow> log_topics \<Rightarrow> log_topics \<Rightarrow> int \<times> int \<times> int \<Rightarrow> int \<times> int \<times> int" where
  "filterStep beforeTopic userOpEvent log = (\<lambda>(i, startIndex, endIndex).
     if topic 0 log = Some beforeTopic then (i + 1, i, i)
     else if topic 0 log = topic 0 userOpEvent then
       (if topic 1 log = topic 1 userOpEvent then (i + 1, startIndex, i)
        else if endIndex = - 1 then (i + 1, i, endIndex) else (i + 1, startIndex, endIndex))
     else (i + 1, startIndex, endIndex))"

definition filterLogsBy ::
  "('l \<Rightarrow> log_topics) \<Rightarrow> string option \<Rightarrow> log_topics \<Rightarrow> 'l list \<Rightarrow> (string, 'l list) either" where
  "filterLogsBy topics beforeExecution userOpEvent logs =
     (case beforeExecution of
        None \<Rightarrow> Left ''fatal: no BeforeExecution event found''
      | Some beforeTopic \<Rightarrow>
          (let (_, startIndex, endIndex)
                 = fold (filterStep beforeTopic userOpEvent) (map topics logs) (0, - 1, - 1)
           in if endIndex = - 1 then Left ''fatal: no UserOperationEvent in logs''
              else Right (take (nat (endIndex - (startIndex + 1))) (drop (nat (startIndex + 1)) logs))))"

definition filterLogs ::
  "string option \<Rightarrow> log_topics \<Rightarrow> log_topics list \<Rightarrow> (string, log_topics list) either" where
  "filterLogs = filterLogsBy (\<lambda>log. log)"

section \<open>The event of one operation\<close>

text \<open>A log that a query or the subscription delivers, with decoded arguments or raw.\<close>

datatype 'e chain_log = Decoded 'e | Raw_log

definition getUserOperationEvent :: "(string \<Rightarrow> 'e chain_log list) \<Rightarrow> string \<Rightarrow> 'e option" where
  "getUserOperationEvent queryFilter userOpHash =
     (case queryFilter userOpHash of
        [] \<Rightarrow> None
      | Decoded ev # _ \<Rightarrow> Some ev
      | Raw_log # _ \<Rightarrow> None)"

text \<open>The callback \<open>initEventListener\<close> subscribes; an event without arguments is only logged.\<close>

definition onUserOperationEvent ::
  "event_config \<Rightarrow> event_log chain_log \<Rightarrow> ('z event_state_scheme, unit) act" where
  "onUserOperationEvent cfg payload =
     (case payload of Raw_log \<Rightarrow> ret () | Decoded ev \<Rightarrow> handleEvent cfg ev)"

section \<open>Properties\<close>

lemma includedAddress_short:
  "(\<And>x. d = Some x \<Longrightarrow> length x \<le> 42) \<Longrightarrow> includedAddress cfg d = ret ()"
  by (cases d) (auto simp: includedAddress_def)

fun event_addresses :: "event_args \<Rightarrow> string list" where
  "event_addresses (UserOperationEvent h ok sd pm) = sd # (case pm of None \<Rightarrow> [] | Some p \<Rightarrow> [p])"
| "event_addresses (AccountDeployed fac) = (case fac of None \<Rightarrow> [] | Some f \<Rightarrow> [f])"
| "event_addresses (SignatureAggregatorChanged ag) = (case ag of None \<Rightarrow> [] | Some a \<Rightarrow> [a])"
| "event_addresses OtherEvent = []"

definition short_aggregator :: "'z event_state_scheme \<Rightarrow> bool" where
  "short_aggregator s \<longleftrightarrow> (\<forall>a. eventAggregator s = Some a \<longrightarrow> length a \<le> 42)"

lemma short_aggregator_lastBlock [simp]:
  "short_aggregator (s\<lparr>lastBlock := x\<rparr>) = short_aggregator s"
  by (simp add: short_aggregator_def)

lemma pool_ops_keep_entries:
  "keeps (\<lambda>s. reputationEntries s = es \<and> short_aggregator s)
     (removeUserOp cfg x :: ('z event_state_scheme, bool) act)"
  "keeps (\<lambda>s. reputationEntries s = es \<and> short_aggregator s)
     (updateEntryStatus cfg x st :: ('z event_state_scheme, unit) act)"
proof -
  show "keeps (\<lambda>s. reputationEntries s = es \<and> short_aggregator s)
     (removeUserOp cfg x :: ('z event_state_scheme, bool) act)"
    unfolding removeUserOp_def
    by (intro keeps_andThen keeps_readPool)
      (auto intro!: keeps_andThen keeps_updatePoolAndCount simp: short_aggregator_def split: option.split)
  show "keeps (\<lambda>s. reputationEntries s = es \<and> short_aggregator s)
     (updateEntryStatus cfg x st :: ('z event_state_scheme, unit) act)"
    unfolding updateEntryStatus_def
    by (intro keeps_andThen keeps_readPool)
      (auto intro!: keeps_andThen pool_field.keeps_update_field simp: short_aggregator_def
        split: option.split)
qed

lemma handleEvent_keeps_entries:
  assumes "\<forall>x \<in> set (event_addresses (ev_args ev)). length x \<le> 42"
  shows "keeps (\<lambda>s. reputationEntries s = es \<and> short_aggregator s)
    (handleEvent cfg ev :: ('z event_state_scheme, unit) act)"
proof -
  let ?P = "\<lambda>s :: 'z event_state_scheme. reputationEntries s = es \<and> short_aggregator s"
  have agg: "keeps ?P (andThen (getEventAggregator ev) (includedAddress cfg))"
  proof (rule keepsI)
    fix s :: "'z event_state_scheme" assume s: "?P s"
    then have "includedAddress cfg (eventAggregator s) = (ret () :: ('z event_state_scheme, unit) act)"
      by (intro includedAddress_short) (simp add: short_aggregator_def)
    with s show "?P (snd (andThen (getEventAggregator ev) (includedAddress cfg) s))"
      by (simp add: andThen_def getEventAggregator_def includedAddress_def short_aggregator_def)
  qed
  have last: "keeps ?P (setLastBlock n)" for n
    by (simp add: keeps_def setLastBlock_def short_aggregator_def)
  have op: "keeps ?P (handleUserOperationEvent cfg ev h ok sd pm)"
    if "ev_args ev = UserOperationEvent h ok sd pm" for h ok sd pm
  proof -
    have "includedAddress cfg (Some sd) = (ret () :: ('z event_state_scheme, unit) act)"
      "includedAddress cfg pm = (ret () :: ('z event_state_scheme, unit) act)"
      using assms that by (auto intro!: includedAddress_short)
    then show ?thesis
      unfolding handleUserOperationEvent_def
      by (auto intro!: keeps_andThen pool_ops_keep_entries agg)
  qed
  have changed: "keeps ?P (handleAggregatorChangedEvent ev ag)"
    if "ev_args ev = SignatureAggregatorChanged ag" for ag
    using assms that
    by (auto simp: keeps_def handleAggregatorChangedEvent_def short_aggregator_def)
  have deployed: "includedAddress cfg fac = (ret () :: ('z event_state_scheme, unit) act)"
    if "ev_args ev = AccountDeployed fac" for fac
    using assms that by (auto intro!: includedAddress_short)
  show ?thesis
    unfolding handleEvent_def
    by (intro keeps_andThen last) (auto simp: deployed intro: op changed split: event_args.split)
qed

text \<open>
  Property C38. \<open>includedAddress\<close> counts only strings longer than 42 characters, and an address has
  42: whatever events the chain reports, handling them never raises any \<open>opsIncluded\<close> counter,
  and leaves every reputation entry as it was.
\<close>

theorem inclusions_are_never_counted:
  assumes "\<And>ev x. ev \<in> set (pastEvents cfg (firstBlock cfg (lastBlock s))) \<Longrightarrow>
      x \<in> set (event_addresses (ev_args ev)) \<Longrightarrow> length x \<le> 42"
    and "short_aggregator s"
  shows "reputationEntries (snd (handlePastEvents cfg s)) = reputationEntries s"
proof -
  have "keeps (\<lambda>t. reputationEntries t = reputationEntries s \<and> short_aggregator t)
     (for_each (pastEvents cfg (firstBlock cfg (lastBlock s))) (handleEvent cfg))"
    by (rule keeps_for_each, rule handleEvent_keeps_entries, rule ballI, rule assms(1))
  moreover have "short_aggregator (s\<lparr>lastBlock := Some (firstBlock cfg (lastBlock s))\<rparr>)"
    using assms(2) by simp
  ultimately have "reputationEntries (snd (for_each (pastEvents cfg (firstBlock cfg (lastBlock s)))
      (handleEvent cfg) (s\<lparr>lastBlock := Some (firstBlock cfg (lastBlock s))\<rparr>))) = reputationEntries s"
    by (auto dest: keepsD [of _ _ "s\<lparr>lastBlock := Some (firstBlock cfg (lastBlock s))\<rparr>"])
  then show ?thesis by (simp add: handlePastEvents_def Let_def)
qed

definition demo_address :: string where
  "demo_address = ''0x00000000000000000000000000000000000000aa''"

definition demo_event :: "event_args \<Rightarrow> int \<Rightarrow> event_log" where
  "demo_event as n = \<lparr>ev_args = as, blockNumber = n, transactionHash = ''0x01''\<rparr>"

definition demo_events :: event_config where
  "demo_events = \<lparr>ec_mempool = demo_mempool 5, ec_reputation = demo_rep, ec_getBlockNumber = 100,
     ec_queryUserOperation = (\<lambda>_. [demo_event (UserOperationEvent ''0x01'' True demo_address None) 100]),
     ec_queryAccountDeployed = (\<lambda>_. [demo_event (AccountDeployed (Some demo_address)) 90]),
     ec_queryAggregatorChanged = (\<lambda>_. [])\<rparr>"

definition demo_event_state :: event_state where
  "demo_event_state = reputation_state.extend (demo_cron_state [] [(demo_address, newEntry demo_address 900 0)])
     \<lparr>lastBlock = None, eventAggregator = None, eventAggregatorTxHash = None\<rparr>"

lemma demo_event_simps [simp]:
  "lastBlock demo_event_state = None" "eventAggregator demo_event_state = None"
  "reputationEntries demo_event_state = [(demo_address, newEntry demo_address 900 0)]"
  "pastEvents demo_events n = [demo_event (UserOperationEvent ''0x01'' True demo_address None) 100,
     demo_event (AccountDeployed (Some demo_address)) 90]"
  "ec_mempool demo_events = demo_mempool 5" "ec_reputation demo_events = demo_rep"
  "ev_args (demo_event as n) = as" "blockNumber (demo_event as n) = n"
  by (simp_all add: demo_event_state_def demo_events_def pastEvents_def demo_event_def demo_cron_state_def
      demo_state_def initialState_def State.defs reputation_state.defs event_state.defs)

theorem inclusions_are_never_counted_witness:
  "reputationEntries (snd (handlePastEvents demo_events demo_event_state))
     = [(demo_address, newEntry demo_address 900 0)]"
  by (subst inclusions_are_never_counted) (auto simp: demo_address_def short_aggregator_def)

lemma updateIncludedStatus_total:
  fixes s :: "'z event_state_scheme"
  assumes "rm_verify cfg (rm_stateCapability cfg)"
  shows "\<exists>t. updateIncludedStatus cfg a s = (Inr (), t)"
  using assms by (simp add: updateIncludedStatus_def updateEntries_then_run)

lemma includedAddress_total:
  assumes "rm_verify (ec_reputation cfg) (rm_stateCapability (ec_reputation cfg))"
  shows "\<exists>t. includedAddress cfg d (s :: 'z event_state_scheme) = (Inr (), t)"
  by (cases d) (simp_all add: includedAddress_def updateIncludedStatus_total [OF assms])

lemma removeUserOp_total:
  assumes "mp_verify cfg (mp_stateCapability cfg)"
  shows "\<exists>b t. removeUserOp cfg x s = (Inr b, t)"
  by (cases "findEntry x (standardPool s)")
    (auto simp: removeUserOp_def andThen_def readPool_run [OF assms] updatePoolAndCount_run [OF assms])

lemma andThen_total:
  assumes "\<exists>x s'. m s = (Inr x, s')" and "\<And>x s'. \<exists>t. f x s' = (Inr y, t)"
  shows "\<exists>t. andThen m f s = (Inr y, t)"
  using assms by (auto simp: andThen_def)

lemma handleEvent_total:
  assumes "rm_verify (ec_reputation cfg) (rm_stateCapability (ec_reputation cfg))"
    and "mp_verify (ec_mempool cfg) (mp_stateCapability (ec_mempool cfg))"
  shows "\<exists>t. handleEvent cfg ev s = (Inr (), t) \<and> lastBlock t = Some (blockNumber ev + 1)"
proof -
  note incl = includedAddress_total [OF assms(1)]
  have op: "\<exists>t. handleUserOperationEvent cfg ev h ok sd pm s = (Inr (), t)" for h ok sd pm
    unfolding handleUserOperationEvent_def
    by (intro andThen_total)
      (auto simp: incl updateEntryStatus_run [OF assms(2)] getEventAggregator_def
        intro!: andThen_total removeUserOp_total [OF assms(2)])
  have "\<exists>t. (case ev_args ev of
          UserOperationEvent h ok sd pm \<Rightarrow> handleUserOperationEvent cfg ev h ok sd pm
        | AccountDeployed fac \<Rightarrow> includedAddress cfg fac
        | SignatureAggregatorChanged ag \<Rightarrow> handleAggregatorChangedEvent ev ag
        | OtherEvent \<Rightarrow> ret ()) s = (Inr (), t)"
    by (cases "ev_args ev") (simp_all add: op incl handleAggregatorChangedEvent_def)
  then show ?thesis by (auto simp: handleEvent_def andThen_def setLastBlock_def)
qed

lemma for_each_total:
  assumes "\<And>x s. \<exists>t. f x s = (Inr (), t) \<and> P x t"
  shows "\<exists>t. for_each xs f s = (Inr (), t) \<and> (if xs = [] then t = s else P (last xs) t)"
proof (induction xs arbitrary: s)
  case (Cons x xs)
  obtain t where t: "f x s = (Inr (), t)" "P x t" using assms by blast
  from Cons.IH [of t] t show ?case by (cases "xs = []") (auto simp: andThen_def)
qed simp

text \<open>
  After a run of \<open>handlePastEvents\<close> the next run starts behind the block of the last
  event handled. Events are handled query by query, not in the order of the chain, so this is
  not the highest block handled: events behind it are fetched and handled again.
\<close>

theorem past_events_next_block:
  assumes "rm_verify (ec_reputation cfg) (rm_stateCapability (ec_reputation cfg))"
    and "mp_verify (ec_mempool cfg) (mp_stateCapability (ec_mempool cfg))"
    and "events = pastEvents cfg (firstBlock cfg (lastBlock s))"
  shows "\<exists>t. handlePastEvents cfg s = (Inr (), t) \<and>
    lastBlock t = Some (if events = [] then firstBlock cfg (lastBlock s)
                        else blockNumber (last events) + 1)"
proof -
  from for_each_total [where f = "handleEvent cfg" and xs = events
      and s = "s\<lparr>lastBlock := Some (firstBlock cfg (lastBlock s))\<rparr>"
      and P = "\<lambda>ev t. lastBlock t = Some (blockNumber ev + 1)", OF handleEvent_total [OF assms(1,2)]]
  show ?thesis by (auto simp: handlePastEvents_def Let_def assms(3) split: if_splits)
qed

theorem past_events_next_block_witness:
  "\<exists>t. handlePastEvents demo_events demo_event_state = (Inr (), t) \<and> lastBlock t = Some 91 \<and>
     (\<exists>ev \<in> set (pastEvents demo_events 1). 91 < blockNumber ev)"
proof -
  from past_events_next_block [where cfg = demo_events and s = demo_event_state, OF _ _ refl]
  obtain t where "handlePastEvents demo_events demo_event_state = (Inr (), t)" "lastBlock t = Some 91"
    by auto
  then show ?thesis by auto
qed

lemma filterStep_neutral:
  assumes "\<And>l. l \<in> set ls \<Longrightarrow> topic 0 l \<noteq> Some bt \<and> \<not> (topic 0 l = topic 0 ev \<and> topic 1 l = topic 1 ev)"
    and "e \<noteq> - 1"
  shows "fold (filterStep bt ev) ls (i, st, e) = (i + int (length ls), st, e)"
  using assms by (induction ls arbitrary: i) (auto simp: filterStep_def)

lemma filterStep_index: "fst (fold (filterStep bt ev) ls (i, st, e)) = i + int (length ls)"
proof (induction ls arbitrary: i st e)
  case (Cons l ls)
  have "fst (filterStep bt ev l (i, st, e)) = i + 1" by (auto simp: filterStep_def)
  with Cons show ?case by (cases "filterStep bt ev l (i, st, e)") simp
qed simp

text \<open>
  Of a bundle's logs, \<open>filterLogs\<close> returns for an operation every log between the
  \<open>BeforeExecution\<close> event and the operation's own \<open>UserOperationEvent\<close>: for every operation but
  the first this includes the logs and \<open>UserOperationEvent\<close>s of the operations executed before it.
\<close>

theorem filter_logs_starts_at_before_execution:
  assumes "logs = before @ b # mid @ u # after"
    and "topic 0 b = Some bt" and "topic 0 ev \<noteq> Some bt"
    and "topic 0 u = topic 0 ev" and "topic 1 u = topic 1 ev"
    and "\<And>l. l \<in> set mid \<union> set after \<Longrightarrow>
      topic 0 l \<noteq> Some bt \<and> \<not> (topic 0 l = topic 0 ev \<and> topic 1 l = topic 1 ev)"
  shows "filterLogs (Some bt) ev logs = Right mid"
proof -
  let ?n = "int (length before)"
  obtain st e where pre: "fold (filterStep bt ev) before (0, - 1, - 1) = (?n, st, e)"
    using filterStep_index [of bt ev before 0 "- 1" "- 1"] by (metis add_0 prod.collapse)
  have at_b: "filterStep bt ev b (?n, st, e) = (?n + 1, ?n, ?n)"
    by (simp add: filterStep_def assms(2))
  have at_u: "filterStep bt ev u (?n + 1 + int (length mid), ?n, ?n)
      = (?n + 2 + int (length mid), ?n, ?n + 1 + int (length mid))"
    using assms(3-5) by (simp add: filterStep_def)
  have mid: "fold (filterStep bt ev) mid (?n + 1, ?n, ?n) = (?n + 1 + int (length mid), ?n, ?n)"
    using assms(6) by (intro filterStep_neutral) auto
  have after: "fold (filterStep bt ev) after
      (?n + 2 + int (length mid), ?n, ?n + 1 + int (length mid))
      = (?n + 2 + int (length mid) + int (length after), ?n, ?n + 1 + int (length mid))"
    using assms(6) by (intro filterStep_neutral) auto
  have "fold (filterStep bt ev) logs (0, - 1, - 1)
      = (?n + 2 + int (length mid) + int (length after), ?n, ?n + 1 + int (length mid))"
    by (simp add: assms(1) pre at_b mid at_u after)
  then have "filterLogs (Some bt) ev logs
      = Right (take (length mid) (drop (Suc (length before)) logs))"
    by (simp add: filterLogs_def filterLogsBy_def nat_add_distrib)
  then show ?thesis by (simp add: assms(1))
qed

theorem filter_logs_starts_at_before_execution_witness:
  "filterLogs (Some ''before'') [''uoe'', ''op2'']
     [[''before''], [''transfer'', ''op1''], [''uoe'', ''op1''], [''transfer'', ''op2''], [''uoe'', ''op2'']]
   = Right [[''transfer'', ''op1''], [''uoe'', ''op1''], [''transfer'', ''op2'']]"
  by (rule filter_logs_starts_at_before_execution
      [where before = "[]" and b = "[''before'']" and u = "[''uoe'', ''op2'']" and after = "[]"])
    (auto simp: topic_def)

end
