(* ===== verification/Bundle_Helpers.thy ===== *)
theory Bundle_Helpers
  imports Mempool_Spec
begin

text \<open>
  The pure helpers of the bundler: \<open>src/bundle/bundle.helper.ts\<close> and
  \<open>src/bundle/builder/builder.helpers.ts\<close>.

  A caught error is what the code reads of it: its message, the code of its \<open>error\<close> field, and
  what the entry point's \<open>interface.parseError\<close> (package \<open>ethers\<close>) makes of its data. The
  recovery of an authorization's signer is a parameter.
\<close>

section \<open>Errors of handleOps\<close>

datatype parsed_revert = Parse_throws | Parse_null | Parsed_revert int string

record caught =
  ce_message :: "string option"
  ce_error_code :: "int option"
  ce_parsed :: parsed_revert

definition checkFatal :: "caught \<Rightarrow> bool" where
  "checkFatal e \<longleftrightarrow> ce_error_code e = Some (-32601)"

text \<open>Matching \<open>/FailedOp\w*\((\d+),"(.*?)"/\<close> at a position.\<close>

definition is_word_char :: "char \<Rightarrow> bool" where
  "is_word_char c \<longleftrightarrow> digit_value c < 36 \<or> c = CHR ''_''"

fun strip_prefix :: "string \<Rightarrow> string \<Rightarrow> string option" where
  "strip_prefix [] s = Some s"
| "strip_prefix (p # ps) [] = None"
| "strip_prefix (p # ps) (c # s) = (if p = c then strip_prefix ps s else None)"

definition matchFailedOpHere :: "string \<Rightarrow> (int \<times> string) option" where
  "matchFailedOpHere s =
     (case strip_prefix ''FailedOp'' s of
        None \<Rightarrow> None
      | Some s1 \<Rightarrow>
          (case strip_prefix ''('' (dropWhile is_word_char s1) of
             None \<Rightarrow> None
           | Some s2 \<Rightarrow>
               (let ds = takeWhile (\<lambda>c. digit_value c < 10) s2 in
                if ds = [] then None
                else case strip_prefix '',\"'' (drop (length ds) s2) of
                  None \<Rightarrow> None
                | Some s3 \<Rightarrow>
                    (let r = takeWhile (\<lambda>c. c \<noteq> CHR 0x22 \<and> c \<noteq> CHR 0x0A \<and> c \<noteq> CHR 0x0D) s3 in
                     if drop (length r) s3 \<noteq> [] \<and> hd (drop (length r) s3) = CHR 0x22
                     then Some (int (digits_value 10 ds), r) else None))))"

fun matchFailedOp :: "string \<Rightarrow> (int \<times> string) option" where
  "matchFailedOp [] = None"
| "matchFailedOp (c # s) =
     (case matchFailedOpHere (c # s) of Some r \<Rightarrow> Some r | None \<Rightarrow> matchFailedOp s)"

text \<open>\<open>parseFailedOpRevert\<close>: \<open>None\<close> is the object with undefined members.\<close>

definition parseFailedOpRevert :: "caught \<Rightarrow> exn + (int \<times> string) option" where
  "parseFailedOpRevert e =
     (case (case ce_message e of None \<Rightarrow> None | Some m \<Rightarrow> matchFailedOp m) of
        Some r \<Rightarrow> Inr (Some r)
      | None \<Rightarrow>
          (case ce_parsed e of
             Parse_throws \<Rightarrow> Inr None
           | Parse_null \<Rightarrow> Inl (TypeErrorExn ''Cannot read properties of null'')
           | Parsed_revert i r \<Rightarrow> Inr (Some (i, r))))"

text \<open>The first code of a revert reason decides who is accountable.\<close>

definition startsWith :: "string \<Rightarrow> string \<Rightarrow> bool" where
  "startsWith p s \<longleftrightarrow> take (length p) s = p"

definition isStaked :: "reputation_config \<Rightarrow> string \<Rightarrow> bool" where
  "isStaked cfg a = snd (getStakeStatus cfg a)"

definition findEntityToBlame ::
  "reputation_config \<Rightarrow> string \<Rightarrow> user_operation \<Rightarrow> string option" where
  "findEntityToBlame cfg reasonStr userOp =
     (if startsWith ''AA3'' reasonStr then
        (if isStaked cfg (sender userOp) then Some (sender userOp) else paymaster userOp)
      else if startsWith ''AA2'' reasonStr then
        (if (case factory userOp of None \<Rightarrow> False | Some f \<Rightarrow> isStaked cfg f)
         then factory userOp else Some (sender userOp))
      else if startsWith ''AA1'' reasonStr then factory userOp
      else None)"

section \<open>Whether an operation goes into the bundle\<close>

definition incrementCount :: "int js_object \<Rightarrow> string \<Rightarrow> int js_object" where
  "incrementCount counts key = AList.update key (countOf counts key + 1) counts"

definition isEntityThrottled ::
  "string option \<Rightarrow> reputation_status \<Rightarrow> int js_object \<Rightarrow> int \<Rightarrow> bool" where
  "isEntityThrottled entity status stakedEntityCount throttledEntityBundleCount =
     (if \<not> truthy entity then False
      else status = THROTTLED \<and> countOf stakedEntityCount (the entity) \<ge> throttledEntityBundleCount)"

definition accessesOtherSendersStorage ::
  "validate_user_op_result \<Rightarrow> string \<Rightarrow> string list \<Rightarrow> bool" where
  "accessesOtherSendersStorage vr sd knownSenders =
     list_ex (\<lambda>adr. toLowerCase adr \<noteq> toLowerCase sd \<and> toLowerCase adr \<in> set knownSenders)
       (map fst (vr_storageMap vr))"

definition userOpGasCost :: "validate_user_op_result \<Rightarrow> user_operation \<Rightarrow> int" where
  "userOpGasCost vr userOp = ri_preOpGas (vr_returnInfo vr) + callGasLimit userOp"

definition exceedBundleGasLimit ::
  "validate_user_op_result \<Rightarrow> user_operation \<Rightarrow> int \<Rightarrow> int \<Rightarrow> bool" where
  "exceedBundleGasLimit vr userOp totalGas maxBundleGas \<longleftrightarrow>
     totalGas + userOpGasCost vr userOp > maxBundleGas"

text \<open>Comparing with a missing deposit (\<open>undefined\<close>) is false.\<close>

definition paymasterHasInsufficientDeposit ::
  "string \<Rightarrow> validate_user_op_result \<Rightarrow> int js_object \<Rightarrow> bool" where
  "paymasterHasInsufficientDeposit pm vr paymasterDeposit =
     (case map_of paymasterDeposit pm of
        None \<Rightarrow> False | Some d \<Rightarrow> d < ri_prefund (vr_returnInfo vr))"

datatype skip_reason = banned | throttled | duplicate_sender | access_other_sender_storage
  | exceeds_bundler_gas_limit | paymaster_insufficient_deposit

text \<open>\<open>shouldIncludeInBundle\<close>: \<open>None\<close> includes the operation.\<close>

definition shouldIncludeInBundle ::
  "user_operation \<Rightarrow> reputation_status \<Rightarrow> reputation_status \<Rightarrow> validate_user_op_result \<Rightarrow>
   int js_object \<Rightarrow> int js_object \<Rightarrow> int \<Rightarrow> int \<Rightarrow> int \<Rightarrow> string list \<Rightarrow> string list \<Rightarrow>
   skip_reason option" where
  "shouldIncludeInBundle userOp paymasterStatus factoryStatus vr stakedEntityCount paymasterDeposit
     throttledEntityBundleCount totalGas maxBundleGas knownSenders senders =
     (if paymasterStatus = BANNED \<or> factoryStatus = BANNED then Some banned
      else if isEntityThrottled (paymaster userOp) paymasterStatus stakedEntityCount
                throttledEntityBundleCount then Some throttled
      else if isEntityThrottled (factory userOp) factoryStatus stakedEntityCount
                throttledEntityBundleCount then Some throttled
      else if sender userOp \<in> set senders then Some duplicate_sender
      else if accessesOtherSendersStorage vr (sender userOp) knownSenders
        then Some access_other_sender_storage
      else if exceedBundleGasLimit vr userOp totalGas maxBundleGas
        then Some exceeds_bundler_gas_limit
      else if truthy (paymaster userOp) \<and>
              paymasterHasInsufficientDeposit (the (paymaster userOp)) vr paymasterDeposit
        then Some paymaster_insufficient_deposit
      else None)"

text \<open>
  \<open>updateEntityStakeCountAndDeposit\<close>: the count for the factory starts from the counts before
  the paymaster's was raised.
\<close>

definition updateEntityStakeCountAndDeposit ::
  "user_operation \<Rightarrow> validate_user_op_result \<Rightarrow> int js_object \<Rightarrow> int js_object \<Rightarrow>
   int js_object \<times> int js_object" where
  "updateEntityStakeCountAndDeposit userOp vr stakedEntityCount paymasterDeposit =
     (let newPaymasterDeposit =
            (if truthy (paymaster userOp)
             then AList.update (the (paymaster userOp))
                    (countOf paymasterDeposit (the (paymaster userOp)) - ri_prefund (vr_returnInfo vr))
                    paymasterDeposit
             else paymasterDeposit);
          c1 = (if truthy (paymaster userOp)
                then incrementCount stakedEntityCount (the (paymaster userOp)) else stakedEntityCount);
          c2 = (if truthy (factory userOp)
                then incrementCount stakedEntityCount (the (factory userOp)) else c1)
      in (c2, newPaymasterDeposit))"

section \<open>EIP-7702 authorizations\<close>

definition getAuthorizationList :: "user_operation \<Rightarrow> eip7702_authorization list" where
  "getAuthorizationList userOp = (case eip7702Auth userOp of None \<Rightarrow> [] | Some a \<Rightarrow> [a])"

fun mergeAuthorizations ::
  "(eip7702_authorization \<Rightarrow> string) \<Rightarrow> eip7702_authorization list \<Rightarrow> eip7702_authorization list \<Rightarrow>
   bool \<times> eip7702_authorization list" where
  "mergeAuthorizations signer_of [] authList = (True, authList)"
| "mergeAuthorizations signer_of (a # as) authList =
     (case List.find (\<lambda>it. signer_of it = signer_of a) authList of
        None \<Rightarrow> mergeAuthorizations signer_of as (authList @ [a])
      | Some existing \<Rightarrow>
          if toLowerCase (auth_address existing) \<noteq> toLowerCase (auth_address a)
          then (False, authList) else mergeAuthorizations signer_of as authList)"

definition mergeEip7702Authorizations ::
  "(eip7702_authorization \<Rightarrow> string) \<Rightarrow> mempool_entry \<Rightarrow> eip7702_authorization list \<Rightarrow>
   bool \<times> eip7702_authorization list" where
  "mergeEip7702Authorizations signer_of entry authList =
     mergeAuthorizations signer_of (getAuthorizationList (me_userOp entry)) authList"

section \<open>Lemmas\<close>

text \<open>Authorizations of one signer never name two delegates.\<close>

definition auths_ok :: "(eip7702_authorization \<Rightarrow> string) \<Rightarrow> eip7702_authorization list \<Rightarrow> bool" where
  "auths_ok signer_of as \<longleftrightarrow> distinct (map signer_of as)"

lemma mergeAuthorizations_ok:
  "auths_ok sg authList \<Longrightarrow> auths_ok sg (snd (mergeAuthorizations sg as authList))"
proof (induction sg as authList rule: mergeAuthorizations.induct)
  case (2 sg a as authList)
  show ?case
  proof (cases "List.find (\<lambda>it. sg it = sg a) authList")
    case None
    then have "sg a \<notin> sg ` set authList" by (auto simp: find_None_iff dest: sym)
    with 2 None show ?thesis by (simp add: auths_ok_def)
  next
    case (Some b)
    with 2 show ?thesis by simp
  qed
qed simp

lemma mergeAuthorizations_mono:
  "set authList \<subseteq> set (snd (mergeAuthorizations sg as authList))"
  by (induction sg as authList rule: mergeAuthorizations.induct) (auto split: option.splits)

lemma mergeAuthorizations_covers:
  "fst (mergeAuthorizations sg as authList) \<Longrightarrow> a \<in> set as \<Longrightarrow>
   \<exists>b \<in> set (snd (mergeAuthorizations sg as authList)). sg b = sg a \<and>
     toLowerCase (auth_address b) = toLowerCase (auth_address a)"
proof (induction sg as authList rule: mergeAuthorizations.induct)
  case (2 sg x as authList)
  show ?case
  proof (cases "List.find (\<lambda>it. sg it = sg x) authList")
    case None
    with 2 mergeAuthorizations_mono [of "authList @ [x]" sg as] show ?thesis by auto
  next
    case (Some b)
    then have "b \<in> set authList" "sg b = sg x"
      by (auto simp: find_Some_iff in_set_conv_nth)
    with 2 Some mergeAuthorizations_mono [of authList sg as] show ?thesis
      by (auto split: if_splits)
  qed
qed simp

lemma shouldInclude_None:
  "shouldIncludeInBundle op ps fs vr co dp lim g mx known sds = None \<longleftrightarrow>
     ps \<noteq> BANNED \<and> fs \<noteq> BANNED \<and> \<not> isEntityThrottled (paymaster op) ps co lim \<and>
     \<not> isEntityThrottled (factory op) fs co lim \<and> sender op \<notin> set sds \<and>
     \<not> accessesOtherSendersStorage vr (sender op) known \<and>
     g + userOpGasCost vr op \<le> mx \<and>
     \<not> (truthy (paymaster op) \<and> paymasterHasInsufficientDeposit (the (paymaster op)) vr dp)"
  by (auto simp: shouldIncludeInBundle_def exceedBundleGasLimit_def)

text \<open>
  A paymaster used together with a factory is not counted: the count of the factory
  is built on the counts before the paymaster's was raised, so the limit of four operations per
  bundle for a throttled paymaster never applies to operations that also deploy their account.
\<close>

theorem factory_hides_paymaster_count:
  assumes "truthy (paymaster op)" and "truthy (factory op)" and "paymaster op \<noteq> factory op"
  shows "let counts' = fst (updateEntityStakeCountAndDeposit op vr counts deposits) in
    countOf counts' (the (factory op)) = countOf counts (the (factory op)) + 1 \<and>
    countOf counts' (the (paymaster op)) = countOf counts (the (paymaster op))"
  using assms
  by (auto simp: updateEntityStakeCountAndDeposit_def incrementCount_def countOf_def Let_def truthy_iff)

definition demo_validation :: "int \<Rightarrow> validate_user_op_result" where
  "demo_validation prefund =
     \<lparr>vr_returnInfo = \<lparr>ri_preOpGas = 0, ri_prefund = prefund, ri_sigFailed = False,
        ri_validAfter = 0, ri_validUntil = None\<rparr>,
      vr_senderInfo = \<lparr>si_addr = ''0x1'', si_stake = 0, si_unstakeDelaySec = 0\<rparr>,
      vr_factoryInfo = None, vr_paymasterInfo = None, vr_paymasterContext = None,
      vr_aggregatorInfo = None,
      vr_referencedContracts = \<lparr>rc_addresses = [], rc_hash = ''0x''\<rparr>, vr_storageMap = []\<rparr>"

lemma demo_validation_simps [simp]:
  "vr_storageMap (demo_validation n) = []" "ri_prefund (vr_returnInfo (demo_validation n)) = n"
  "ri_preOpGas (vr_returnInfo (demo_validation n)) = 0"
  by (simp_all add: demo_validation_def)

theorem factory_hides_paymaster_count_witness:
  "countOf (fst (updateEntityStakeCountAndDeposit
      ((demo_op ''0x1'' 0 (Some ''0xaa'') 1)\<lparr>factory := Some ''0xff''\<rparr>) (demo_validation 1) [] [])) ''0xaa'' = 0"
  using factory_hides_paymaster_count
    [where op = "(demo_op ''0x1'' 0 (Some ''0xaa'') 1)\<lparr>factory := Some ''0xff''\<rparr>" and counts = "[]"
      and vr = "demo_validation 1" and deposits = "[]"]
  by (simp add: Let_def countOf_def demo_op_def)

end
