(* ===== verification/Bundle_Builder.thy ===== *)
theory Bundle_Builder
  imports Bundle_Helpers
begin

text \<open>
  The bundle builder of \<open>src/bundle/builder/bundle-builder.ts\<close>. The validation service enters
  as the result of \<open>validateUserOp\<close> for an operation (it may throw), the entry point as
  \<open>balanceOf\<close> and \<open>parseError\<close>.
\<close>

record builder_config =
  bb_mempool :: mempool_config
  bb_reputation :: reputation_config
  bb_validate :: "user_operation \<Rightarrow> referenced_code_hashes option \<Rightarrow>
    exn + (rpc_error, validate_user_op_result) either"
  bb_balanceOf :: "string \<Rightarrow> int"
  bb_parseError :: "js \<Rightarrow> parsed_revert"
  bb_signer_of :: "eip7702_authorization \<Rightarrow> string"
  bb_maxBundleGas :: int

datatype remove_reason = failed_2nd_validation | entity_banned

record remove_details =
  rd_userOpHash :: string
  rd_userOp :: user_operation
  rd_reason :: remove_reason
  rd_err :: "rpc_error option"

record bundle_acc =
  ba_bundle :: "user_operation list"
  ba_storageMap :: storage_map
  ba_eip7702Tuples :: "eip7702_authorization list"
  ba_notIncluded :: "string list"
  ba_marked :: "remove_details list"
  ba_totalGas :: int
  ba_paymasterDeposit :: "int js_object"
  ba_stakedEntityCount :: "int js_object"
  ba_senders :: "string list"

definition initialAcc :: bundle_acc where
  "initialAcc = \<lparr>ba_bundle = [], ba_storageMap = [], ba_eip7702Tuples = [], ba_notIncluded = [],
     ba_marked = [], ba_totalGas = 0, ba_paymasterDeposit = [], ba_stakedEntityCount = [],
     ba_senders = []\<rparr>"

lemma initialAcc_fields [simp]:
  "ba_bundle initialAcc = []" "ba_notIncluded initialAcc = []" "ba_marked initialAcc = []"
  by (simp_all add: initialAcc_def)

definition THROTTLED_ENTITY_BUNDLE_COUNT :: int where "THROTTLED_ENTITY_BUNDLE_COUNT = 4"

section \<open>Building\<close>

text \<open>The \<open>RpcError\<close> made of a caught exception.\<close>

fun rpc_of_exn :: "exn \<Rightarrow> rpc_error" where
  "rpc_of_exn (RpcExn e) = e"
| "rpc_of_exn (ErrorExn m) = RpcError m InternalError"
| "rpc_of_exn (TypeErrorExn m) = RpcError m InternalError"
| "rpc_of_exn (SyntaxErrorExn m) = RpcError m InternalError"

definition validateUserOperation ::
  "builder_config \<Rightarrow> mempool_entry \<Rightarrow> (rpc_error, validate_user_op_result) either" where
  "validateUserOperation cfg entry =
     (case bb_validate cfg (me_userOp entry) (me_referencedContracts entry) of
        Inl e \<Rightarrow> Left (rpc_of_exn e)
      | Inr r \<Rightarrow> r)"

text \<open>A deposit of zero is falsy, so it is read again.\<close>

definition knownDeposit :: "builder_config \<Rightarrow> user_operation \<Rightarrow> bundle_acc \<Rightarrow> bundle_acc" where
  "knownDeposit cfg userOp acc =
     (if truthy (paymaster userOp) \<and>
         (map_of (ba_paymasterDeposit acc) (the (paymaster userOp)) = None \<or>
          map_of (ba_paymasterDeposit acc) (the (paymaster userOp)) = Some 0)
      then acc\<lparr>ba_paymasterDeposit := AList.update (the (paymaster userOp))
             (bb_balanceOf cfg (the (paymaster userOp))) (ba_paymasterDeposit acc)\<rparr>
      else acc)"

definition includeEntry ::
  "builder_config \<Rightarrow> mempool_entry \<Rightarrow> validate_user_op_result \<Rightarrow> bundle_acc \<Rightarrow> bundle_acc" where
  "includeEntry cfg entry vr acc =
     (let userOp = me_userOp entry;
          (counts, deposits) = updateEntityStakeCountAndDeposit userOp vr
             (ba_stakedEntityCount acc) (ba_paymasterDeposit acc);
          acc1 = acc\<lparr>ba_stakedEntityCount := counts, ba_paymasterDeposit := deposits,
             ba_storageMap := mergeStorageMap (ba_storageMap acc) (vr_storageMap vr)\<rparr>;
          (mergeOk, tuples) = mergeEip7702Authorizations (bb_signer_of cfg) entry
             (ba_eip7702Tuples acc1);
          acc2 = acc1\<lparr>ba_eip7702Tuples := tuples\<rparr>
      in if \<not> mergeOk then acc2
         else acc2\<lparr>ba_bundle := ba_bundle acc2 @ [userOp],
                ba_totalGas := ba_totalGas acc2 + userOpGasCost vr userOp,
                ba_senders := ba_senders acc2 @ [sender userOp]\<rparr>)"

definition decideEntry ::
  "builder_config \<Rightarrow> string list \<Rightarrow> mempool_entry \<Rightarrow> reputation_status \<Rightarrow> reputation_status \<Rightarrow>
   bundle_acc \<Rightarrow> bundle_acc" where
  "decideEntry cfg knownSenders entry paymasterStatus factoryStatus acc =
     (let userOp = me_userOp entry in
      case validateUserOperation cfg entry of
        Left e \<Rightarrow>
          acc\<lparr>ba_marked := ba_marked acc @ [\<lparr>rd_userOpHash = me_userOpHash entry,
                rd_userOp = userOp, rd_reason = failed_2nd_validation, rd_err = Some e\<rparr>]\<rparr>
      | Right vr \<Rightarrow>
          (case shouldIncludeInBundle userOp paymasterStatus factoryStatus vr
                  (ba_stakedEntityCount acc) (ba_paymasterDeposit acc)
                  THROTTLED_ENTITY_BUNDLE_COUNT (ba_totalGas acc) (bb_maxBundleGas cfg)
                  knownSenders (ba_senders acc) of
             Some reason \<Rightarrow>
               (if reason = banned
                then acc\<lparr>ba_marked := ba_marked acc @ [\<lparr>rd_userOpHash = me_userOpHash entry,
                       rd_userOp = userOp, rd_reason = entity_banned, rd_err = None\<rparr>]\<rparr>
                else acc\<lparr>ba_notIncluded := ba_notIncluded acc @ [me_userOpHash entry]\<rparr>)
           | None \<Rightarrow> includeEntry cfg entry vr acc))"

definition buildStep ::
  "builder_config \<Rightarrow> string list \<Rightarrow> mempool_entry \<Rightarrow> bundle_acc \<Rightarrow> ('z State_scheme, bundle_acc) act" where
  "buildStep cfg knownSenders entry acc =
     andThen (getStatus (bb_reputation cfg) (paymaster (me_userOp entry)))
       (\<lambda>paymasterStatus. andThen (getStatus (bb_reputation cfg) (factory (me_userOp entry)))
       (\<lambda>factoryStatus. ret (decideEntry cfg knownSenders entry paymasterStatus factoryStatus
          (knownDeposit cfg (me_userOp entry) acc))))"

fun buildBundle ::
  "builder_config \<Rightarrow> string list \<Rightarrow> mempool_entry list \<Rightarrow> bundle_acc \<Rightarrow>
   ('z State_scheme, bundle_acc) act" where
  "buildBundle cfg knownSenders [] acc = ret acc"
| "buildBundle cfg knownSenders (entry # entries) acc =
     andThen (buildStep cfg knownSenders entry acc) (buildBundle cfg knownSenders entries)"

section \<open>The after hook\<close>

definition revert_data :: "js \<Rightarrow> js" where
  "revert_data d = (case d of
     Obj fs \<Rightarrow> (case map_of fs ''data'' of
        None \<Rightarrow> d | Some x \<Rightarrow> if x = Undefined \<or> x = Null then d else x)
   | _ \<Rightarrow> d)"

definition caught_rpc :: "builder_config \<Rightarrow> rpc_error \<Rightarrow> caught" where
  "caught_rpc cfg e = \<lparr>ce_message = Some (err_msg e), ce_error_code = None,
     ce_parsed = bb_parseError cfg (revert_data (err_data e))\<rparr>"

text \<open>
  The body of the loop over the operations to remove: \<open>False\<close> is its \<open>return\<close>. The test
  \<open>addr !== null\<close> also holds of \<open>undefined\<close>.
\<close>

definition removeOne :: "builder_config \<Rightarrow> remove_details \<Rightarrow> ('z State_scheme, bool) act" where
  "removeOne cfg d =
     (let remove = removeUserOp (bb_mempool cfg) (By_hash (rd_userOpHash d));
          finish = andThen remove (\<lambda>_. ret True)
      in case (rd_reason d, rd_err d) of
        (failed_2nd_validation, Some e) \<Rightarrow>
          (case parseFailedOpRevert (caught_rpc cfg e) of
             Inl ex \<Rightarrow> throw ex
           | Inr None \<Rightarrow>
               (if checkFatal (caught_rpc cfg e) then throw (RpcExn e)
                else andThen remove (\<lambda>_. ret False))
           | Inr (Some (opIndex, reasonStr)) \<Rightarrow>
               (let op = rd_userOp d; rep = bb_reputation cfg;
                    adr = findEntityToBlame rep reasonStr op
                in andThen (updateSeenStatus rep (Some (sender op)) decrement)
                   (\<lambda>_. andThen (updateSeenStatus rep (paymaster op) decrement)
                   (\<lambda>_. andThen (updateSeenStatus rep (factory op) decrement)
                   (\<lambda>_. andThen (updateSeenStatus rep adr increment) (\<lambda>_. finish))))))
      | _ \<Rightarrow> finish)"

fun removeMarked :: "builder_config \<Rightarrow> remove_details list \<Rightarrow> ('z State_scheme, unit) act" where
  "removeMarked cfg [] = ret ()"
| "removeMarked cfg (d # ds) =
     andThen (removeOne cfg d) (\<lambda>continue. if continue then removeMarked cfg ds else ret ())"

definition builderAfterHook ::
  "builder_config \<Rightarrow> string list \<Rightarrow> remove_details list \<Rightarrow> ('z State_scheme, unit) act" where
  "builderAfterHook cfg notIncluded marked =
     andThen (for_each notIncluded (\<lambda>h. updateEntryStatus (bb_mempool cfg) (By_hash h) pending))
       (\<lambda>_. removeMarked cfg marked)"

section \<open>Creating a bundle\<close>

definition getEntries :: "builder_config \<Rightarrow> bool \<Rightarrow> ('z State_scheme, mempool_entry list) act" where
  "getEntries cfg force =
     andThen (mp_size (bb_mempool cfg))
       (\<lambda>n. if n = 0 then ret []
            else if force then getAllPending (bb_mempool cfg) else getNextPending (bb_mempool cfg))"

type_synonym bundle_ready = "user_operation list \<times> storage_map \<times> eip7702_authorization list"

definition createBundle :: "builder_config \<Rightarrow> bool \<Rightarrow> ('z State_scheme, bundle_ready) act" where
  "createBundle cfg force =
     andThen (getEntries cfg force)
       (\<lambda>entries. if entries = [] then ret ([], [], [])
         else andThen (mp_getKnownSenders (bb_mempool cfg))
           (\<lambda>knownSenders. andThen (buildBundle cfg knownSenders entries initialAcc)
             (\<lambda>acc. andThen (builderAfterHook cfg (ba_notIncluded acc) (ba_marked acc))
               (\<lambda>_. ret (ba_bundle acc, ba_storageMap acc, ba_eip7702Tuples acc)))))"

section \<open>What building guarantees\<close>

lemma buildStep_state [simp]: "snd (buildStep cfg known e acc s) = s"
  by (rule keeps_same) (auto simp: buildStep_def intro!: keeps_andThen)

lemma buildStep_Inr:
  assumes "buildStep cfg known e acc s = (Inr acc', s')"
  shows "s' = s \<and> acc' = decideEntry cfg known e (statusIn s (paymaster (me_userOp e)))
    (statusIn s (factory (me_userOp e))) (knownDeposit cfg (me_userOp e) acc)"
proof -
  have ok: "rm_verify (bb_reputation cfg) (rm_stateCapability (bb_reputation cfg))"
    using assms by (auto simp: buildStep_def andThen_def getStatus_def getState_def split: if_splits)
  have "s' = s" using buildStep_state [of cfg known e acc s] by (simp add: assms)
  with assms show ?thesis by (simp add: buildStep_def andThen_def getStatus_run [OF ok])
qed

text \<open>An invariant of the accumulator, step by step, over the entries processed so far.\<close>

lemma buildBundle_invariant:
  assumes "buildBundle cfg known entries acc s = (Inr acc', s')" and "J [] acc"
    and "\<And>done e acc. J done acc \<Longrightarrow> e \<in> set entries \<Longrightarrow>
      J (done @ [e]) (decideEntry cfg known e (statusIn s (paymaster (me_userOp e)))
        (statusIn s (factory (me_userOp e))) (knownDeposit cfg (me_userOp e) acc))"
  shows "J entries acc' \<and> s' = s"
proof -
  have "J (before @ entries) acc' \<and> s' = s"
    if "buildBundle cfg known entries acc s = (Inr acc', s')" "J before acc"
      "\<And>done e acc. J done acc \<Longrightarrow> e \<in> set entries \<Longrightarrow>
        J (done @ [e]) (decideEntry cfg known e (statusIn s (paymaster (me_userOp e)))
        (statusIn s (factory (me_userOp e))) (knownDeposit cfg (me_userOp e) acc))"
    for before entries acc
    using that
  proof (induction entries arbitrary: before acc)
    case (Cons e entries)
    from Cons.prems(1) obtain acc1 s1 where step: "buildStep cfg known e acc s = (Inr acc1, s1)"
      and rest: "buildBundle cfg known entries acc1 s1 = (Inr acc', s')"
      by (auto elim: andThen_InrE)
    from buildStep_Inr [OF step] Cons.prems(2,3) have "J (before @ [e]) acc1" "s1 = s" by auto
    with Cons.IH [of acc1 "before @ [e]"] rest Cons.prems(3) show ?case by simp
  qed simp
  from this [of entries acc "[]"] assms show ?thesis by simp
qed

definition opGas :: "builder_config \<Rightarrow> mempool_entry \<Rightarrow> int" where
  "opGas cfg e = (case validateUserOperation cfg e of
     Left _ \<Rightarrow> 0 | Right vr \<Rightarrow> userOpGasCost vr (me_userOp e))"

text \<open>An operation that passed the second validation and no rule of its own forbids.\<close>

definition admissible :: "builder_config \<Rightarrow> string list \<Rightarrow> 'z State_scheme \<Rightarrow> mempool_entry \<Rightarrow> bool" where
  "admissible cfg known s e = (case validateUserOperation cfg e of
     Left _ \<Rightarrow> False
   | Right vr \<Rightarrow> statusIn s (paymaster (me_userOp e)) \<noteq> BANNED \<and>
       statusIn s (factory (me_userOp e)) \<noteq> BANNED \<and>
       \<not> accessesOtherSendersStorage vr (sender (me_userOp e)) known)"

definition authorized_by ::
  "builder_config \<Rightarrow> eip7702_authorization list \<Rightarrow> user_operation \<Rightarrow> bool" where
  "authorized_by cfg auths op \<longleftrightarrow> (\<forall>a. eip7702Auth op = Some a \<longrightarrow>
     (\<exists>b \<in> set auths. bb_signer_of cfg b = bb_signer_of cfg a \<and>
        toLowerCase (auth_address b) = toLowerCase (auth_address a)))"

definition bundle_inv ::
  "builder_config \<Rightarrow> string list \<Rightarrow> 'z State_scheme \<Rightarrow> mempool_entry list \<Rightarrow> bundle_acc \<Rightarrow> bool" where
  "bundle_inv cfg known s done acc \<longleftrightarrow>
     (\<exists>inc. set inc \<subseteq> set done \<and> ba_bundle acc = map me_userOp inc \<and>
        ba_senders acc = map sender (ba_bundle acc) \<and> distinct (ba_senders acc) \<and>
        ba_totalGas acc = sum_list (map (opGas cfg) inc) \<and>
        ba_totalGas acc \<le> max 0 (bb_maxBundleGas cfg) \<and>
        auths_ok (bb_signer_of cfg) (ba_eip7702Tuples acc) \<and>
        (\<forall>e \<in> set inc. admissible cfg known s e \<and> authorized_by cfg (ba_eip7702Tuples acc) (me_userOp e)))"

lemma authorized_mono:
  "authorized_by cfg auths op \<Longrightarrow> set auths \<subseteq> set auths' \<Longrightarrow> authorized_by cfg auths' op"
  unfolding authorized_by_def by blast

lemma merge_7702:
  assumes "mergeEip7702Authorizations (bb_signer_of cfg) e auths = (ok, auths')"
  shows "set auths \<subseteq> set auths'" and "auths_ok (bb_signer_of cfg) auths \<Longrightarrow> auths_ok (bb_signer_of cfg) auths'"
    and "ok \<Longrightarrow> authorized_by cfg auths' (me_userOp e)"
proof -
  let ?as = "getAuthorizationList (me_userOp e)"
  show "set auths \<subseteq> set auths'" "auths_ok (bb_signer_of cfg) auths \<Longrightarrow> auths_ok (bb_signer_of cfg) auths'"
    using assms mergeAuthorizations_mono [of auths "bb_signer_of cfg" ?as]
      mergeAuthorizations_ok [of "bb_signer_of cfg" auths ?as]
    by (simp_all add: mergeEip7702Authorizations_def)
  show "authorized_by cfg auths' (me_userOp e)" if ok
    using assms that mergeAuthorizations_covers [of "bb_signer_of cfg" ?as auths]
    by (auto simp: mergeEip7702Authorizations_def authorized_by_def getAuthorizationList_def)
qed

lemma knownDeposit_fields [simp]:
  "ba_bundle (knownDeposit cfg op acc) = ba_bundle acc"
  "ba_senders (knownDeposit cfg op acc) = ba_senders acc"
  "ba_totalGas (knownDeposit cfg op acc) = ba_totalGas acc"
  "ba_eip7702Tuples (knownDeposit cfg op acc) = ba_eip7702Tuples acc"
  "ba_notIncluded (knownDeposit cfg op acc) = ba_notIncluded acc"
  "ba_marked (knownDeposit cfg op acc) = ba_marked acc"
  by (simp_all add: knownDeposit_def)

lemma bundle_inv_cong:
  assumes "bundle_inv cfg known s done acc" and "ba_bundle acc' = ba_bundle acc"
    and "ba_senders acc' = ba_senders acc" and "ba_totalGas acc' = ba_totalGas acc"
    and "ba_eip7702Tuples acc' = ba_eip7702Tuples acc"
  shows "bundle_inv cfg known s (done @ [e]) acc'"
  using assms unfolding bundle_inv_def by (auto intro: exI)

lemma includeEntry_inv:
  assumes "bundle_inv cfg known s done acc" and "validateUserOperation cfg e = Right vr"
    and "statusIn s (paymaster (me_userOp e)) \<noteq> BANNED" "statusIn s (factory (me_userOp e)) \<noteq> BANNED"
    and "sender (me_userOp e) \<notin> set (ba_senders acc)"
    and "\<not> accessesOtherSendersStorage vr (sender (me_userOp e)) known"
    and "ba_totalGas acc + userOpGasCost vr (me_userOp e) \<le> bb_maxBundleGas cfg"
  shows "bundle_inv cfg known s (done @ [e]) (includeEntry cfg e vr acc)"
proof -
  obtain c d where cd: "updateEntityStakeCountAndDeposit (me_userOp e) vr (ba_stakedEntityCount acc)
      (ba_paymasterDeposit acc) = (c, d)" by fastforce
  obtain ok auths where merge: "mergeEip7702Authorizations (bb_signer_of cfg) e (ba_eip7702Tuples acc)
      = (ok, auths)" by fastforce
  note m = merge_7702 [OF merge]
  from assms(1) obtain inc where inc: "set inc \<subseteq> set done" "ba_bundle acc = map me_userOp inc"
    "ba_senders acc = map sender (ba_bundle acc)" "distinct (ba_senders acc)"
    "ba_totalGas acc = sum_list (map (opGas cfg) inc)"
    "ba_totalGas acc \<le> max 0 (bb_maxBundleGas cfg)" "auths_ok (bb_signer_of cfg) (ba_eip7702Tuples acc)"
    "\<forall>e \<in> set inc. admissible cfg known s e \<and> authorized_by cfg (ba_eip7702Tuples acc) (me_userOp e)"
    unfolding bundle_inv_def by blast
  have auths: "\<forall>x \<in> set inc. admissible cfg known s x \<and> authorized_by cfg auths (me_userOp x)"
    using inc(8) m(1) by (blast intro: authorized_mono)
  show ?thesis
  proof (cases ok)
    case False
    with inc m(2) auths show ?thesis
      unfolding bundle_inv_def includeEntry_def Let_def
      by (intro exI [of _ inc]) (auto simp: cd merge)
  next
    case True
    have "admissible cfg known s e"
      using assms(2,3,4,6) by (simp add: admissible_def)
    with True inc m auths assms show ?thesis
      unfolding bundle_inv_def includeEntry_def Let_def
      by (intro exI [of _ "inc @ [e]"]) (auto simp: cd merge opGas_def)
  qed
qed

lemma decideEntry_inv:
  assumes "bundle_inv cfg known s done acc"
  shows "bundle_inv cfg known s (done @ [e])
    (decideEntry cfg known e (statusIn s (paymaster (me_userOp e)))
        (statusIn s (factory (me_userOp e))) (knownDeposit cfg (me_userOp e) acc))"
proof -
  let ?acc = "knownDeposit cfg (me_userOp e) acc"
  have inv: "bundle_inv cfg known s done ?acc"
    using assms unfolding bundle_inv_def by simp
  have keep: "bundle_inv cfg known s (done @ [e]) (?acc\<lparr>ba_marked := x\<rparr>)"
    "bundle_inv cfg known s (done @ [e]) (?acc\<lparr>ba_notIncluded := y\<rparr>)" for x y
    by (rule bundle_inv_cong [OF inv]; simp)+
  show ?thesis
  proof (cases "validateUserOperation cfg e")
    case (Left err)
    then show ?thesis by (simp add: decideEntry_def Let_def keep)
  next
    case (Right vr)
    show ?thesis
    proof (cases "shouldIncludeInBundle (me_userOp e) (statusIn s (paymaster (me_userOp e)))
        (statusIn s (factory (me_userOp e))) vr (ba_stakedEntityCount ?acc) (ba_paymasterDeposit ?acc)
        THROTTLED_ENTITY_BUNDLE_COUNT (ba_totalGas ?acc) (bb_maxBundleGas cfg) known (ba_senders ?acc)")
      case None
      from None [unfolded shouldInclude_None] Right inv
      have "bundle_inv cfg known s (done @ [e]) (includeEntry cfg e vr ?acc)"
        by (intro includeEntry_inv) auto
      with None Right show ?thesis by (simp add: decideEntry_def Let_def)
    next
      case (Some r)
      with Right keep show ?thesis by (auto simp: decideEntry_def Let_def)
    qed
  qed
qed

lemma bundle_inv_initial: "bundle_inv cfg known s [] initialAcc"
  by (auto simp: bundle_inv_def initialAcc_def auths_ok_def)

lemma buildBundle_inv:
  assumes "buildBundle cfg known entries initialAcc s = (Inr acc, s')"
  shows "bundle_inv cfg known s entries acc \<and> s' = s"
  by (rule buildBundle_invariant [OF assms, where J = "bundle_inv cfg known s"])
    (simp_all add: bundle_inv_initial decideEntry_inv)

section \<open>Properties\<close>

lemma getEntries_run:
  assumes "mp_verify (bb_mempool cfg) (mp_stateCapability (bb_mempool cfg))"
    and "pool_ok (standardPool s)" and "getEntries cfg force s = (Inr entries, s1)"
  shows "set (map me_userOp entries) \<subseteq> set (map me_userOp (pendingOf (standardPool s))) \<and>
    reputationEntries s1 = reputationEntries s \<and> whiteList s1 = whiteList s \<and>
    blackList s1 = blackList s \<and>
    set (getKnownSenders (standardPool s1)) = set (getKnownSenders (standardPool s))"
proof -
  let ?pend = "pendingOf (standardPool s)"
  have senders: "set (getKnownSenders (markPool st hs po)) = set (getKnownSenders po)" for st hs po
    by (force simp: set_getKnownSenders markPool_def)
  have taken: "me_userOp x \<in> me_userOp ` set ?pend" if "x \<in> set (take n ?pend)" for n x
    using that by (auto dest: in_set_takeD)
  note run = pending_run [OF assms(1,2)]
  have "mp_size (bb_mempool cfg) s = (Inr (length (standardPool s)), s)"
    by (simp add: mp_size_def readPool_run [OF assms(1)])
  with assms(3) show ?thesis
    using taken
    by (auto simp: getEntries_def andThen_def run senders split: if_splits)
qed

lemma bundle_inv_state:
  assumes "bundle_inv cfg known s done acc" and "set known = set known'"
    and "reputationEntries s = reputationEntries s'" "whiteList s = whiteList s'" "blackList s = blackList s'"
  shows "bundle_inv cfg known' s' done acc"
proof -
  have "accessesOtherSendersStorage vr a known = accessesOtherSendersStorage vr a known'" for vr a
    using assms(2) by (simp add: accessesOtherSendersStorage_def)
  then have "admissible cfg known s e = admissible cfg known' s' e" for e
    using assms(3-5) by (simp add: admissible_def split: either.split)
  with assms(1) show ?thesis unfolding bundle_inv_def by simp
qed

text \<open>What is created is what building leaves in an accumulator that satisfies the invariant.\<close>

lemma createBundle_inv:
  assumes "mp_verify (bb_mempool cfg) (mp_stateCapability (bb_mempool cfg))" and "pool_ok (standardPool s)"
    and "createBundle cfg force s = (Inr (bundle, sm, auths), t)"
  shows "bundle = [] \<and> auths = [] \<or> (\<exists>entries acc. bundle_inv cfg (getKnownSenders (standardPool s)) s entries acc \<and>
    set (map me_userOp entries) \<subseteq> set (map me_userOp (pendingOf (standardPool s))) \<and>
    bundle = ba_bundle acc \<and> auths = ba_eip7702Tuples acc)"
proof -
  from assms(3) obtain entries s1 where entries: "getEntries cfg force s = (Inr entries, s1)"
    and rest: "(if entries = [] then ret ([], [], [])
         else andThen (mp_getKnownSenders (bb_mempool cfg))
           (\<lambda>knownSenders. andThen (buildBundle cfg knownSenders entries initialAcc)
             (\<lambda>acc. andThen (builderAfterHook cfg (ba_notIncluded acc) (ba_marked acc))
               (\<lambda>_. ret (ba_bundle acc, ba_storageMap acc, ba_eip7702Tuples acc))))) s1
      = (Inr (bundle, sm, auths), t)"
    unfolding createBundle_def by (auto elim: andThen_InrE)
  note e = getEntries_run [OF assms(1,2) entries]
  show ?thesis
  proof (cases "entries = []")
    case False
    with rest obtain known s2 acc s3 where
      known: "mp_getKnownSenders (bb_mempool cfg) s1 = (Inr known, s2)"
      and build: "buildBundle cfg known entries initialAcc s2 = (Inr acc, s3)"
      and out: "bundle = ba_bundle acc" "auths = ba_eip7702Tuples acc"
      by (auto elim!: andThen_InrE)
    from known have s2: "s2 = s1" "known = getKnownSenders (standardPool s1)"
      by (auto simp: mp_getKnownSenders_def readPool_run [OF assms(1)])
    have "bundle_inv cfg (getKnownSenders (standardPool s)) s entries acc"
      by (rule bundle_inv_state [of cfg known s2])
        (use buildBundle_inv [OF build] e s2 in auto)
    with out e show ?thesis by auto
  qed (use rest in simp)
qed


definition demo_builder :: builder_config where
  "demo_builder = \<lparr>bb_mempool = demo_mempool 5, bb_reputation = demo_rep,
     bb_validate = (\<lambda>op _. Inr (Right (demo_validation (maxFeePerGas op)))),
     bb_balanceOf = (\<lambda>_. 5), bb_parseError = (\<lambda>_. Parse_throws), bb_signer_of = auth_address,
     bb_maxBundleGas = 100\<rparr>"

lemma demo_builder_simps [simp]:
  "bb_mempool demo_builder = demo_mempool 5" "bb_reputation demo_builder = demo_rep"
  "bb_maxBundleGas demo_builder = 100" "bb_balanceOf demo_builder pm = 5"
  "bb_signer_of demo_builder = auth_address" "bb_parseError demo_builder = (\<lambda>_. Parse_throws)"
  "validateUserOperation demo_builder e = Right (demo_validation (maxFeePerGas (me_userOp e)))"
  by (simp_all add: demo_builder_def validateUserOperation_def)

lemma userOpGasCost_demo [simp]: "userOpGasCost (demo_validation n) (demo_op a m pm f) = 1"
  by (simp add: userOpGasCost_def) (simp add: demo_op_def)

lemma getStatus_demo [simp]:
  "getStatus demo_rep a (demo_pool_state po co) = (Inr OK, demo_pool_state po co)"
  by (cases a) (simp_all add: getStatus_run statusOf_def)

lemmas build_eval = buildStep_def andThen_def decideEntry_def Let_def shouldIncludeInBundle_def
  isEntityThrottled_def accessesOtherSendersStorage_def exceedBundleGasLimit_def
  paymasterHasInsufficientDeposit_def includeEntry_def updateEntityStakeCountAndDeposit_def
  incrementCount_def countOf_def mergeEip7702Authorizations_def getAuthorizationList_def
  knownDeposit_def initialAcc_def mergeStorageMap_def



text \<open>
  Building loses no operation that carries no EIP-7702 authorization: each entry
  handed to it is in the bundle, or returned to the pool as pending, or marked for removal, and
  in one of the three only.
\<close>

theorem build_accounts_for_every_entry:
  assumes "buildBundle cfg known entries initialAcc s = (Inr acc, t)"
    and "\<forall>e \<in> set entries. eip7702Auth (me_userOp e) = None"
  shows "length (ba_bundle acc) + length (ba_notIncluded acc) + length (ba_marked acc) = length entries \<and>
    (\<forall>e \<in> set entries. me_userOp e \<in> set (ba_bundle acc) \<or> me_userOpHash e \<in> set (ba_notIncluded acc) \<or>
       me_userOpHash e \<in> rd_userOpHash ` set (ba_marked acc))"
proof -
  let ?J = "\<lambda>done acc. length (ba_bundle acc) + length (ba_notIncluded acc) + length (ba_marked acc) = length done \<and>
    (\<forall>e \<in> set done. me_userOp e \<in> set (ba_bundle acc) \<or> me_userOpHash e \<in> set (ba_notIncluded acc) \<or>
       me_userOpHash e \<in> rd_userOpHash ` set (ba_marked acc))"
  have incl: "ba_bundle (includeEntry cfg e vr a) = ba_bundle a @ [me_userOp e] \<and>
      ba_notIncluded (includeEntry cfg e vr a) = ba_notIncluded a \<and>
      ba_marked (includeEntry cfg e vr a) = ba_marked a" if "e \<in> set entries" for e vr a
    using that assms(2)
    by (auto simp: includeEntry_def mergeEip7702Authorizations_def getAuthorizationList_def Let_def
        split: prod.split)
  have "?J entries acc \<and> t = s"
  proof (rule buildBundle_invariant [OF assms(1), where J = ?J])
    fix don :: "mempool_entry list" and e and a :: bundle_acc assume J: "?J don a" and e: "e \<in> set entries"
    let ?a = "knownDeposit cfg (me_userOp e) a"
    show "?J (don @ [e]) (decideEntry cfg known e (statusIn s (paymaster (me_userOp e)))
        (statusIn s (factory (me_userOp e))) ?a)"
    proof (cases "validateUserOperation cfg e")
      case (Left err)
      with J show ?thesis by (auto simp: decideEntry_def Let_def)
    next
      case (Right vr)
      show ?thesis
      proof (cases "shouldIncludeInBundle (me_userOp e) (statusIn s (paymaster (me_userOp e)))
        (statusIn s (factory (me_userOp e))) vr (ba_stakedEntityCount ?a) (ba_paymasterDeposit ?a)
        THROTTLED_ENTITY_BUNDLE_COUNT (ba_totalGas ?a) (bb_maxBundleGas cfg) known (ba_senders ?a)")
        case None
        with J incl [OF e] Right show ?thesis by (auto simp: decideEntry_def Let_def)
      next
        case (Some r)
        with J Right show ?thesis by (auto simp: decideEntry_def Let_def)
      qed
    qed
  qed simp
  then show ?thesis by simp
qed

theorem build_accounts_for_every_entry_witness:
  "length (ba_bundle (initialAcc\<lparr>ba_bundle := [demo_op ''0xab'' 0 None 1], ba_totalGas := 1,
      ba_senders := [''0xab'']\<rparr>)) = 1"
  using build_accounts_for_every_entry [where cfg = demo_builder and known = "[]"
      and entries = "[demo_entry (demo_op ''0xab'' 0 None 1) ''0x01'' bundling]"
      and s = "demo_pool_state [] []" and t = "demo_pool_state [] []"
      and acc = "initialAcc\<lparr>ba_bundle := [demo_op ''0xab'' 0 None 1], ba_totalGas := 1,
      ba_senders := [''0xab'']\<rparr>"]
  by (simp add: build_eval)

text \<open>
  An operation whose EIP-7702 authorization conflicts with one already in the bundle
  is dropped without a trace: it is in none of the three lists, although its paymaster's deposit
  and count are already charged. It stays \<open>bundling\<close> in the pool, where nothing picks it up.
\<close>

theorem conflicting_authorization_is_forgotten:
  assumes "eip7702Auth (me_userOp e) = Some a"
    and "List.find (\<lambda>it. bb_signer_of cfg it = bb_signer_of cfg a) (ba_eip7702Tuples acc) = Some b"
    and "toLowerCase (auth_address b) \<noteq> toLowerCase (auth_address a)"
    and "paymaster (me_userOp e) = Some pm" and "pm \<noteq> []"
  shows "ba_bundle (includeEntry cfg e vr acc) = ba_bundle acc \<and>
    ba_notIncluded (includeEntry cfg e vr acc) = ba_notIncluded acc \<and>
    ba_marked (includeEntry cfg e vr acc) = ba_marked acc \<and>
    countOf (ba_paymasterDeposit (includeEntry cfg e vr acc)) pm
      = countOf (ba_paymasterDeposit acc) pm - ri_prefund (vr_returnInfo vr)"
  using assms
  by (simp add: includeEntry_def mergeEip7702Authorizations_def getAuthorizationList_def Let_def
      updateEntityStakeCountAndDeposit_def countOf_def)

definition demo_auth :: "string \<Rightarrow> eip7702_authorization" where
  "demo_auth a = \<lparr>auth_chainId = 1, auth_address = a, auth_nonce = 0, auth_yParity = 0, auth_r = 1,
     auth_s = 1\<rparr>"

theorem conflicting_authorization_is_forgotten_witness:
  "countOf (ba_paymasterDeposit (includeEntry (demo_builder\<lparr>bb_signer_of := \<lambda>_. ''0x99''\<rparr>)
      (demo_entry ((demo_op ''0xab'' 0 (Some ''0xaa'') 1)\<lparr>eip7702Auth := Some (demo_auth ''0x02'')\<rparr>) ''0x01'' bundling)
      (demo_validation 3)
      (initialAcc\<lparr>ba_eip7702Tuples := [demo_auth ''0x01''], ba_paymasterDeposit := [(''0xaa'', 5)]\<rparr>)))
     ''0xaa'' = 2"
  using conflicting_authorization_is_forgotten [where cfg = "demo_builder\<lparr>bb_signer_of := \<lambda>_. ''0x99''\<rparr>"
      and e = "demo_entry ((demo_op ''0xab'' 0 (Some ''0xaa'') 1)\<lparr>eip7702Auth := Some (demo_auth ''0x02'')\<rparr>) ''0x01'' bundling"
      and acc = "initialAcc\<lparr>ba_eip7702Tuples := [demo_auth ''0x01''], ba_paymasterDeposit := [(''0xaa'', 5)]\<rparr>"
      and vr = "demo_validation 3" and a = "demo_auth ''0x02''" and b = "demo_auth ''0x01''" and pm = "''0xaa''"]
  by (simp add: demo_auth_def demo_op_def countOf_def)

text \<open>
  A paymaster deposit that the bundle has used up exactly is read from the chain
  again, because zero counts as missing: two operations, each needing the whole deposit, both go
  into one bundle.
\<close>

theorem exhausted_deposit_is_reread:
  "\<exists>cfg entries (s :: State) acc pm.
     fst (buildBundle cfg [] entries initialAcc s) = Inr acc \<and>
     ba_bundle acc = map me_userOp entries \<and>
     list_all (\<lambda>e. paymaster (me_userOp e) = Some pm) entries \<and>
     sum_list (map (\<lambda>e. case validateUserOperation cfg e of
        Right vr \<Rightarrow> ri_prefund (vr_returnInfo vr) | Left _ \<Rightarrow> 0) entries) > bb_balanceOf cfg pm"
proof -
  let ?e = "\<lambda>a h. demo_entry (demo_op a 0 (Some ''0xaa'') 5) h bundling"
  obtain acc where "fst (buildBundle demo_builder [] [?e ''0x01'' ''h1'', ?e ''0x02'' ''h2''] initialAcc
      (demo_pool_state [] [])) = Inr acc"
    and "ba_bundle acc = map me_userOp [?e ''0x01'' ''h1'', ?e ''0x02'' ''h2'']"
    by (simp add: build_eval)
  then show ?thesis
    by (intro exI [of _ demo_builder] exI [of _ "[?e ''0x01'' ''h1'', ?e ''0x02'' ''h2'']"]
        exI [of _ "demo_pool_state [] []"] exI [of _ acc] exI [of _ "''0xaa''"]) simp
qed

text \<open>
  When the second validation of a marked operation failed with an error that is no
  \<open>FailedOp\<close>, the hook removes this operation and returns: the operations marked after it are
  neither removed nor returned to pending.
\<close>

theorem after_hook_stops_at_first_plain_error:
  assumes "rd_reason d = failed_2nd_validation" and "rd_err d = Some e"
    and "parseFailedOpRevert (caught_rpc cfg e) = Inr None"
  shows "(removeMarked cfg (d # ds) :: ('z State_scheme, unit) act) = removeMarked cfg [d] \<and>
    (removeMarked cfg (d # ds) :: ('z State_scheme, unit) act) = andThen (removeUserOp (bb_mempool cfg) (By_hash (rd_userOpHash d))) (\<lambda>_. ret ())"
proof -
  have "\<not> checkFatal (caught_rpc cfg e)" by (simp add: checkFatal_def caught_rpc_def)
  with assms have "(removeOne cfg d :: ('z State_scheme, bool) act)
      = andThen (removeUserOp (bb_mempool cfg) (By_hash (rd_userOpHash d))) (\<lambda>_. ret False)"
    by (simp add: removeOne_def Let_def)
  then show ?thesis by (simp add: andThen_assoc ret_def)
qed

definition demo_expired :: remove_details where
  "demo_expired = \<lparr>rd_userOpHash = ''h1'', rd_userOp = demo_op ''0x01'' 0 None 1,
     rd_reason = failed_2nd_validation, rd_err = Some (RpcError ''expired'' (-32503))\<rparr>"

theorem after_hook_stops_at_first_plain_error_witness:
  "removeMarked demo_builder [demo_expired, demo_expired\<lparr>rd_userOpHash := ''h2''\<rparr>]
   = (andThen (removeUserOp (bb_mempool demo_builder) (By_hash (rd_userOpHash demo_expired)))
        (\<lambda>_. ret ()) :: (State, unit) act)"
proof (rule after_hook_stops_at_first_plain_error [THEN conjunct2])
  show "rd_reason demo_expired = failed_2nd_validation"
    "rd_err demo_expired = Some (RpcError ''expired'' (-32503))"
    by (simp_all add: demo_expired_def)
  show "parseFailedOpRevert (caught_rpc demo_builder (RpcError ''expired'' (-32503))) = Inr None"
    by (simp add: parseFailedOpRevert_def caught_rpc_def matchFailedOpHere_def)
qed

end
