(* ===== verification/Bundle_Processor.thy ===== *)
theory Bundle_Processor
  imports Bundle_Helpers
begin

text \<open>
  The bundle processor of \<open>src/bundle/processor/\<close>. Preparing and sending the transaction is
  input/output: \<open>bp_prepare\<close> is the error of populating a transaction of a type, if any, and \<open>bp_submit\<close> the result
  of one of the four transports, the transaction hash or the error caught. The audit trail
  of a sent bundle is in \<open>Audit_Trail\<close>.
\<close>

datatype route = Base_1559 | Base_7702 | Searcher_1559 | Searcher_7702

record processor_config =
  bp_mempool :: mempool_config
  bp_reputation :: reputation_config
  bp_txMode :: string
  bp_beneficiary :: string
  bp_minSignerBalance :: int
  bp_signerAddress :: string
  bp_signerBalance :: int
  bp_prepare :: "nat \<Rightarrow> user_operation list \<Rightarrow> string \<Rightarrow> caught option"
  bp_submit :: "route \<Rightarrow> user_operation list \<Rightarrow> eip7702_authorization list \<Rightarrow> caught + string"
  bp_userOpHashes :: "user_operation list \<Rightarrow> string list"

record send_bundle_return =
  sb_transactionHash :: string
  sb_userOpHashes :: "string list"
  sb_signerIndex :: nat
  sb_isSendBundleSuccess :: bool

definition selectBeneficiary :: "processor_config \<Rightarrow> string" where
  "selectBeneficiary cfg =
     (if bp_signerBalance cfg \<le> bp_minSignerBalance cfg then bp_signerAddress cfg
      else bp_beneficiary cfg)"

text \<open>An error created by the code itself: it has a message and nothing else.\<close>

definition plain_error :: "string \<Rightarrow> caught" where
  "plain_error m = \<lparr>ce_message = Some m, ce_error_code = None, ce_parsed = Parse_throws\<rparr>"

definition packThrows :: "user_operation \<Rightarrow> bool" where
  "packThrows op \<longleftrightarrow> paymaster op \<noteq> None \<and>
     (paymasterVerificationGasLimit op = None \<or> paymasterPostOpGasLimit op = None)"

definition txType :: "eip7702_authorization list \<Rightarrow> nat" where
  "txType eip7702Tuples = (if length eip7702Tuples > 0 then 4 else 2)"

definition routeOf :: "string \<Rightarrow> nat \<Rightarrow> route option" where
  "routeOf txMode n =
     (if txMode = ''base'' \<and> n = 2 then Some Base_1559
      else if txMode = ''base'' \<and> n = 4 then Some Base_7702
      else if txMode = ''searcher'' \<and> n = 2 then Some Searcher_1559
      else if txMode = ''searcher'' \<and> n = 4 then Some Searcher_7702
      else None)"

text \<open>The \<open>try\<close> block up to the transaction's hash.\<close>

definition attemptSend ::
  "processor_config \<Rightarrow> user_operation list \<Rightarrow> eip7702_authorization list \<Rightarrow> caught + string" where
  "attemptSend cfg userOps eip7702Tuples =
     (if list_ex packThrows userOps then Inl (plain_error ''paymaster with no gas limits'')
      else case bp_prepare cfg (txType eip7702Tuples) userOps (selectBeneficiary cfg) of
        Some e \<Rightarrow> Inl e
      | None \<Rightarrow>
          (case routeOf (bp_txMode cfg) (txType eip7702Tuples) of
             None \<Rightarrow> Inl (plain_error (''unknown txMode: '' @ bp_txMode cfg))
           | Some r \<Rightarrow> bp_submit cfg r userOps eip7702Tuples))"

section \<open>The after hook\<close>

record crashed_handle_ops =
  ch_addressToBan :: "string option"
  ch_failedUserOp :: user_operation

definition hookCrashed ::
  "processor_config \<Rightarrow> crashed_handle_ops \<Rightarrow> ('z State_scheme, unit) act" where
  "hookCrashed cfg crashed =
     (let op = ch_failedUserOp crashed; rep = bp_reputation cfg in
      andThen
        (if truthy (ch_addressToBan crashed)
         then andThen (updateSeenStatus rep (Some (sender op)) decrement)
           (\<lambda>_. andThen (updateSeenStatus rep (paymaster op) decrement)
           (\<lambda>_. andThen (updateSeenStatus rep (factory op) decrement)
           (\<lambda>_. andThen (removeUserOpsForBannedAddr (bp_mempool cfg) (the (ch_addressToBan crashed)))
           (\<lambda>_. crashedHandleOps rep (ch_addressToBan crashed)))))
         else ret ())
        (\<lambda>_. andThen (removeUserOp (bp_mempool cfg) (By_op op)) (\<lambda>_. ret ())))"

definition hookNonFatal ::
  "processor_config \<Rightarrow> user_operation list \<Rightarrow> ('z State_scheme, unit) act" where
  "hookNonFatal cfg userOps =
     for_each userOps (\<lambda>op. updateEntryStatus (bp_mempool cfg) (By_op op) pending)"

definition processorAfterHook ::
  "processor_config \<Rightarrow> crashed_handle_ops option \<Rightarrow> user_operation list option \<Rightarrow>
   ('z State_scheme, unit) act" where
  "processorAfterHook cfg crashed nonFatal =
     andThen (case crashed of None \<Rightarrow> ret () | Some c \<Rightarrow> hookCrashed cfg c)
       (\<lambda>_. case nonFatal of None \<Rightarrow> ret () | Some ops \<Rightarrow> hookNonFatal cfg ops)"

section \<open>Sending\<close>

definition sendFailed :: send_bundle_return where
  "sendFailed = \<lparr>sb_transactionHash = [], sb_userOpHashes = [], sb_signerIndex = 0,
     sb_isSendBundleSuccess = False\<rparr>"

text \<open>\<open>userOps[opIndex]\<close>: an index out of range reads \<open>undefined\<close>, and using it throws.\<close>

definition opAt :: "user_operation list \<Rightarrow> int \<Rightarrow> user_operation option" where
  "opAt userOps i = (if 0 \<le> i \<and> i < int (length userOps) then Some (userOps ! nat i) else None)"

definition sendBundle ::
  "processor_config \<Rightarrow> user_operation list \<Rightarrow> eip7702_authorization list \<Rightarrow>
   ('z State_scheme, send_bundle_return) act" where
  "sendBundle cfg userOps eip7702Tuples =
     (case attemptSend cfg userOps eip7702Tuples of
        Inr hash \<Rightarrow>
          andThen (processorAfterHook cfg None None)
            (\<lambda>_. ret \<lparr>sb_transactionHash = hash, sb_userOpHashes = bp_userOpHashes cfg userOps,
                  sb_signerIndex = 0, sb_isSendBundleSuccess = True\<rparr>)
      | Inl e \<Rightarrow>
          (case parseFailedOpRevert e of
             Inl ex \<Rightarrow> andThen (processorAfterHook cfg None None) (\<lambda>_. throw ex)
           | Inr None \<Rightarrow>
               (if checkFatal e
                then andThen (processorAfterHook cfg None None)
                       (\<lambda>_. throw (ErrorExn (case ce_message e of None \<Rightarrow> [] | Some m \<Rightarrow> m)))
                else andThen (processorAfterHook cfg None (Some userOps)) (\<lambda>_. ret sendFailed))
           | Inr (Some (opIndex, reasonStr)) \<Rightarrow>
               (case opAt userOps opIndex of
                  None \<Rightarrow> andThen (processorAfterHook cfg None None)
                            (\<lambda>_. throw (TypeErrorExn ''Cannot read properties of undefined''))
                | Some failedUserOp \<Rightarrow>
                    andThen (processorAfterHook cfg
                       (Some \<lparr>ch_addressToBan = findEntityToBlame (bp_reputation cfg) reasonStr failedUserOp,
                              ch_failedUserOp = failedUserOp\<rparr>) None)
                      (\<lambda>_. ret sendFailed))))"

section \<open>Removing everything of a banned address\<close>

lemma fst_dropBanned:
  "fst (dropBanned es po co) = filter (\<lambda>(h, e). h \<notin> me_userOpHash ` set es) po"
proof -
  have "fst (dropBanned es po co) = fold (\<lambda>e. AList.delete (me_userOpHash e)) es po" for po co
    unfolding dropBanned_def by (induction es arbitrary: po co) simp_all
  moreover have "fold (\<lambda>e. AList.delete (me_userOpHash e)) es po
      = filter (\<lambda>(h, e). h \<notin> me_userOpHash ` set es) po" for po
    by (induction es arbitrary: po) (auto simp: AList.delete_eq filter_filter intro: filter_cong)
  ultimately show ?thesis by simp
qed

lemma removeBanned_run:
  assumes "mp_verify cfg (mp_stateCapability cfg)" and "pool_ok (standardPool s)"
  shows "\<exists>co. removeUserOpsForBannedAddr cfg a s = (Inr (),
    s\<lparr>standardPool := filter (\<lambda>(h, e). \<not> names_address a (me_userOp e)) (standardPool s),
      mempoolEntryCount := co\<rparr>)"
proof -
  let ?es = "filter (\<lambda>entry. names_address a (me_userOp entry)) (map snd (standardPool s))"
  note po = assms(2)
  have iff: "h \<notin> me_userOpHash ` set ?es \<longleftrightarrow> \<not> names_address a (me_userOp e)"
    if he: "(h, e) \<in> set (standardPool s)" for h e
  proof -
    have "names_address a (me_userOp e)" if "h \<in> me_userOpHash ` set ?es"
    proof -
      from that obtain h' e' where e': "(h', e') \<in> set (standardPool s)" "me_userOpHash e' = h"
        "names_address a (me_userOp e')" by auto
      with pool_ok_hash [OF po e'(1)] have "(h, e') \<in> set (standardPool s)" by simp
      with he have "e' = e" by (simp add: pool_ok_lookup [OF po, symmetric])
      with e'(3) show ?thesis by simp
    qed
    moreover have "h \<in> me_userOpHash ` set ?es" if "names_address a (me_userOp e)"
    proof -
      from he that have "e \<in> set ?es" by (auto simp: image_iff intro: bexI [of _ "(h, e)"])
      with pool_ok_hash [OF po he] show ?thesis by blast
    qed
    ultimately show ?thesis by blast
  qed
  have eq: "filter (\<lambda>(h, e). h \<notin> me_userOpHash ` set ?es) (standardPool s)
      = filter (\<lambda>(h, e). \<not> names_address a (me_userOp e)) (standardPool s)"
  proof (rule filter_cong [OF refl])
    fix x assume x: "x \<in> set (standardPool s)"
    obtain h e where he: "x = (h, e)" by (cases x)
    show "(case x of (h, e) \<Rightarrow> h \<notin> me_userOpHash ` set ?es)
        = (case x of (h, e) \<Rightarrow> \<not> names_address a (me_userOp e))"
      using iff [OF x [unfolded he]] by (simp only: he prod.case)
  qed
  have "removeUserOpsForBannedAddr cfg a s = (Inr (),
    s\<lparr>standardPool := fst (dropBanned ?es (standardPool s) (mempoolEntryCount s)),
      mempoolEntryCount := snd (dropBanned ?es (standardPool s) (mempoolEntryCount s))\<rparr>)"
    by (simp add: removeUserOpsForBannedAddr_def andThen_def readPool_run [OF assms(1)]
        updatePoolAndCount_run [OF assms(1)])
  then show ?thesis unfolding fst_dropBanned eq by blast
qed

section \<open>Properties\<close>

lemma seen3_run:
  assumes "rm_verify rep (rm_stateCapability rep)"
  shows "\<exists>es. andThen (updateSeenStatus rep x decrement) (\<lambda>_. andThen (updateSeenStatus rep y decrement)
      (\<lambda>_. updateSeenStatus rep z decrement)) s = (Inr (), s\<lparr>reputationEntries := es\<rparr>)"
proof -
  obtain a where a: "updateSeenStatus rep x decrement s = (Inr (), s\<lparr>reputationEntries := a\<rparr>)"
    using updateSeenStatus_total [OF assms] by blast
  obtain b where b: "updateSeenStatus rep y decrement (s\<lparr>reputationEntries := a\<rparr>)
      = (Inr (), s\<lparr>reputationEntries := b\<rparr>)"
    using updateSeenStatus_total [OF assms, of y decrement "s\<lparr>reputationEntries := a\<rparr>"] by auto
  obtain c where c: "updateSeenStatus rep z decrement (s\<lparr>reputationEntries := b\<rparr>)
      = (Inr (), s\<lparr>reputationEntries := c\<rparr>)"
    using updateSeenStatus_total [OF assms, of z decrement "s\<lparr>reputationEntries := b\<rparr>"] by auto
  show ?thesis by (simp only: andThen_def a b c prod.case sum.case) blast
qed

lemma crashedHandleOps_run:
  assumes "rm_verify rep (rm_stateCapability rep)"
  shows "crashedHandleOps rep (Some a) s
    = (Inr (), s\<lparr>reputationEntries := banEntry (toLowerCase a) (reputationEntries s)\<rparr>)"
  using assms by (simp add: crashedHandleOps_def updateEntries_then_run)

lemma removeUserOp_pool:
  assumes "mp_verify cfg (mp_stateCapability cfg)"
  shows "\<exists>b co. removeUserOp cfg (By_op op) s = (Inr b,
    s\<lparr>standardPool := (case findBySenderNonce (sender op) (nonce op) (standardPool s) of
         None \<Rightarrow> standardPool s | Some e \<Rightarrow> AList.delete (me_userOpHash e) (standardPool s)),
      mempoolEntryCount := co\<rparr>)"
proof (cases "findBySenderNonce (sender op) (nonce op) (standardPool s)")
  case None
  then have "removeUserOp cfg (By_op op) s
      = (Inr False, s\<lparr>standardPool := standardPool s, mempoolEntryCount := mempoolEntryCount s\<rparr>)"
    by (simp add: removeUserOp_def andThen_def readPool_run [OF assms])
  with None show ?thesis unfolding None option.case by blast
next
  case (Some e)
  then have "removeUserOp cfg (By_op op) s = (Inr True,
     s\<lparr>standardPool := fst (dropEntry e (standardPool s) (mempoolEntryCount s)),
       mempoolEntryCount := snd (dropEntry e (standardPool s) (mempoolEntryCount s))\<rparr>)"
    by (simp add: removeUserOp_def andThen_def readPool_run [OF assms] updatePoolAndCount_run [OF assms])
  moreover have "fst (dropEntry e (standardPool s) (mempoolEntryCount s))
      = AList.delete (me_userOpHash e) (standardPool s)"
    by (simp add: dropEntry_def Let_def)
  ultimately show ?thesis unfolding Some option.case by auto
qed

lemma pool_ok_filter: "pool_ok po \<Longrightarrow> pool_ok (filter P po)"
  by (auto simp: pool_ok_def obj_ok_def distinct_map_filter)

text \<open>Deleting the entry found for a sender and nonce removes exactly the entries of that slot.\<close>

lemma removed_slot:
  assumes "pool_ok po"
  shows "(case findBySenderNonce sd n po of None \<Rightarrow> po | Some e \<Rightarrow> AList.delete (me_userOpHash e) po)
    = filter (\<lambda>(h, e). slot e \<noteq> (toLowerCase sd, n)) po"
proof (cases "findBySenderNonce sd n po")
  case None
  then have "filter (\<lambda>(h, e). slot e \<noteq> (toLowerCase sd, n)) po = po"
    unfolding findBySenderNonce_None by (intro filter_True) (auto simp: slot_def)
  with None show ?thesis by simp
next
  case (Some e)
  from pool_ok_find [OF assms Some] have e: "(me_userOpHash e, e) \<in> set po" "slot e = (toLowerCase sd, n)"
    by simp_all
  have "(me_userOpHash e \<noteq> h) = (slot x \<noteq> (toLowerCase sd, n))" if x: "(h, x) \<in> set po" for h x
  proof -
    have "x = e" if "h = me_userOpHash e"
      using x e(1) that by (simp add: pool_ok_lookup [OF assms, symmetric])
    with pool_ok_slot [OF assms x e(1)] e(2) show ?thesis by auto
  qed
  then have "filter (\<lambda>(h, x). me_userOpHash e \<noteq> h) po = filter (\<lambda>(h, x). slot x \<noteq> (toLowerCase sd, n)) po"
    by (intro filter_cong refl) (auto simp only: split_paired_all prod.case)
  with Some show ?thesis by (simp add: AList.delete_eq)
qed

lemma keeps_entries_ok_seen:
  "keeps (\<lambda>s. entries_ok (reputationEntries s)) (updateSeenStatus rep a act)"
  unfolding updateSeenStatus_def
  by (intro keeps_if keeps_ret keeps_andThen keeps_updateEntries) (simp_all add: bumpSeen_ok)

lemma removeUserOp_slot:
  assumes "mp_verify cfg (mp_stateCapability cfg)" and "pool_ok (standardPool s)"
  shows "\<exists>b co. removeUserOp cfg (By_op op) s = (Inr b, s\<lparr>standardPool :=
      filter (\<lambda>(h, e). slot e \<noteq> (toLowerCase (sender op), nonce op)) (standardPool s), mempoolEntryCount := co\<rparr>)"
  using removeUserOp_pool [OF assms(1), of op s] unfolding removed_slot [OF assms(2)] .

text \<open>The hook with an address to blame: counters lowered, the address purged and banned, the operation removed.\<close>

lemma hookCrashed_run:
  fixes s :: "'z State_scheme"
  assumes "mp_verify (bp_mempool cfg) (mp_stateCapability (bp_mempool cfg))"
    and "rm_verify (bp_reputation cfg) (rm_stateCapability (bp_reputation cfg))"
    and "pool_ok (standardPool s)" and "entries_ok (reputationEntries s)" and "a \<noteq> []"
  shows "\<exists>es co. entries_ok es \<and> hookCrashed cfg \<lparr>ch_addressToBan = Some a, ch_failedUserOp = op\<rparr> s = (Inr (),
    s\<lparr>reputationEntries := banEntry (toLowerCase a) es, standardPool := filter (\<lambda>(h, e). \<not> names_address a (me_userOp e) \<and>
        slot e \<noteq> (toLowerCase (sender op), nonce op)) (standardPool s), mempoolEntryCount := co\<rparr>)"
proof -
  let ?rep = "bp_reputation cfg" and ?mp = "bp_mempool cfg"
  let ?seen = "andThen (updateSeenStatus ?rep (Some (sender op)) decrement)
     (\<lambda>_. andThen (updateSeenStatus ?rep (paymaster op) decrement)
     (\<lambda>_. updateSeenStatus ?rep (factory op) decrement))"
  let ?pool = "filter (\<lambda>(h, e). \<not> names_address a (me_userOp e)) (standardPool s)"
  obtain es where seen: "?seen s = (Inr (), s\<lparr>reputationEntries := es\<rparr>)"
    using seen3_run [OF assms(2)] by blast
  have "keeps (\<lambda>s. entries_ok (reputationEntries s)) ?seen"
    by (intro keeps_andThen keeps_entries_ok_seen)
  from keepsD [OF this, of s] seen assms(4) have es: "entries_ok es" by simp
  obtain co where purge: "removeUserOpsForBannedAddr ?mp a (s\<lparr>reputationEntries := es\<rparr>)
      = (Inr (), s\<lparr>reputationEntries := es, standardPool := ?pool, mempoolEntryCount := co\<rparr>)"
    using removeBanned_run [OF assms(1), of "s\<lparr>reputationEntries := es\<rparr>" a] assms(3) by auto
  define s3 where "s3 = s\<lparr>reputationEntries := banEntry (toLowerCase a) es, standardPool := ?pool, mempoolEntryCount := co\<rparr>"
  have ban: "crashedHandleOps ?rep (Some a) (s\<lparr>reputationEntries := es, standardPool := ?pool, mempoolEntryCount := co\<rparr>)
      = (Inr (), s3)"
    by (simp add: crashedHandleOps_run [OF assms(2)] s3_def)
  obtain b co' where last: "removeUserOp ?mp (By_op op) s3 = (Inr b, s3\<lparr>standardPool :=
      filter (\<lambda>(h, e). slot e \<noteq> (toLowerCase (sender op), nonce op)) ?pool, mempoolEntryCount := co'\<rparr>)"
    using removeUserOp_slot [OF assms(1), of s3 op] pool_ok_filter [OF assms(3)] by (auto simp: s3_def)
  have "hookCrashed cfg \<lparr>ch_addressToBan = Some a, ch_failedUserOp = op\<rparr>
      = andThen (andThen ?seen (\<lambda>_. andThen (removeUserOpsForBannedAddr ?mp a) (\<lambda>_. crashedHandleOps ?rep (Some a))))
          (\<lambda>_. andThen (removeUserOp ?mp (By_op op)) (\<lambda>_. ret () :: ('z State_scheme, unit) act))"
    using assms(5) by (simp add: hookCrashed_def Let_def andThen_assoc)
  moreover have "andThen ?seen (\<lambda>_. andThen (removeUserOpsForBannedAddr ?mp a) (\<lambda>_. crashedHandleOps ?rep (Some a))) s
      = (Inr (), s3)"
    by (simp only: andThen_Inr seen purge ban)
  ultimately show ?thesis
    using es by (intro exI [of _ es] exI [of _ co'])
      (simp add: andThen_Inr last, simp add: s3_def filter_filter case_prod_unfold conj_commute)
qed


definition demo_processor :: "caught \<Rightarrow> processor_config" where
  "demo_processor e = \<lparr>bp_mempool = demo_mempool 5, bp_reputation = demo_rep, bp_txMode = ''base'',
     bp_beneficiary = ''0xbe'', bp_minSignerBalance = 0, bp_signerAddress = ''0x5e'',
     bp_signerBalance = 1, bp_prepare = (\<lambda>_ _ _. None), bp_submit = (\<lambda>_ _ _. Inl e),
     bp_userOpHashes = (\<lambda>_. [])\<rparr>"

definition demo_failed_op :: caught where
  "demo_failed_op = \<lparr>ce_message = None, ce_error_code = None,
     ce_parsed = Parsed_revert 0 ''AA33 reverted''\<rparr>"

definition demo_pm_op :: "string \<Rightarrow> user_operation" where
  "demo_pm_op a = (demo_op a 0 (Some ''0xaa'') 1)
     \<lparr>paymasterVerificationGasLimit := Some 0, paymasterPostOpGasLimit := Some 0\<rparr>"

lemma demo_pm_op_simps [simp]:
  "sender (demo_pm_op a) = a" "nonce (demo_pm_op a) = 0" "paymaster (demo_pm_op a) = Some ''0xaa''"
  "factory (demo_pm_op a) = None" "\<not> packThrows (demo_pm_op a)" "\<not> packThrows (demo_op a n None f)"
  by (simp_all add: demo_pm_op_def demo_op_def packThrows_def)

definition demo_bundled_pool :: standard_pool where
  "demo_bundled_pool = [(''h1'', demo_entry (demo_pm_op ''0x01'') ''h1'' bundling),
     (''h2'', demo_entry (demo_op ''0x02'' 0 None 1) ''h2'' bundling)]"

lemma demo_bundled_pool_ok [simp]: "pool_ok demo_bundled_pool"
  by (simp add: demo_bundled_pool_def pool_ok_def obj_ok_def slot_def)


lemma updateEntryStatus_slot:
  assumes "mp_verify cfg (mp_stateCapability cfg)" and "pool_ok (standardPool s)"
  shows "updateEntryStatus cfg (By_op op) st s = (Inr (), s\<lparr>standardPool :=
    map (\<lambda>(h, e). (h, if slot e = (toLowerCase (sender op), nonce op) then e\<lparr>me_status := st\<rparr> else e))
      (standardPool s)\<rparr>)"
proof (cases "findBySenderNonce (sender op) (nonce op) (standardPool s)")
  case None
  then have "map (\<lambda>(h, e). (h, if slot e = (toLowerCase (sender op), nonce op) then e\<lparr>me_status := st\<rparr> else e))
      (standardPool s) = standardPool s"
    unfolding findBySenderNonce_None by (intro map_idI) (auto simp: slot_def)
  with None show ?thesis by (simp add: updateEntryStatus_run [OF assms(1)])
next
  case (Some x)
  note po = assms(2)
  from pool_ok_find [OF po Some] have x: "(me_userOpHash x, x) \<in> set (standardPool s)"
    "slot x = (toLowerCase (sender op), nonce op)" by simp_all
  have "(if h = me_userOpHash x then x\<lparr>me_status := st\<rparr> else e)
      = (if slot e = (toLowerCase (sender op), nonce op) then e\<lparr>me_status := st\<rparr> else e)"
    if e: "(h, e) \<in> set (standardPool s)" for h e
  proof (cases "h = me_userOpHash x")
    case True
    with e x(1) have "e = x" by (simp add: pool_ok_lookup [OF po, symmetric])
    with True x(2) show ?thesis by simp
  next
    case False
    with pool_ok_slot [OF po e x(1)] x(2) show ?thesis by auto
  qed
  then have "AList.update (me_userOpHash x) (x\<lparr>me_status := st\<rparr>) (standardPool s)
      = map (\<lambda>(h, e). (h, if slot e = (toLowerCase (sender op), nonce op) then e\<lparr>me_status := st\<rparr> else e))
          (standardPool s)"
    using po pool_key [OF x(1)]
    by (subst update_existing) (auto simp: pool_ok_def intro: map_cong)
  with Some show ?thesis by (simp add: updateEntryStatus_run [OF assms(1)])
qed

definition pendingAgain :: "(string \<times> int) set \<Rightarrow> standard_pool \<Rightarrow> standard_pool" where
  "pendingAgain slots po = map (\<lambda>(h, e). (h, if slot e \<in> slots then e\<lparr>me_status := pending\<rparr> else e)) po"

lemma hookNonFatal_run:
  assumes "mp_verify (bp_mempool cfg) (mp_stateCapability (bp_mempool cfg))" and "pool_ok (standardPool s)"
  shows "hookNonFatal cfg ops s = (Inr (), s\<lparr>standardPool :=
    pendingAgain ((\<lambda>op. (toLowerCase (sender op), nonce op)) ` set ops) (standardPool s)\<rparr>)"
  using assms(2)
proof (induction ops arbitrary: s)
  case Nil
  have "pendingAgain {} po = po" for po unfolding pendingAgain_def by (intro map_idI) auto
  then show ?case by (simp add: hookNonFatal_def)
next
  case (Cons op ops)
  define s1 where "s1 = s\<lparr>standardPool := pendingAgain {(toLowerCase (sender op), nonce op)} (standardPool s)\<rparr>"
  have step: "updateEntryStatus (bp_mempool cfg) (By_op op) pending s = (Inr (), s1)"
    using updateEntryStatus_slot [OF assms(1) Cons.prems] by (simp add: s1_def pendingAgain_def)
  have "pool_ok (standardPool s1)"
    using keepsD [OF status_keeps_pool_inv Cons.prems, of "bp_mempool cfg" "By_op op" pending] step by simp
  from Cons.IH [OF this] have "hookNonFatal cfg (op # ops) s = (Inr (), s1\<lparr>standardPool :=
      pendingAgain ((\<lambda>op. (toLowerCase (sender op), nonce op)) ` set ops) (standardPool s1)\<rparr>)"
    by (simp add: hookNonFatal_def andThen_def step)
  moreover have "pendingAgain A (pendingAgain {x} po) = pendingAgain (insert x A) po" for A x po
    by (auto simp: pendingAgain_def)
  ultimately show ?case by (simp add: s1_def)
qed



end
