(* ===== verification/Bundle_Manager.thy ===== *)
theory Bundle_Manager
  imports Event Bundle_Builder Bundle_Processor "HOL-Library.Multiset"
begin

text \<open>
  The bundle manager of \<open>src/bundle/bundle-manager.ts\<close>: one bundling attempt from the past
  events to the recorded transaction, and the automatic mode. Its closure variables extend the
  state of the event manager; the interval is the period it was started with. The mutex of the
  interval only keeps two of its own runs apart, so a run is one action.
\<close>

datatype bundle_mode = auto_mode | manual_mode

record manager_state = event_state +
  bundleMode :: bundle_mode
  bundleInterval :: "nat option"

record manager_config =
  bm_events :: event_config
  bm_builder :: builder_config
  bm_processor :: processor_config
  bm_verify :: "capability \<Rightarrow> bool"
  bm_stateCapability :: capability
  bm_isAutoBundle :: bool
  bm_autoBundleInterval :: nat

type_synonym bundle_return = "string \<times> string list"

definition pendingTx :: "send_bundle_return \<Rightarrow> pending_tx_details" where
  "pendingTx r = \<lparr>txHash = sb_transactionHash r, signerIndex = sb_signerIndex r, tx_status = tx_pending\<rparr>"

definition recordTx :: "manager_config \<Rightarrow> send_bundle_return \<Rightarrow> ('z State_scheme, bool) act" where
  "recordTx cfg r = updateState (bm_verify cfg) (bm_stateCapability cfg) (One BundleTxs)
     (\<lambda>p. Inr (noKeys\<lparr>p_bundleTxs :=
        Some (AList.update (sb_transactionHash r) (pendingTx r) (the (p_bundleTxs p)))\<rparr>))"

definition doAttemptBundle ::
  "manager_config \<Rightarrow> bool \<Rightarrow> ('z event_state_scheme, bundle_return) act" where
  "doAttemptBundle cfg force =
     andThen (handlePastEvents (bm_events cfg))
       (\<lambda>_. andThen (createBundle (bm_builder cfg) force)
       (\<lambda>(bundle, storageMap, eip7702Tuples).
          if length bundle = 0 then ret ([], [])
          else andThen (sendBundle (bm_processor cfg) bundle eip7702Tuples)
            (\<lambda>r. andThen (if sb_isSendBundleSuccess r
                          then andThen (recordTx cfg r) (\<lambda>_. ret ()) else ret ())
              (\<lambda>_. ret (sb_transactionHash r, sb_userOpHashes r)))))"

definition stopAutoBundler :: "('z manager_state_scheme, unit) act" where
  "stopAutoBundler = (\<lambda>s. (Inr (), if bundleInterval s \<noteq> None then s\<lparr>bundleInterval := None\<rparr> else s))"

definition startAutoBundler :: "manager_config \<Rightarrow> ('z manager_state_scheme, unit) act" where
  "startAutoBundler cfg = andThen stopAutoBundler
     (\<lambda>_ s. (Inr (), s\<lparr>bundleInterval := Some (bm_autoBundleInterval cfg)\<rparr>))"

text \<open>The callback of the interval: errors are logged.\<close>

definition autoBundleTick :: "manager_config \<Rightarrow> ('z manager_state_scheme, unit) act" where
  "autoBundleTick cfg =
     (\<lambda>s. if bundleInterval s = None then (Inr (), s)
          else catch_exn (andThen (doAttemptBundle cfg False) (\<lambda>_. ret ())) (\<lambda>_. ret ()) s)"

definition setBundlingMode :: "manager_config \<Rightarrow> bundle_mode \<Rightarrow> ('z manager_state_scheme, unit) act" where
  "setBundlingMode cfg mode =
     andThen (\<lambda>s. (Inr (), s\<lparr>bundleMode := mode\<rparr>))
       (\<lambda>_. if mode = auto_mode then startAutoBundler cfg else stopAutoBundler)"

text \<open>The state changes of creating the module.\<close>

definition createBundleManager :: "manager_config \<Rightarrow> ('z manager_state_scheme, unit) act" where
  "createBundleManager cfg =
     andThen (\<lambda>s. (Inr (), s\<lparr>bundleMode := if bm_isAutoBundle cfg then auto_mode else manual_mode,
                              bundleInterval := None\<rparr>))
       (\<lambda>_ s. if bundleMode s = auto_mode then startAutoBundler cfg s else (Inr (), s))"

section \<open>Every part of an attempt keeps the invariants of the state\<close>

definition service_inv :: "'z State_scheme \<Rightarrow> bool" where
  "service_inv s \<longleftrightarrow> pool_ok (standardPool s) \<and> entries_ok (reputationEntries s)"

lemma keeps_conj: "keeps P m \<Longrightarrow> keeps Q m \<Longrightarrow> keeps (\<lambda>s. P s \<and> Q s) m"
  by (auto simp: keeps_def)

text \<open>The operations of a pool.\<close>

definition poolOps :: "standard_pool \<Rightarrow> user_operation set" where
  "poolOps po = (\<lambda>(h, e). me_userOp e) ` set po"

lemma poolOps_subset: "set po' \<subseteq> set po \<Longrightarrow> poolOps po' \<subseteq> poolOps po"
  by (auto simp: poolOps_def)

lemma poolOps_delete: "poolOps (AList.delete h po) \<subseteq> poolOps po"
  by (rule poolOps_subset) (auto simp: AList.delete_eq)

lemma poolOps_update: "poolOps (AList.update h e po) \<subseteq> insert (me_userOp e) (poolOps po)"
proof -
  have "set (AList.update h e po) \<subseteq> insert (h, e) (set po)" by (induction po) auto
  then show ?thesis by (auto simp: poolOps_def)
qed

lemma poolOps_status: "e \<in> snd ` set po \<Longrightarrow> poolOps (AList.update h (e\<lparr>me_status := st\<rparr>) po) \<subseteq> poolOps po"
  using poolOps_update [of h "e\<lparr>me_status := st\<rparr>" po] by (force simp: poolOps_def)

lemma poolOps_statuses: "setPoolStatuses st hs po = Inr po' \<Longrightarrow> poolOps po' \<subseteq> poolOps po"
proof (induction hs arbitrary: po)
  case (Cons h hs)
  then obtain e where e: "map_of po h = Some e"
    and rest: "setPoolStatuses st hs (AList.update h (e\<lparr>me_status := st\<rparr>) po) = Inr po'"
    by (auto simp: setPoolStatus_def split: sum.splits option.splits)
  from map_of_SomeD [OF e] have "e \<in> snd ` set po" by force
  from Cons.IH [OF rest] poolOps_status [OF this] show ?case by blast
qed simp

lemma poolOps_dropBanned: "poolOps (fst (dropBanned es po co)) \<subseteq> poolOps po"
proof (induction es arbitrary: po co)
  case (Cons e es)
  show ?case
    using Cons.IH [of "AList.delete (me_userOpHash e) po"] poolOps_delete [of "me_userOpHash e" po]
    by (fastforce simp: dropBanned_def)
qed (simp add: dropBanned_def)

lemma poolOps_dropEntry: "poolOps (fst (dropEntry e po co)) \<subseteq> poolOps po"
  by (simp add: dropEntry_def Let_def poolOps_delete)

lemma findEntry_in: "findEntry x po = Some e \<Longrightarrow> e \<in> snd ` set po"
  by (cases x) (auto dest!: map_of_SomeD findBySenderNonce_Some intro: rev_image_eqI)

text \<open>The manager's operations other than adding leave only operations the pool had.\<close>

lemma pool_actions_shrink:
  fixes P :: "'z State_scheme \<Rightarrow> bool"
  assumes pool: "\<And>s po. P s \<Longrightarrow> poolOps po \<subseteq> poolOps (standardPool s) \<Longrightarrow> P (s\<lparr>standardPool := po\<rparr>)"
    and count: "\<And>s co. P s \<Longrightarrow> P (s\<lparr>mempoolEntryCount := co\<rparr>)"
  shows "keeps P (removeUserOp cfg x)" "keeps P (removeUserOpsForBannedAddr cfg a)"
    "keeps P (updateEntryStatus cfg x st)" "keeps P (markBundling cfg found)"
proof -
  have both: "P (s\<lparr>standardPool := po, mempoolEntryCount := co\<rparr>)"
    if "P s" "poolOps po \<subseteq> poolOps (standardPool s)" for s :: "'z State_scheme" and po co
    using count [OF pool [OF that]] by simp
  show "keeps P (removeUserOp cfg x)"
    unfolding removeUserOp_def
  proof (rule keeps_andThen [OF keeps_readPool])
    fix found
    show "keeps P (case found of None \<Rightarrow> ret False
        | Some entry \<Rightarrow> andThen (updatePoolAndCount cfg (dropEntry entry)) (\<lambda>_. ret True))"
      by (cases found) (simp_all add: keeps_andThen keeps_updatePoolAndCount both poolOps_dropEntry)
  qed
  show "keeps P (removeUserOpsForBannedAddr cfg a)"
    unfolding removeUserOpsForBannedAddr_def
    by (intro keeps_andThen keeps_readPool keeps_ret keeps_updatePoolAndCount both poolOps_dropBanned)
  show "keeps P (markBundling cfg found)"
    by (rule keepsI) (auto simp: markBundling_def andThen_def updateState_def validateNonEmpty_def
        validateKeysMatch_iff state_field_simps intro!: pool poolOps_statuses split: sum.split)
  show "keeps P (updateEntryStatus cfg x st)"
    unfolding updateEntryStatus_def
  proof (rule keeps_unverified, fold updateEntryStatus_def, rule keepsI)
    fix s :: "'z State_scheme" assume "mp_verify cfg (mp_stateCapability cfg)" and "P s"
    then show "P (snd (updateEntryStatus cfg x st s))"
      by (auto simp: updateEntryStatus_run intro!: pool poolOps_status findEntry_in split: option.split)
  qed
qed

lemma keeps_pending:
  assumes "\<And>found. keeps P (markBundling cfg found)"
  shows "keeps P (getNextPending cfg)" "keeps P (getAllPending cfg)"
  unfolding getNextPending_def getAllPending_def by (intro keeps_andThen keeps_readPool assms)+

lemma reputation_actions_keep_pool:
  fixes P :: "'z State_scheme \<Rightarrow> bool"
  assumes "\<And>s es. P s \<Longrightarrow> P (s\<lparr>reputationEntries := es\<rparr>)"
  shows "keeps P (updateSeenStatus rep x act)" "keeps P (updateIncludedStatus rep a)"
    "keeps P (crashedHandleOps rep x)"
  unfolding updateSeenStatus_def updateIncludedStatus_def crashedHandleOps_def
  by (auto intro!: keeps_andThen keeps_updateEntries assms split: option.split)

lemma keeps_entries_ok_updates:
  "keeps (\<lambda>s. entries_ok (reputationEntries s)) (updateIncludedStatus rep a)"
  "keeps (\<lambda>s. entries_ok (reputationEntries s)) (crashedHandleOps rep x)"
  unfolding updateIncludedStatus_def crashedHandleOps_def
  by (auto intro!: keeps_andThen keeps_updateEntries bumpIncluded_ok banEntry_ok split: option.split)

text \<open>The operations of the two managers, each keeping both invariants.\<close>

lemma service_inv_ops:
  "keeps service_inv (removeUserOp cfg x)" "keeps service_inv (removeUserOpsForBannedAddr cfg a)"
  "keeps service_inv (updateEntryStatus cfg x st)" "keeps service_inv (getNextPending cfg)"
  "keeps service_inv (getAllPending cfg)" "keeps service_inv (updateSeenStatus rep y act)"
  "keeps service_inv (updateIncludedStatus rep b)" "keeps service_inv (crashedHandleOps rep y)"
  unfolding service_inv_def
  by (intro keeps_conj mempool_keeps_pool_inv keeps_entries_ok_seen keeps_entries_ok_updates
      pool_actions_shrink reputation_actions_keep_pool keeps_pending; simp)+

text \<open>
  The closure variables of the modules: \<open>frame\<close> is the interface of a predicate on them, and on the
  operations in the pool, which no change of the shared fields or of the event manager's variables
  affects and which stays when operations leave the pool. Every operation of an attempt keeps it
  together with the invariant of the shared fields.
\<close>

locale frame =
  fixes Q :: "'z event_state_scheme \<Rightarrow> bool"
  assumes pool_frame: "Q s \<Longrightarrow> poolOps po \<subseteq> poolOps (standardPool s) \<Longrightarrow> Q (s\<lparr>standardPool := po\<rparr>)"
    and count_frame: "Q (s\<lparr>mempoolEntryCount := co\<rparr>) = Q s"
    and entries_frame: "Q (s\<lparr>reputationEntries := es\<rparr>) = Q s"
    and txs_frame: "Q (s\<lparr>bundleTxs := txs\<rparr>) = Q s"
    and block_frame: "Q (s\<lparr>lastBlock := lb\<rparr>) = Q s"
    and aggregator_frame: "Q (s\<lparr>eventAggregator := ag\<rparr>) = Q s"
    and aggregator_hash_frame: "Q (s\<lparr>eventAggregatorTxHash := th\<rparr>) = Q s"
begin

lemmas frame = count_frame entries_frame txs_frame block_frame aggregator_frame
  aggregator_hash_frame

abbreviation inv :: "'z event_state_scheme \<Rightarrow> bool" where
  "inv s \<equiv> service_inv s \<and> Q s"

lemma ops_keep:
  "keeps inv (removeUserOp cfg x)" "keeps inv (removeUserOpsForBannedAddr cfg a)"
  "keeps inv (updateEntryStatus cfg x st)" "keeps inv (getNextPending cfg)"
  "keeps inv (getAllPending cfg)" "keeps inv (updateSeenStatus rep y act)"
  "keeps inv (updateIncludedStatus rep b)" "keeps inv (crashedHandleOps rep y)"
  by (intro keeps_conj service_inv_ops pool_actions_shrink reputation_actions_keep_pool
      keeps_pending; simp add: frame pool_frame)+

lemma included_keep: "keeps inv (includedAddress cfg x)"
  unfolding includedAddress_def by (auto intro: ops_keep split: option.split)

lemma event_keep: "keeps inv (handleEvent cfg ev)"
proof -
  have "keeps inv (setLastBlock n)" "keeps inv (handleAggregatorChangedEvent ev ag)"
    "keeps inv (getEventAggregator ev)" for n ag
    by (auto simp: keeps_def setLastBlock_def handleAggregatorChangedEvent_def getEventAggregator_def
        service_inv_def frame)
  then show ?thesis
    unfolding handleEvent_def handleUserOperationEvent_def
    by (auto intro!: keeps_andThen keeps_if included_keep ops_keep split: event_args.split)
qed

lemma events_keep: "keeps inv (handlePastEvents cfg)"
proof
  fix s assume s: "inv s"
  have "keeps inv (for_each evs (handleEvent cfg))" for evs
    by (intro keeps_for_each event_keep)
  from keepsD [OF this, of "s\<lparr>lastBlock := Some (firstBlock cfg (lastBlock s))\<rparr>"] s
  show "inv (snd (handlePastEvents cfg s))"
    by (simp add: handlePastEvents_def Let_def service_inv_def frame)
qed

lemma create_keep: "keeps inv (createBundle cfg force)"
proof -
  have one: "keeps inv (removeOne cfg d)" for d
    unfolding removeOne_def Let_def
    by (auto intro!: keeps_andThen ops_keep split: remove_reason.split option.split sum.split)
  have marked: "keeps inv (removeMarked cfg ds)" for ds
    by (induction ds) (auto intro!: keeps_andThen one)
  have build: "keeps inv (buildBundle cfg known es acc)" for known es acc
    by (induction es arbitrary: acc) (auto intro!: keeps_andThen simp: buildStep_def)
  have hook: "keeps inv (builderAfterHook cfg ni ds)" for ni ds
    unfolding builderAfterHook_def by (intro keeps_andThen keeps_for_each ops_keep marked)
  show ?thesis
    unfolding createBundle_def getEntries_def mp_size_def mp_getKnownSenders_def
    by (intro keeps_andThen keeps_if keeps_ret keeps_readPool ops_keep build hook)
qed

lemma send_keep: "keeps inv (sendBundle cfg ops tuples)"
proof -
  have "keeps inv (hookCrashed cfg c)" for c
    unfolding hookCrashed_def Let_def by (intro keeps_andThen keeps_if keeps_ret ops_keep)
  moreover have "keeps inv (hookNonFatal cfg ops)" for ops
    unfolding hookNonFatal_def by (intro keeps_for_each ops_keep)
  ultimately have "keeps inv (processorAfterHook cfg c n)" for c n
    unfolding processorAfterHook_def by (auto intro!: keeps_andThen split: option.split)
  then show ?thesis
    unfolding sendBundle_def by (auto intro!: keeps_andThen split: sum.split option.split)
qed

lemma attempt_keep: "keeps inv (doAttemptBundle cfg force)"
proof -
  have rec: "keeps inv (recordTx cfg r)" for r
    unfolding recordTx_def
    by (rule bundle_txs_field.keeps_update_field) (simp add: service_inv_def frame)
  show ?thesis
    unfolding doAttemptBundle_def
    by (auto intro!: keeps_andThen events_keep create_keep send_keep rec)
qed

lemma attempt_caught_keep: "keeps inv (catch_exn (andThen (doAttemptBundle cfg force) (\<lambda>_. ret ())) (\<lambda>_. ret ()))"
  by (intro keeps_catch keeps_andThen attempt_keep keeps_ret)

end

text \<open>No closure variable, and the snapshot the hourly interval closes over.\<close>

interpretation shared_only: frame "\<lambda>_. True"
  by unfold_locales simp_all

definition snapshot_ok :: "'z reputation_state_scheme \<Rightarrow> bool" where
  "snapshot_ok s \<longleftrightarrow> (\<forall>snap. cronSnapshot s = Some snap \<longrightarrow> entries_ok snap)"

interpretation with_snapshot: frame snapshot_ok
  by unfold_locales (simp_all add: snapshot_ok_def)

section \<open>What an attempt does to the operations it sends\<close>

text \<open>
  Building splits the entries: those included and those returned to pending are different
  entries of the list it was given.
\<close>

definition split_inv :: "mempool_entry list \<Rightarrow> bundle_acc \<Rightarrow> bool" where
  "split_inv done acc \<longleftrightarrow> (\<exists>inc rest. mset inc + mset rest \<subseteq># mset done \<and>
     ba_bundle acc = map me_userOp inc \<and> ba_notIncluded acc = map me_userOpHash rest)"

lemma includeEntry_lists:
  "(ba_bundle (includeEntry cfg e vr acc) = ba_bundle acc @ [me_userOp e] \<or>
    ba_bundle (includeEntry cfg e vr acc) = ba_bundle acc) \<and>
   ba_notIncluded (includeEntry cfg e vr acc) = ba_notIncluded acc"
  by (auto simp: includeEntry_def Let_def split: prod.split)

lemma decideEntry_lists:
  assumes acc'_def: "acc' = decideEntry cfg known e ps fs acc"
  shows "ba_bundle acc' = ba_bundle acc \<and> ba_notIncluded acc' = ba_notIncluded acc \<or>
    ba_bundle acc' = ba_bundle acc @ [me_userOp e] \<and> ba_notIncluded acc' = ba_notIncluded acc \<or>
    ba_bundle acc' = ba_bundle acc \<and> ba_notIncluded acc' = ba_notIncluded acc @ [me_userOpHash e]"
proof (cases "validateUserOperation cfg e")
  case (Left err)
  then show ?thesis by (simp add: acc'_def decideEntry_def Let_def)
next
  case (Right vr)
  then show ?thesis
    using includeEntry_lists [of cfg e vr acc]
    by (auto simp: acc'_def decideEntry_def Let_def split: option.split)
qed

lemma decideEntry_split:
  assumes "split_inv done acc"
  shows "split_inv (done @ [e]) (decideEntry cfg known e ps fs acc)"
proof -
  from assms obtain inc rest where
    i: "mset inc + mset rest \<subseteq># mset done" "ba_bundle acc = map me_userOp inc"
      "ba_notIncluded acc = map me_userOpHash rest"
    unfolding split_inv_def by blast
  have "mset inc + mset rest \<subseteq># mset (done @ [e])"
    using i(1) by (rule subset_mset.order_trans) simp
  moreover have "mset (inc @ [e]) + mset rest \<subseteq># mset (done @ [e])"
    "mset inc + mset (rest @ [e]) \<subseteq># mset (done @ [e])"
    using i(1) by simp_all
  moreover have "map me_userOp inc @ [me_userOp e] = map me_userOp (inc @ [e])"
    "map me_userOpHash rest @ [me_userOpHash e] = map me_userOpHash (rest @ [e])"
    by simp_all
  ultimately show ?thesis
    using decideEntry_lists [OF refl, of cfg known e ps fs acc] unfolding split_inv_def i(2,3) by metis
qed

lemma buildBundle_split:
  assumes "buildBundle cfg known entries initialAcc s = (Inr acc, t)"
  shows "split_inv entries acc \<and> t = s"
proof (rule buildBundle_invariant [OF assms, where J = split_inv])
  show "split_inv [] initialAcc" by (auto simp: split_inv_def intro: exI [of _ "[]"])
next
  fix don e acc assume "split_inv don acc" and "e \<in> set entries"
  then have "split_inv don (knownDeposit cfg (me_userOp e) acc)" by (simp add: split_inv_def)
  then show "split_inv (don @ [e]) (decideEntry cfg known e (statusIn s (paymaster (me_userOp e)))
        (statusIn s (factory (me_userOp e))) (knownDeposit cfg (me_userOp e) acc))"
    by (rule decideEntry_split)
qed

text \<open>
  What the operations called after the build keep: the entries taken for the bundle, known by
  their hashes, are not pending.
\<close>

definition taken_ok :: "standard_pool \<Rightarrow> string set \<Rightarrow> standard_pool \<Rightarrow> bool" where
  "taken_ok po0 hs po \<longleftrightarrow> pool_ok po \<and> (\<forall>(h, e) \<in> set po.
     (\<exists>e0. (h, e0) \<in> set po0 \<and> slot e0 = slot e) \<and> (h \<in> hs \<longrightarrow> me_status e \<noteq> pending))"

lemma taken_ok_subset:
  "taken_ok po0 hs po \<Longrightarrow> pool_ok po' \<Longrightarrow> set po' \<subseteq> set po \<Longrightarrow> taken_ok po0 hs po'"
  unfolding taken_ok_def by blast

lemma taken_ok_mono: "taken_ok po0 hs po \<Longrightarrow> hs' \<subseteq> hs \<Longrightarrow> taken_ok po0 hs' po"
  unfolding taken_ok_def by blast

lemma taken_ok_status:
  assumes "taken_ok po0 hs po" and "h \<notin> hs" and "map_of po h = Some e"
  shows "taken_ok po0 hs (AList.update (me_userOpHash e) (e\<lparr>me_status := st\<rparr>) po)"
proof -
  have po: "pool_ok po" and mem: "(h, e) \<in> set po"
    using assms(1,3) by (auto simp: taken_ok_def dest: map_of_SomeD)
  have h: "me_userOpHash e = h" by (rule pool_ok_hash [OF po mem])
  have upd: "AList.update h (e\<lparr>me_status := st\<rparr>) po
      = map (\<lambda>(a, b). (a, if a = h then e\<lparr>me_status := st\<rparr> else b)) po"
    using po mem by (intro update_existing) (auto simp: pool_ok_def intro: pool_key)
  have "pool_ok (AList.update (me_userOpHash e) (e\<lparr>me_status := st\<rparr>) po)"
    by (rule pool_ok_status [OF po]) (use mem h in auto)
  moreover have "slot (e\<lparr>me_status := st\<rparr>) = slot e" by (simp add: slot_def)
  ultimately show ?thesis
    using assms(1,2) mem unfolding taken_ok_def h upd by (auto split: if_splits)
qed

abbreviation taken_inv :: "standard_pool \<Rightarrow> string set \<Rightarrow> 'z State_scheme \<Rightarrow> bool" where
  "taken_inv po0 hs s \<equiv> taken_ok po0 hs (standardPool s)"

lemma removeUserOp_keeps_taken: "keeps (taken_inv po0 hs) (removeUserOp cfg x)"
proof -
  have "set (fst (dropEntry e po co)) \<subseteq> set po" for e po co
    by (auto simp: dropEntry_def Let_def AList.delete_eq)
  then have "taken_ok po0 hs po \<Longrightarrow> taken_ok po0 hs (fst (dropEntry e po co))" for e po co
    by (rule taken_ok_subset [rotated 2]) (auto intro: pool_ok_dropEntry simp: taken_ok_def)
  then show ?thesis
    unfolding removeUserOp_def
    by (auto intro!: keeps_andThen keeps_updatePoolAndCount split: option.split)
qed

lemma status_keeps_taken:
  assumes "h \<notin> hs"
  shows "keeps (taken_inv po0 hs :: 'z State_scheme \<Rightarrow> bool) (updateEntryStatus cfg (By_hash h) st)"
  unfolding updateEntryStatus_def
proof (rule keeps_unverified, fold updateEntryStatus_def, rule keepsI)
  fix s :: "'z State_scheme" assume "mp_verify cfg (mp_stateCapability cfg)" and "taken_inv po0 hs s"
  then show "taken_inv po0 hs (snd (updateEntryStatus cfg (By_hash h) st s))"
    by (auto simp: updateEntryStatus_run taken_ok_status [OF _ assms] split: option.split)
qed

lemma hook_keeps_taken:
  assumes "set ni \<inter> hs = {}"
  shows "keeps (taken_inv po0 hs :: 'z State_scheme \<Rightarrow> bool) (builderAfterHook cfg ni ds)"
proof -
  have seen: "keeps (taken_inv po0 hs :: 'z State_scheme \<Rightarrow> bool) (updateSeenStatus rep x act)" for rep x act
    by (rule reputation_actions_keep_pool) simp
  have one: "keeps (taken_inv po0 hs :: 'z State_scheme \<Rightarrow> bool) (removeOne cfg d)" for d
    unfolding removeOne_def Let_def
    by (auto intro!: keeps_andThen removeUserOp_keeps_taken seen
        split: remove_reason.split option.split sum.split)
  have "keeps (taken_inv po0 hs :: 'z State_scheme \<Rightarrow> bool) (removeMarked cfg ds)"
    by (induction ds) (auto intro!: keeps_andThen one)
  then show ?thesis
    unfolding builderAfterHook_def using assms
    by (intro keeps_andThen keeps_for_each status_keeps_taken) auto
qed

lemma getEntries_taken:
  fixes s :: "'z State_scheme"
  assumes "mp_verify (bb_mempool cfg) (mp_stateCapability (bb_mempool cfg))"
    and "pool_ok (standardPool s)" and "getEntries cfg force s = (Inr entries, t)"
  shows "taken_inv (standardPool s) (me_userOpHash ` set entries) t \<and>
    distinct (map me_userOpHash entries) \<and>
    (\<forall>e \<in> set entries. \<exists>e0. (me_userOpHash e, e0) \<in> set (standardPool s) \<and> slot e0 = slot e)"
proof (cases "length (standardPool s) = 0")
  case True
  with assms show ?thesis
    by (auto simp: getEntries_def andThen_def mp_size_def readPool_run taken_ok_def)
next
  case False
  let ?pend = "pendingOf (standardPool s)"
  have "\<exists>found. entries = map (me_status_update (\<lambda>_. bundling)) found \<and> set found \<subseteq> set ?pend \<and>
      distinct (map me_userOpHash found) \<and>
      standardPool t = markPool bundling (me_userOpHash ` set found) (standardPool s)"
  proof (cases force)
    case True
    with assms(3) False show ?thesis
      using distinct_pending_hashes [OF assms(2)]
      by (auto simp: getEntries_def andThen_def mp_size_def readPool_run [OF assms(1)]
          pending_run(2) [OF assms(1,2)])
  next
    case n: False
    let ?f = "take (nat (mp_bundleSize (bb_mempool cfg))) ?pend"
    have "distinct (map me_userOpHash ?f)"
      using distinct_pending_hashes [OF assms(2)] by (simp add: take_map [symmetric])
    with assms(3) False n show ?thesis
      by (intro exI [of _ ?f]) (auto simp: getEntries_def andThen_def mp_size_def
          readPool_run [OF assms(1)] pending_run(1) [OF assms(1,2)] dest: in_set_takeD)
  qed
  then obtain found where f: "entries = map (me_status_update (\<lambda>_. bundling)) found"
    "set found \<subseteq> set ?pend" "distinct (map me_userOpHash found)"
    "standardPool t = markPool bundling (me_userOpHash ` set found) (standardPool s)" by blast
  have hashes: "me_userOpHash ` set entries = me_userOpHash ` set found"
    "map me_userOpHash entries = map me_userOpHash found"
    by (simp_all add: f(1) image_image comp_def)
  have "\<exists>e0. (me_userOpHash e, e0) \<in> set (standardPool s) \<and> slot e0 = slot e" if "e \<in> set entries" for e
    using that f(2) pendingOf_hash [OF assms(2)] by (fastforce simp: f(1) slot_def)
  moreover have "keeps pool_inv (getEntries cfg force :: ('z State_scheme, _) act)"
    unfolding getEntries_def mp_size_def
    by (intro keeps_andThen keeps_if keeps_ret keeps_readPool mempool_keeps_pool_inv)
  from keepsD [OF this assms(2)] have "pool_inv t" by (simp add: assms(3))
  then have "taken_inv (standardPool s) (me_userOpHash ` set entries) t"
    unfolding taken_ok_def hashes f(4) by (auto simp: markPool_def slot_def)
  ultimately show ?thesis using f(3) hashes(2) by simp
qed

lemma distinct_map_submset:
  assumes "mset ys \<subseteq># mset xs" and "distinct (map f xs)"
  shows "distinct (map f ys)"
proof -
  from assms(1) obtain zs where "mset xs = mset (ys @ zs)"
    by (metis ex_mset mset_append mset_subset_eq_exists_conv)
  then have "mset (map f xs) = mset (map f ys @ map f zs)" by (metis map_append mset_map)
  with assms(2) have "distinct (map f ys @ map f zs)"
    by (metis mset_eq_imp_distinct_iff)
  then show ?thesis by simp
qed

text \<open>The operations of a created bundle are not pending in the state it leaves behind.\<close>

lemma created_bundle_not_pending:
  assumes "mp_verify (bb_mempool cfg) (mp_stateCapability (bb_mempool cfg))"
    and "pool_ok (standardPool s)" and "createBundle cfg force s = (Inr (ops, sm, auths), t)"
  shows "\<forall>(h, e) \<in> set (standardPool t). me_userOp e \<in> set ops \<longrightarrow> me_status e \<noteq> pending"
proof -
  from assms(3) obtain entries s1 where entries: "getEntries cfg force s = (Inr entries, s1)"
    and rest: "(if entries = [] then ret ([], [], [])
         else andThen (mp_getKnownSenders (bb_mempool cfg))
           (\<lambda>knownSenders. andThen (buildBundle cfg knownSenders entries initialAcc)
             (\<lambda>acc. andThen (builderAfterHook cfg (ba_notIncluded acc) (ba_marked acc))
               (\<lambda>_. ret (ba_bundle acc, ba_storageMap acc, ba_eip7702Tuples acc))))) s1
      = (Inr (ops, sm, auths), t)"
    unfolding createBundle_def by (auto elim: andThen_InrE)
  note taken = getEntries_taken [OF assms(1,2) entries]
  show ?thesis
  proof (cases "entries = []")
    case True
    with rest show ?thesis by auto
  next
    case False
    with rest obtain known s2 acc s3 u1 s4 where
      known: "mp_getKnownSenders (bb_mempool cfg) s1 = (Inr known, s2)"
      and build: "buildBundle cfg known entries initialAcc s2 = (Inr acc, s3)"
      and hook: "builderAfterHook cfg (ba_notIncluded acc) (ba_marked acc) s3 = (Inr u1, s4)"
      and out: "ops = ba_bundle acc" "t = s4"
      by (auto elim!: andThen_InrE)
    from known have s2: "s2 = s1"
      by (auto simp: mp_getKnownSenders_def readPool_run [OF assms(1)])
    from buildBundle_split [OF build] obtain inc others where
      i: "mset inc + mset others \<subseteq># mset entries" "ba_bundle acc = map me_userOp inc"
        "ba_notIncluded acc = map me_userOpHash others" and s3: "s3 = s2"
      unfolding split_inv_def by blast
    let ?hs = "me_userOpHash ` set inc"
    have sub: "set inc \<subseteq> set entries" using i(1) by (metis mset_subset_eqD set_mset_mset subsetI union_iff)
    from taken i(1) have "distinct (map me_userOpHash (inc @ others))"
      by (intro distinct_map_submset [of "inc @ others" entries]) simp_all
    then have disj: "set (ba_notIncluded acc) \<inter> ?hs = {}" by (auto simp: i(3))
    have "taken_inv (standardPool s) ?hs s3"
      using taken sub by (auto simp: s3 s2 intro: taken_ok_mono)
    from keepsD [OF hook_keeps_taken [OF disj, where cfg = cfg and ds = "ba_marked acc"] this]
    have t: "taken_inv (standardPool s) ?hs t" by (simp add: hook out(2))
    show ?thesis
    proof clarify
      fix h e assume e: "(h, e) \<in> set (standardPool t)" "me_userOp e \<in> set ops" "me_status e = pending"
      from e(2) obtain x where x: "x \<in> set inc" "me_userOp e = me_userOp x" by (auto simp: out i(2))
      from x(1) sub taken obtain x0 where x0: "(me_userOpHash x, x0) \<in> set (standardPool s)" "slot x0 = slot x"
        by blast
      from e(1) t obtain e0 where e0: "(h, e0) \<in> set (standardPool s)" "slot e0 = slot e"
        unfolding taken_ok_def by blast
      have "slot e0 = slot x0" using x(2) x0(2) e0(2) by (simp add: slot_def)
      from pool_ok_slot [OF assms(2) e0(1) x0(1) this] have "h = me_userOpHash x" .
      with x(1) e t show False unfolding taken_ok_def by blast
    qed
  qed
qed

section \<open>Properties\<close>

lemma recordTx_run:
  assumes "bm_verify cfg (bm_stateCapability cfg)"
  shows "recordTx cfg r s = (Inr True,
    s\<lparr>bundleTxs := AList.update (sb_transactionHash r) (pendingTx r) (bundleTxs s)\<rparr>)"
  unfolding recordTx_def
  using bundle_txs_field.update_field [where verify = "bm_verify cfg" and cap = "bm_stateCapability cfg"
      and s = s and f = "AList.update (sb_transactionHash r) (pendingTx r)", OF assms] by simp

text \<open>
  Property C25. When an attempt's transaction was sent, the attempt returns its hash and records it
  as pending, and no pooled operation that is in the bundle is pending any more: a later attempt
  takes none of them unless an event or a failure returns it to pending first.
\<close>

theorem successful_attempt_sends_once:
  fixes s :: "'z event_state_scheme"
  assumes "mp_verify (bb_mempool (bm_builder cfg)) (mp_stateCapability (bb_mempool (bm_builder cfg)))"
    and "bm_verify cfg (bm_stateCapability cfg)"
    and "handlePastEvents (bm_events cfg) s = (Inr (), s1)" and "service_inv s"
    and "createBundle (bm_builder cfg) force s1 = (Inr (ops, sm, auths), s2)" and "ops \<noteq> []"
    and "attemptSend (bm_processor cfg) ops auths = Inr hash"
  shows "\<exists>t. doAttemptBundle cfg force s = (Inr (hash, bp_userOpHashes (bm_processor cfg) ops), t) \<and>
    standardPool t = standardPool s2 \<and>
    map_of (bundleTxs t) hash = Some \<lparr>txHash = hash, signerIndex = 0, tx_status = tx_pending\<rparr> \<and>
    set ops \<inter> me_userOp ` set (pendingOf (standardPool t)) = {}"
proof -
  let ?r = "\<lparr>sb_transactionHash = hash, sb_userOpHashes = bp_userOpHashes (bm_processor cfg) ops,
     sb_signerIndex = 0, sb_isSendBundleSuccess = True\<rparr>"
  define t where "t = s2\<lparr>bundleTxs := AList.update hash (pendingTx ?r) (bundleTxs s2)\<rparr>"
  have send: "sendBundle (bm_processor cfg) ops auths s2 = (Inr ?r, s2)"
    using assms(7) by (simp add: sendBundle_def processorAfterHook_def)
  have run: "doAttemptBundle cfg force s = (Inr (hash, bp_userOpHashes (bm_processor cfg) ops), t)"
    using assms(6) by (simp add: doAttemptBundle_def andThen_def assms(3,5) send
        recordTx_run [OF assms(2)] t_def)
  have "service_inv s1" using keepsD [OF shared_only.events_keep, of s "bm_events cfg"] assms(4) by (simp add: assms(3))
  then have "pool_ok (standardPool s1)" by (simp add: service_inv_def)
  from created_bundle_not_pending [OF assms(1) this assms(5)]
  have "set ops \<inter> me_userOp ` set (pendingOf (standardPool t)) = {}"
    by (auto simp: t_def pendingOf_def)
  with run show ?thesis by (intro exI [of _ t]) (simp add: t_def pendingTx_def)
qed

definition demo_manager :: manager_config where
  "demo_manager = \<lparr>bm_events = demo_events\<lparr>ec_queryUserOperation := \<lambda>_. [], ec_queryAccountDeployed := \<lambda>_. []\<rparr>,
     bm_builder = demo_builder,
     bm_processor = (demo_processor (plain_error []))\<lparr>bp_submit := \<lambda>_ _ _. Inr ''0xfeed''\<rparr>,
     bm_verify = \<lambda>_. True, bm_stateCapability = demo_capability, bm_isAutoBundle = True,
     bm_autoBundleInterval = 10\<rparr>"

definition demo_waiting :: event_state where
  "demo_waiting = demo_event_state\<lparr>reputationEntries := [],
     standardPool := [(''h1'', demo_entry (demo_op ''0xab'' 0 None 1) ''h1'' pending)]\<rparr>"

lemma createBundle_one:
  fixes s :: "'z State_scheme"
  assumes "standardPool s = [(h, demo_entry (demo_op a 0 None 1) h pending)]"
  shows "createBundle demo_builder False s = (Inr ([demo_op a 0 None 1], [], []),
    s\<lparr>standardPool := [(h, demo_entry (demo_op a 0 None 1) h bundling)]\<rparr>)"
proof -
  let ?e = "demo_entry (demo_op a 0 None 1) h"
  have ok: "pool_ok (standardPool s)" by (simp add: assms pool_ok_def obj_ok_def)
  have "me_status_update (\<lambda>_. bundling) (?e pending) = ?e bundling" by (simp add: demo_entry_def)
  then have "getEntries demo_builder False s = (Inr [?e bundling], s\<lparr>standardPool := [(h, ?e bundling)]\<rparr>)"
    using pending_run(1) [of "demo_mempool 5" s] ok
    by (simp add: getEntries_def andThen_def mp_size_def readPool_run pendingOf_def markPool_def assms)
  moreover have "buildBundle demo_builder known [?e bundling] initialAcc t
      = (Inr (initialAcc\<lparr>ba_bundle := [demo_op a 0 None 1], ba_totalGas := 1, ba_senders := [a]\<rparr>), t)"
    for known and t :: "'z State_scheme"
    by (simp add: build_eval getStatus_run statusOf_def)
  moreover have initial: "ba_storageMap initialAcc = []" "ba_eip7702Tuples initialAcc = []"
    by (simp_all add: initialAcc_def)
  ultimately show ?thesis
    by (simp add: createBundle_def andThen_def mp_getKnownSenders_def readPool_run
        builderAfterHook_def del: buildBundle.simps)
qed

theorem successful_attempt_sends_once_witness:
  "fst (doAttemptBundle demo_manager False demo_waiting) = Inr (''0xfeed'', [])"
proof -
  let ?s1 = "demo_waiting\<lparr>lastBlock := Some 1\<rparr>"
  have events: "handlePastEvents (bm_events demo_manager) demo_waiting = (Inr (), ?s1)"
    by (simp add: handlePastEvents_def demo_manager_def pastEvents_def firstBlock_def demo_waiting_def)
      (simp add: demo_events_def LAST_1000_BLOCKS_def)
  have created: "createBundle (bm_builder demo_manager) False ?s1 = (Inr ([demo_op ''0xab'' 0 None 1], [], []),
      ?s1\<lparr>standardPool := [(''h1'', demo_entry (demo_op ''0xab'' 0 None 1) ''h1'' bundling)]\<rparr>)"
    by (simp add: demo_manager_def) (rule createBundle_one, simp add: demo_waiting_def)
  have sent: "attemptSend (bm_processor demo_manager) [demo_op ''0xab'' 0 None 1] [] = Inr ''0xfeed''"
    by (simp add: attemptSend_def demo_manager_def demo_processor_def txType_def routeOf_def)
  have "service_inv demo_waiting"
    by (simp add: service_inv_def demo_waiting_def pool_ok_def obj_ok_def entries_ok_def)
  from successful_attempt_sends_once [OF _ _ events this created _ sent] show ?thesis
    by (auto simp: demo_manager_def demo_processor_def)
qed

end
