(* ===== verification/Audit_Queue.thy ===== *)
theory Audit_Queue
  imports Bundler_Types
begin

text \<open>
  The audit log (\<open>src/logger/audit/audit-queue.ts\<close>, \<open>audit-logger.ts\<close>): a bounded buffer between
  the callers of \<open>enqueue\<close> and one background worker.

  The state has the circular buffer, its two indices, the value of the semaphore, the producers
  that wait for a slot (\<open>aq_blocked\<close>) and those that have one and wait for the buffer's lock
  (\<open>aq_waiting\<close>), the position of the worker between two of its suspension points, and the events
  handed to the writer with the writer's success. Code between two suspension points is one step;
  a critical section under the lock is one step because nothing in it suspends. The semaphore
  serves waiting producers in order, as documented by the package \<open>async-mutex\<close>.
\<close>

section \<open>State\<close>

text \<open>The flag tells the final drain of \<open>shutdown\<close> from the periodic one.\<close>

datatype 'e worker_pc = W_loop | W_check bool | W_take bool | W_write bool "'e option"
  | W_release bool | W_drained | W_sleeping | W_stopped

record 'e audit_queue =
  aq_buffer :: "'e option list"
  aq_head :: nat
  aq_tail :: nat
  aq_slots :: nat
  aq_running :: bool
  aq_waiting :: "'e list"
  aq_blocked :: "'e list"
  aq_pc :: "'e worker_pc"
  aq_log :: "('e \<times> bool) list"

definition createAuditLogQueue :: "nat \<Rightarrow> 'e audit_queue" where
  "createAuditLogQueue bufferCapacity =
     \<lparr>aq_buffer = replicate bufferCapacity None, aq_head = 0, aq_tail = 0, aq_slots = bufferCapacity,
      aq_running = True, aq_waiting = [], aq_blocked = [], aq_pc = W_loop, aq_log = []\<rparr>"

section \<open>Steps\<close>

text \<open>\<open>await emptySlots.acquire()\<close>\<close>

definition enqueue_acquire :: "'e \<Rightarrow> 'e audit_queue \<Rightarrow> 'e audit_queue" where
  "enqueue_acquire event s =
     (if aq_slots s > 0 then s\<lparr>aq_slots := aq_slots s - 1, aq_waiting := aq_waiting s @ [event]\<rparr>
      else s\<lparr>aq_blocked := aq_blocked s @ [event]\<rparr>)"

text \<open>The critical section of \<open>enqueue\<close>.\<close>

definition enqueue_store :: "nat \<Rightarrow> 'e audit_queue \<Rightarrow> 'e audit_queue" where
  "enqueue_store bufferCapacity s =
     (case aq_waiting s of
        [] \<Rightarrow> s
      | event # rest \<Rightarrow> s\<lparr>aq_buffer := (aq_buffer s)[aq_tail s := Some event],
          aq_tail := (aq_tail s + 1) mod bufferCapacity, aq_waiting := rest\<rparr>)"

text \<open>\<open>emptySlots.release(1)\<close>: the slot goes to the first producer that waits for one.\<close>

definition release_slot :: "'e audit_queue \<Rightarrow> 'e audit_queue" where
  "release_slot s =
     (case aq_blocked s of
        [] \<Rightarrow> s\<lparr>aq_slots := aq_slots s + 1\<rparr>
      | event # rest \<Rightarrow> s\<lparr>aq_blocked := rest, aq_waiting := aq_waiting s @ [event]\<rparr>)"

text \<open>The critical section of \<open>drain\<close>.\<close>

definition drain_take :: "nat \<Rightarrow> bool \<Rightarrow> 'e audit_queue \<Rightarrow> 'e audit_queue" where
  "drain_take bufferCapacity final s =
     s\<lparr>aq_buffer := (aq_buffer s)[aq_head s := None],
       aq_head := (aq_head s + 1) mod bufferCapacity,
       aq_pc := W_write final (aq_buffer s ! aq_head s)\<rparr>"

text \<open>\<open>ok\<close> tells whether the writer succeeds; a failure is logged and forgotten.\<close>

definition drain_write :: "bool \<Rightarrow> bool \<Rightarrow> 'e option \<Rightarrow> 'e audit_queue \<Rightarrow> 'e audit_queue" where
  "drain_write ok final event s =
     (case event of
        None \<Rightarrow> s\<lparr>aq_pc := W_release final\<rparr>
      | Some e \<Rightarrow> s\<lparr>aq_log := aq_log s @ [(e, ok)], aq_pc := W_release final\<rparr>)"

definition worker_step :: "nat \<Rightarrow> bool \<Rightarrow> 'e audit_queue \<Rightarrow> 'e audit_queue" where
  "worker_step bufferCapacity ok s =
     (case aq_pc s of
        W_loop \<Rightarrow> s\<lparr>aq_pc := W_check (\<not> aq_running s)\<rparr>
      | W_check final \<Rightarrow>
          if aq_slots s < bufferCapacity then s\<lparr>aq_pc := W_take final\<rparr>
          else s\<lparr>aq_pc := (if final then W_stopped else W_drained)\<rparr>
      | W_take final \<Rightarrow> drain_take bufferCapacity final s
      | W_write final event \<Rightarrow> drain_write ok final event s
      | W_release final \<Rightarrow> (release_slot s)\<lparr>aq_pc := W_check final\<rparr>
      | W_drained \<Rightarrow> s\<lparr>aq_pc := (if aq_running s then W_sleeping else W_loop)\<rparr>
      | W_sleeping \<Rightarrow> s\<lparr>aq_pc := W_loop\<rparr>
      | W_stopped \<Rightarrow> s)"

definition shutdown :: "'e audit_queue \<Rightarrow> 'e audit_queue" where
  "shutdown s = s\<lparr>aq_running := False\<rparr>"

text \<open>
  A run, with the events submitted to \<open>enqueue\<close> in order. It is orderly if the worker takes from
  the buffer only when no producer stands between its slot and its store.
\<close>

datatype 'e audit_action = A_enqueue 'e | A_store | A_worker bool | A_shutdown

fun do_action :: "nat \<Rightarrow> 'e audit_action \<Rightarrow> 'e audit_queue \<Rightarrow> 'e audit_queue" where
  "do_action cap (A_enqueue e) s = enqueue_acquire e s"
| "do_action cap A_store s = enqueue_store cap s"
| "do_action cap (A_worker ok) s = worker_step cap ok s"
| "do_action cap A_shutdown s = shutdown s"

definition taking :: "'e audit_queue \<Rightarrow> bool" where
  "taking s = (case aq_pc s of W_take _ \<Rightarrow> True | _ \<Rightarrow> False)"

inductive orderly_run :: "nat \<Rightarrow> 'e list \<Rightarrow> 'e audit_queue \<Rightarrow> bool" for cap :: nat where
  run_start: "orderly_run cap [] (createAuditLogQueue cap)"
| run_enqueue: "orderly_run cap es s \<Longrightarrow> orderly_run cap (es @ [e]) (enqueue_acquire e s)"
| run_store: "orderly_run cap es s \<Longrightarrow> orderly_run cap es (enqueue_store cap s)"
| run_worker: "orderly_run cap es s \<Longrightarrow> taking s \<longrightarrow> aq_waiting s = [] \<Longrightarrow>
    orderly_run cap es (worker_step cap ok s)"
| run_shutdown: "orderly_run cap es s \<Longrightarrow> orderly_run cap es (shutdown s)"

section \<open>The circular buffer as a queue\<close>

text \<open>The buffer, read from the head, holds the queue and then empty cells.\<close>

definition ring_holds :: "nat \<Rightarrow> 'e audit_queue \<Rightarrow> 'e list \<Rightarrow> bool" where
  "ring_holds cap s es \<longleftrightarrow> aq_head s < cap \<and> length (aq_buffer s) = cap \<and> length es \<le> cap \<and>
     aq_tail s = (aq_head s + length es) mod cap \<and>
     rotate (aq_head s) (aq_buffer s) = map Some es @ replicate (cap - length es) None"

lemma mod_shift_le:
  fixes i n l :: nat
  assumes "(h + i) mod l = (h + n) mod l" and "n < l" and "i \<le> n"
  shows "i = n"
proof -
  have "l dvd (h + n) - (h + i)"
    using assms mod_eq_dvd_iff_nat [of "h + i" "h + n" l] by simp
  then have "l dvd n - i" by simp
  moreover have "n - i < l" using assms by simp
  ultimately have "n - i = 0" using dvd_imp_le [of l "n - i"] by linarith
  with assms(3) show ?thesis by simp
qed

lemma mod_shift_inj:
  fixes i n l :: nat
  shows "(h + i) mod l = (h + n) mod l \<Longrightarrow> i < l \<Longrightarrow> n < l \<Longrightarrow> i = n"
  using mod_shift_le [of h i l n] mod_shift_le [of h n l i] by (cases "i \<le> n") auto

lemma rotate_update:
  assumes "n < length xs"
  shows "rotate h (xs[(h + n) mod length xs := x]) = (rotate h xs)[n := x]"
proof (rule nth_equalityI)
  fix i assume "i < length (rotate h (xs[(h + n) mod length xs := x]))"
  then have i: "i < length xs" by simp
  then have "xs \<noteq> []" by auto
  then have "(h + i) mod length xs < length xs" "(h + n) mod length xs < length xs" by simp_all
  moreover have "(h + n) mod length xs = (h + i) mod length xs \<longleftrightarrow> n = i"
    using mod_shift_inj [of h n "length xs" i] i assms by auto
  ultimately show "rotate h (xs[(h + n) mod length xs := x]) ! i = (rotate h xs)[n := x] ! i"
    using i by (simp add: nth_rotate nth_list_update)
qed simp

lemma ring_start: "0 < cap \<Longrightarrow> ring_holds cap (createAuditLogQueue cap) []"
  by (simp add: ring_holds_def createAuditLogQueue_def)

lemma ring_store:
  assumes "ring_holds cap s es" and "length es < cap" and "aq_waiting s = e # ws"
  shows "ring_holds cap (enqueue_store cap s) (es @ [e])"
proof -
  let ?n = "length es"
  have r: "aq_head s < cap" "length (aq_buffer s) = cap" "aq_tail s = (aq_head s + ?n) mod cap"
    "rotate (aq_head s) (aq_buffer s) = map Some es @ replicate (cap - ?n) None"
    using assms(1) by (simp_all add: ring_holds_def)
  obtain k where k: "cap - ?n = Suc k" "cap - Suc ?n = k" using assms(2) by (cases "cap - ?n") auto
  have "rotate (aq_head s) ((aq_buffer s)[aq_tail s := Some e])
      = (map Some es @ replicate (cap - ?n) None)[?n := Some e]"
    using rotate_update [of ?n "aq_buffer s" "aq_head s" "Some e"] r assms(2) by simp
  also have "\<dots> = map Some (es @ [e]) @ replicate (cap - Suc ?n) None"
    by (simp add: k list_update_append)
  finally show ?thesis
    using r assms(2,3) by (simp add: ring_holds_def enqueue_store_def mod_Suc_eq)
qed

lemma ring_take:
  assumes "ring_holds cap s (e # es)"
  shows "ring_holds cap (drain_take cap f s) es" "aq_buffer s ! aq_head s = Some e"
proof -
  let ?h = "aq_head s"
  have r: "?h < cap" "length (aq_buffer s) = cap" "aq_tail s = (?h + Suc (length es)) mod cap"
    "rotate ?h (aq_buffer s) = Some e # map Some es @ replicate (cap - Suc (length es)) None"
    "Suc (length es) \<le> cap"
    using assms by (simp_all add: ring_holds_def)
  then have "0 < cap" by simp
  then have "rotate ?h (aq_buffer s) ! 0 = aq_buffer s ! ?h"
    using r(1,2) nth_rotate [of 0 "aq_buffer s" ?h] by simp
  then show "aq_buffer s ! ?h = Some e" using r(4) by simp
  have "rotate ?h ((aq_buffer s)[?h := None]) = None # map Some es @ replicate (cap - Suc (length es)) None"
    using rotate_update [of 0 "aq_buffer s" ?h None] r by simp
  then have "rotate (Suc ?h) ((aq_buffer s)[?h := None])
      = map Some es @ replicate (cap - Suc (length es)) None @ [None]"
    by (simp add: rotate_Suc)
  also have "replicate (cap - Suc (length es)) None @ [None] = replicate (cap - length es) None"
    using r(5) by (metis Suc_diff_Suc Suc_le_lessD replicate_Suc replicate_append_same)
  finally have "rotate (Suc ?h mod cap) ((aq_buffer s)[?h := None])
      = map Some es @ replicate (cap - length es) None"
    using r(2) by (metis length_list_update rotate_conv_mod)
  moreover have "aq_tail s = (Suc ?h mod cap + length es) mod cap"
    using r(3) by (simp add: mod_add_left_eq)
  ultimately show "ring_holds cap (drain_take cap f s) es"
    using r \<open>0 < cap\<close> by (simp add: ring_holds_def drain_take_def)
qed

section \<open>Orderly runs\<close>

text \<open>What the worker has taken and not yet written, and the slot it holds.\<close>

fun in_flight_pc :: "'e worker_pc \<Rightarrow> 'e list" where
  "in_flight_pc (W_write _ (Some e)) = [e]"
| "in_flight_pc _ = []"

fun held_pc :: "'e worker_pc \<Rightarrow> nat" where
  "held_pc (W_write _ _) = 1"
| "held_pc (W_release _) = 1"
| "held_pc _ = 0"

fun empty_handed :: "'e worker_pc \<Rightarrow> bool" where
  "empty_handed (W_write _ None) = True"
| "empty_handed _ = False"

definition buffered :: "'e audit_queue \<Rightarrow> 'e list" where
  "buffered s = map the (filter (\<lambda>c. c \<noteq> None) (rotate (aq_head s) (aq_buffer s)))"

text \<open>Everything submitted and not yet written, in the order it will be written.\<close>

definition unwritten :: "'e audit_queue \<Rightarrow> 'e list" where
  "unwritten s = in_flight_pc (aq_pc s) @ buffered s @ aq_waiting s @ aq_blocked s"

definition audit_inv :: "nat \<Rightarrow> 'e list \<Rightarrow> 'e audit_queue \<Rightarrow> bool" where
  "audit_inv cap es s \<longleftrightarrow> ring_holds cap s (buffered s) \<and>
     aq_slots s + length (buffered s) + length (aq_waiting s) + held_pc (aq_pc s) = cap \<and>
     (aq_blocked s \<noteq> [] \<longrightarrow> aq_slots s = 0) \<and> \<not> empty_handed (aq_pc s) \<and>
     (taking s \<longrightarrow> buffered s \<noteq> [] \<or> aq_waiting s \<noteq> []) \<and>
     map fst (aq_log s) @ unwritten s = es"

lemma buffered_ring: "ring_holds cap s q \<Longrightarrow> buffered s = q"
  by (simp add: ring_holds_def buffered_def)

lemma audit_invI:
  assumes "ring_holds cap s q"
    and "aq_slots s + length q + length (aq_waiting s) + held_pc (aq_pc s) = cap"
    and "aq_blocked s \<noteq> [] \<longrightarrow> aq_slots s = 0" and "\<not> empty_handed (aq_pc s)"
    and "taking s \<longrightarrow> q \<noteq> [] \<or> aq_waiting s \<noteq> []"
    and "map fst (aq_log s) @ in_flight_pc (aq_pc s) @ q @ aq_waiting s @ aq_blocked s = es"
  shows "audit_inv cap es s"
  using assms buffered_ring [OF assms(1)] by (simp add: audit_inv_def unwritten_def)

lemma audit_invE:
  assumes "audit_inv cap es s"
  obtains q where "buffered s = q" and "ring_holds cap s q"
    and "aq_slots s + length q + length (aq_waiting s) + held_pc (aq_pc s) = cap"
    and "aq_blocked s \<noteq> [] \<longrightarrow> aq_slots s = 0" and "\<not> empty_handed (aq_pc s)"
    and "taking s \<longrightarrow> q \<noteq> [] \<or> aq_waiting s \<noteq> []"
    and "map fst (aq_log s) @ in_flight_pc (aq_pc s) @ q @ aq_waiting s @ aq_blocked s = es"
  using that [OF refl] assms by (simp add: audit_inv_def unwritten_def)

lemma ring_updates [simp]:
  "ring_holds cap (s\<lparr>aq_slots := n\<rparr>) q = ring_holds cap s q"
  "ring_holds cap (s\<lparr>aq_waiting := es\<rparr>) q = ring_holds cap s q"
  "ring_holds cap (s\<lparr>aq_blocked := es\<rparr>) q = ring_holds cap s q"
  "ring_holds cap (s\<lparr>aq_pc := pc\<rparr>) q = ring_holds cap s q"
  "ring_holds cap (s\<lparr>aq_log := l\<rparr>) q = ring_holds cap s q"
  "ring_holds cap (s\<lparr>aq_running := b\<rparr>) q = ring_holds cap s q"
  by (simp_all add: ring_holds_def)

lemma inv_start: "0 < cap \<Longrightarrow> audit_inv cap [] (createAuditLogQueue cap)"
  by (rule audit_invI [of _ _ "[]"]) (simp_all add: ring_start, simp_all add: createAuditLogQueue_def taking_def)

lemma inv_enqueue: "audit_inv cap es s \<Longrightarrow> audit_inv cap (es @ [e]) (enqueue_acquire e s)"
  by (erule audit_invE, rule audit_invI)
    (auto simp: enqueue_acquire_def taking_def)

lemma inv_store: "audit_inv cap es s \<Longrightarrow> audit_inv cap es (enqueue_store cap s)"
proof (cases "aq_waiting s")
  case (Cons e ws)
  assume "audit_inv cap es s"
  then obtain q where q: "ring_holds cap s q"
    "aq_slots s + length q + length (aq_waiting s) + held_pc (aq_pc s) = cap"
    "aq_blocked s \<noteq> [] \<longrightarrow> aq_slots s = 0" "\<not> empty_handed (aq_pc s)"
    "map fst (aq_log s) @ in_flight_pc (aq_pc s) @ q @ aq_waiting s @ aq_blocked s = es"
    by (rule audit_invE)
  then have "ring_holds cap (enqueue_store cap s) (q @ [e])"
    using Cons by (intro ring_store [of _ _ _ _ ws]) simp_all
  then show ?thesis
    by (rule audit_invI) (use q Cons in \<open>auto simp: enqueue_store_def taking_def\<close>)
qed (simp add: enqueue_store_def)

text \<open>Moving between two positions that hold nothing.\<close>

lemma inv_pc:
  "audit_inv cap es s \<Longrightarrow> held_pc (aq_pc s) = 0 \<Longrightarrow> held_pc pc = 0 \<Longrightarrow> \<forall>f. pc \<noteq> W_take f \<Longrightarrow>
   audit_inv cap es (s\<lparr>aq_pc := pc\<rparr>)"
  by (erule audit_invE, rule audit_invI; cases "aq_pc s"; cases pc) (auto simp: taking_def)

lemma inv_worker:
  assumes "audit_inv cap es s" and "taking s \<longrightarrow> aq_waiting s = []"
  shows "audit_inv cap es (worker_step cap ok s)"
proof -
  obtain q where q: "ring_holds cap s q"
    "aq_slots s + length q + length (aq_waiting s) + held_pc (aq_pc s) = cap"
    "aq_blocked s \<noteq> [] \<longrightarrow> aq_slots s = 0" "\<not> empty_handed (aq_pc s)"
    "taking s \<longrightarrow> q \<noteq> [] \<or> aq_waiting s \<noteq> []"
    "map fst (aq_log s) @ in_flight_pc (aq_pc s) @ q @ aq_waiting s @ aq_blocked s = es"
    using assms(1) by (rule audit_invE)
  show ?thesis
  proof (cases "aq_pc s")
    case (W_take f)
    with q(5) assms(2) obtain e q' where e: "q = e # q'" "aq_waiting s = []"
      by (cases q) (auto simp: taking_def)
    from ring_take [OF q(1) [unfolded e(1)]]
    have "ring_holds cap (drain_take cap f s) q'" "aq_buffer s ! aq_head s = Some e" by simp_all
    then show ?thesis unfolding worker_step_def W_take worker_pc.case
      by (intro audit_invI) (use q e W_take in \<open>auto simp: drain_take_def taking_def\<close>)
  next
    case (W_write f ev)
    with q(4) obtain e where "ev = Some e" by (cases ev) auto
    then show ?thesis
      by (intro audit_invI [of _ _ q])
        (use q W_write in \<open>auto simp: worker_step_def drain_write_def taking_def\<close>)
  next
    case (W_release f)
    then show ?thesis
      by (intro audit_invI [of _ _ q])
        (use q W_release in \<open>auto simp: worker_step_def release_slot_def taking_def
          split: list.splits\<close>)
  next
    case (W_check f)
    then show ?thesis
      by (intro audit_invI [of _ _ q])
        (use q W_check in \<open>auto simp: worker_step_def taking_def\<close>)
  qed (use assms(1) in \<open>simp_all add: worker_step_def inv_pc\<close>)
qed

lemma inv_shutdown: "audit_inv cap es s \<Longrightarrow> audit_inv cap es (shutdown s)"
  by (erule audit_invE, rule audit_invI) (auto simp: shutdown_def taking_def)

lemma orderly_inv: "orderly_run cap es s \<Longrightarrow> 0 < cap \<Longrightarrow> audit_inv cap es s"
  by (induction rule: orderly_run.induct)
    (simp_all add: inv_start inv_enqueue inv_store inv_worker inv_shutdown)

section \<open>Refinement of a FIFO log\<close>

text \<open>The abstract log: what is written, and what is still to be written.\<close>

definition fifo_abs :: "'e audit_queue \<Rightarrow> 'e list \<times> 'e list" where
  "fifo_abs s = (map fst (aq_log s), unwritten s)"

inductive fifo_step :: "'e list \<times> 'e list \<Rightarrow> 'e list \<times> 'e list \<Rightarrow> bool" where
  fifo_submit: "fifo_step (d, q) (d, q @ [e])"
| fifo_deliver: "fifo_step (d, e # q) (d @ [e], q)"
| fifo_idle: "fifo_step p p"

lemma fifo_abs_parts: "audit_inv cap es s \<Longrightarrow> fst (fifo_abs s) @ snd (fifo_abs s) = es"
  by (simp add: audit_inv_def fifo_abs_def)

lemma log_enqueue: "aq_log (enqueue_acquire e s) = aq_log s"
  by (simp add: enqueue_acquire_def)

lemma log_store: "aq_log (enqueue_store cap s) = aq_log s"
  by (simp add: enqueue_store_def split: list.split)

lemma log_worker: "aq_log (worker_step cap ok s) = aq_log s \<or>
    (\<exists>e. aq_log (worker_step cap ok s) = aq_log s @ [(e, ok)])"
  by (simp add: worker_step_def drain_take_def drain_write_def release_slot_def
      split: worker_pc.split option.split list.split)

lemma same_log_idle:
  assumes "audit_inv cap es s" and "audit_inv cap es t" and "aq_log t = aq_log s"
  shows "fifo_abs t = fifo_abs s"
  using assms by (auto simp: audit_inv_def fifo_abs_def)

fun allowed :: "'e audit_action \<Rightarrow> 'e audit_queue \<Rightarrow> bool" where
  "allowed (A_worker ok) s = (taking s \<longrightarrow> aq_waiting s = [])"
| "allowed _ s = True"

lemma action_refines:
  assumes "audit_inv cap es s" and "allowed a s"
  shows "fifo_step (fifo_abs s) (fifo_abs (do_action cap a s))"
proof (cases a)
  case (A_enqueue e)
  have "fifo_abs (do_action cap a s) = (map fst (aq_log s), unwritten s @ [e])"
    using assms(1) inv_enqueue [OF assms(1), of e]
    by (auto simp: A_enqueue fifo_abs_def audit_inv_def log_enqueue)
  then show ?thesis by (simp add: fifo_abs_def [of s] fifo_submit)
next
  case A_store
  then show ?thesis
    using same_log_idle [OF assms(1) inv_store [OF assms(1)] log_store] by (simp add: fifo_idle)
next
  case (A_worker ok)
  with assms have i: "audit_inv cap es (worker_step cap ok s)" by (simp add: inv_worker)
  show ?thesis
    using log_worker [of cap ok s]
  proof
    assume "aq_log (worker_step cap ok s) = aq_log s"
    from same_log_idle [OF assms(1) i this] show ?thesis by (simp add: A_worker fifo_idle)
  next
    assume "\<exists>e. aq_log (worker_step cap ok s) = aq_log s @ [(e, ok)]"
    then obtain e where e: "aq_log (worker_step cap ok s) = aq_log s @ [(e, ok)]" by blast
    with i assms(1) have "unwritten s = e # unwritten (worker_step cap ok s)"
      by (auto simp: audit_inv_def)
    with e show ?thesis by (simp add: A_worker fifo_abs_def fifo_deliver)
  qed
next
  case A_shutdown
  then show ?thesis
    by (simp add: fifo_abs_def shutdown_def unwritten_def buffered_def fifo_idle)
qed

text \<open>
  Property C11. The audit queue implements a first-in first-out log of bounded memory: in a run in
  which the worker never takes from the buffer while a producer stands between its slot and its
  store, every step submits one event, hands the oldest unwritten event to the writer, or changes
  nothing a client can see; the events written, followed by those still to be written, are the
  submitted events in order, and the buffer never holds more than its capacity.
\<close>

theorem audit_queue_refines_fifo:
  assumes "0 < cap" and "orderly_run cap es s" and "allowed a s"
  shows "fifo_step (fifo_abs s) (fifo_abs (do_action cap a s)) \<and>
    map fst (aq_log s) @ unwritten s = es \<and> length (buffered s) \<le> cap"
  using action_refines [OF orderly_inv [OF assms(2,1)] assms(3)] orderly_inv [OF assms(2,1)]
  by (simp add: audit_inv_def)

definition demo_audit_queue :: "nat audit_queue" where
  "demo_audit_queue = worker_step 1 True (worker_step 1 True (enqueue_store 1
     (enqueue_acquire 8 (enqueue_acquire 7 (createAuditLogQueue 1)))))"

lemma demo_audit_run: "orderly_run 1 [7, 8] demo_audit_queue"
proof -
  have "orderly_run 1 [7, 8] (enqueue_acquire 8 (enqueue_acquire (7::nat) (createAuditLogQueue 1)))"
    using run_enqueue [OF run_enqueue [OF run_start, of 1 7], of 8] by simp
  note r = run_store [OF this]
  have t: "\<not> taking (enqueue_store 1 (enqueue_acquire 8 (enqueue_acquire (7::nat) (createAuditLogQueue 1))))"
    "\<not> taking (worker_step 1 True (enqueue_store 1 (enqueue_acquire 8
        (enqueue_acquire (7::nat) (createAuditLogQueue 1)))))"
    by code_simp+
  show ?thesis
    unfolding demo_audit_queue_def by (rule run_worker [OF run_worker [OF r]]) (use t in blast)+
qed

theorem audit_queue_refines_fifo_witness:
  "fifo_step ([], [7, 8]) (fifo_abs (do_action 1 (A_worker True) demo_audit_queue)) \<and>
   aq_blocked demo_audit_queue = [8]"
proof -
  have "allowed (A_worker True) demo_audit_queue" "fifo_abs demo_audit_queue = ([], [7, 8])"
    "aq_blocked demo_audit_queue = [8]"
    by code_simp+
  then show ?thesis using audit_queue_refines_fifo [OF _ demo_audit_run] by fastforce
qed

section \<open>Shutting down\<close>

text \<open>
  After \<open>shutdown\<close>, with no further submissions: producers that have a slot store before the
  worker goes on; the list gives the writer's successes and its length the number of steps.
\<close>

definition settle_step :: "nat \<Rightarrow> bool \<Rightarrow> 'e audit_queue \<Rightarrow> 'e audit_queue" where
  "settle_step cap ok s = (if aq_waiting s \<noteq> [] then enqueue_store cap s else worker_step cap ok s)"

definition settle :: "nat \<Rightarrow> bool list \<Rightarrow> 'e audit_queue \<Rightarrow> 'e audit_queue" where
  "settle cap oks s = fold (settle_step cap) oks s"

fun pc_rank :: "'e worker_pc \<Rightarrow> nat" where
  "pc_rank W_stopped = 0"
| "pc_rank (W_take f) = (if f then 1 else 5)"
| "pc_rank (W_check f) = (if f then 2 else 6)"
| "pc_rank W_loop = 3"
| "pc_rank W_drained = 4"
| "pc_rank W_sleeping = 4"
| "pc_rank (W_release f) = (if f then 4 else 8)"
| "pc_rank (W_write f _) = (if f then 5 else 9)"

definition settle_measure :: "'e audit_queue \<Rightarrow> nat" where
  "settle_measure s = 5 * length (buffered s) + 6 * length (aq_waiting s) + 7 * length (aq_blocked s)
     + pc_rank (aq_pc s)"

definition settling :: "nat \<Rightarrow> 'e list \<Rightarrow> 'e audit_queue \<Rightarrow> bool" where
  "settling cap es s \<longleftrightarrow> audit_inv cap es s \<and> \<not> aq_running s \<and>
     (aq_pc s = W_stopped \<longrightarrow> unwritten s = [])"

lemma running_steps [simp]:
  "aq_running (enqueue_store cap s) = aq_running s"
  "aq_running (worker_step cap ok s) = aq_running s"
  by (simp_all add: enqueue_store_def worker_step_def drain_take_def drain_write_def release_slot_def
      split: worker_pc.split option.split list.split)

lemma worker_stops_empty:
  assumes "audit_inv cap es s" and "0 < cap" and "aq_pc s \<noteq> W_stopped"
    and "aq_pc (worker_step cap ok s) = W_stopped"
  shows "unwritten (worker_step cap ok s) = []"
proof (cases "aq_pc s")
  case (W_check f)
  show ?thesis
  proof (cases "aq_slots s < cap")
    case False
    with assms(1,2) W_check have "unwritten s = []" by (auto simp: audit_inv_def unwritten_def)
    then show ?thesis using W_check False by (auto simp: worker_step_def unwritten_def buffered_def)
  qed (use assms(4) W_check in \<open>simp add: worker_step_def\<close>)
qed (use assms(3,4) in \<open>auto simp: worker_step_def drain_take_def drain_write_def split: option.splits if_splits\<close>)

lemma worker_stopped [simp]: "aq_pc s = W_stopped \<Longrightarrow> worker_step cap ok s = s"
  by (simp add: worker_step_def)

lemma settling_step:
  assumes "settling cap es s" and "0 < cap"
  shows "settling cap es (settle_step cap ok s)"
proof (cases "aq_waiting s")
  case Nil
  have inv: "audit_inv cap es s" using assms by (simp add: settling_def)
  with Nil have "audit_inv cap es (worker_step cap ok s)" by (simp add: inv_worker)
  moreover have "aq_pc (worker_step cap ok s) = W_stopped \<longrightarrow> unwritten (worker_step cap ok s) = []"
    using worker_stops_empty [OF inv assms(2)] assms(1) by (cases "aq_pc s = W_stopped") (auto simp: settling_def)
  ultimately show ?thesis using assms(1) Nil by (simp add: settling_def settle_step_def)
next
  case (Cons e ws)
  then have "aq_pc (enqueue_store cap s) = aq_pc s" "unwritten s \<noteq> []"
    by (simp_all add: enqueue_store_def unwritten_def)
  then show ?thesis
    using assms(1) Cons by (simp add: settling_def settle_step_def inv_store)
qed

lemma settle_measure_less:
  assumes "settling cap es s" and "0 < cap" and "aq_pc s \<noteq> W_stopped"
  shows "settle_measure (settle_step cap ok s) < settle_measure s"
proof -
  have inv: "audit_inv cap es s" using assms(1) by (simp add: settling_def)
  have inv': "audit_inv cap es (settle_step cap ok s)"
    using settling_step [OF assms(1,2)] by (simp add: settling_def)
  then have e: "map fst (aq_log (settle_step cap ok s)) @ unwritten (settle_step cap ok s) = map fst (aq_log s) @ unwritten s"
    using inv by (simp add: audit_inv_def)
  show ?thesis
  proof (cases "aq_waiting s")
    case (Cons x ws)
    from e show ?thesis
      by (auto simp: settle_step_def Cons log_store settle_measure_def unwritten_def enqueue_store_def
          dest: arg_cong [where f = length])
  next
    case Nil
    note ss = settle_step_def Nil worker_step_def settle_measure_def
    have b: "buffered (s\<lparr>aq_pc := pc\<rparr>) = buffered s" for pc by (simp add: buffered_def)
    show ?thesis
    proof (cases "aq_pc s")
      case W_loop then show ?thesis using assms(1) by (simp add: ss b settling_def)
    next
      case (W_check f) then show ?thesis by (simp add: ss b)
    next
      case W_drained then show ?thesis using assms(1) by (simp add: ss b settling_def)
    next
      case W_sleeping then show ?thesis by (simp add: ss b)
    next
      case (W_release f)
      then show ?thesis by (simp add: ss buffered_def release_slot_def split: list.split)
    next
      case (W_write f ev)
      then show ?thesis by (simp add: ss buffered_def drain_write_def split: option.split)
    next
      case (W_take f)
      with inv Nil obtain x q where q: "buffered s = x # q" "ring_holds cap s (x # q)"
        by (cases "buffered s") (auto simp: audit_inv_def taking_def)
      from buffered_ring [OF ring_take(1) [OF q(2)]] have "buffered (drain_take cap f s) = q" .
      then show ?thesis using q W_take by (simp add: ss) (simp add: drain_take_def Nil)
    qed (use assms(3) in simp)
  qed
qed

lemma settle_stays: "aq_pc s = W_stopped \<Longrightarrow> aq_waiting s = [] \<Longrightarrow> settle cap oks s = s"
  by (induction oks) (simp_all add: settle_def settle_step_def worker_step_def)

lemma settle_stops:
  assumes "settling cap es s" and "0 < cap" and "settle_measure s \<le> length oks"
  shows "settling cap es (settle cap oks s) \<and> aq_pc (settle cap oks s) = W_stopped"
  using assms(1,3)
proof (induction oks arbitrary: s)
  case Nil
  then show ?case
    by (cases "aq_pc s") (auto simp: settle_measure_def settle_def split: if_splits)
next
  case (Cons ok oks)
  show ?case
  proof (cases "aq_pc s = W_stopped")
    case True
    with Cons.prems(1) have "aq_waiting s = []" by (simp add: settling_def unwritten_def)
    from settle_stays [OF True this] True Cons.prems(1) show ?thesis by simp
  next
    case False
    from settle_measure_less [OF Cons.prems(1) assms(2) this, of ok] Cons.prems(2)
    have "settle_measure (settle_step cap ok s) \<le> length oks" by simp
    from Cons.IH [OF settling_step [OF Cons.prems(1) assms(2)] this] show ?thesis
      by (simp add: settle_def)
  qed
qed

lemma settle_measure_bound: "audit_inv cap es s \<Longrightarrow> settle_measure s \<le> 7 * length (unwritten s) + 9"
  by (cases "aq_pc s" rule: in_flight_pc.cases)
    (auto simp: settle_measure_def unwritten_def audit_inv_def)



section \<open>A lost event\<close>

definition run_actions :: "nat \<Rightarrow> 'e audit_action list \<Rightarrow> 'e audit_queue" where
  "run_actions cap acts = fold (do_action cap) acts (createAuditLogQueue cap)"

text \<open>The worker goes on to the end after a shutdown.\<close>

definition lossy_schedule :: "nat audit_action list" where
  "lossy_schedule = [A_enqueue 7, A_worker True, A_worker True, A_worker True, A_store,
     A_worker True, A_worker True, A_worker True, A_enqueue 8, A_store, A_shutdown] @
     replicate 12 (A_worker True)"

text \<open>
  The semaphore counts a slot as full from the moment a producer acquires it, before
  the event is stored: a worker that takes in between reads an empty cell and gives the slot back,
  the event is stored behind the head, counted by nobody, and the next event overwrites it. With
  one slot and two events the worker stops after writing only the second.
\<close>

theorem audit_event_lost:
  "let s = run_actions 1 lossy_schedule in
     aq_pc s = W_stopped \<and> aq_log s = [(8, True)] \<and> aq_buffer s = [None] \<and>
     aq_waiting s = [] \<and> aq_blocked s = []"
  by code_simp

section \<open>The audit logger\<close>

datatype lifecycle_stage = userOpReceived | userOpRejected | userOpIncludedInMempool | userOpSubmittedOnChain

record audit_input =
  ai_lifecycleStage :: lifecycle_stage
  ai_chainId :: int
  ai_userOp :: js
  ai_userOpHash :: string
  ai_entryPoint :: string
  ai_details :: js

record audit_event =
  ev_timestamp :: string
  ev_kind :: string
  ev_clientVersion :: string
  ev_nodeCommitHash :: string
  ev_data :: audit_input

record audit_logger_deps =
  ad_clientVersion :: string
  ad_nodeCommitHash :: string
  ad_environment :: string
  ad_auditTrailEnabled :: bool

text \<open>
  The call of \<open>enqueue\<close> is not awaited: the logger returns when the event has a slot or is queued
  for one. \<open>timestamp\<close> is the time of the call.
\<close>

definition logUserOpLifecycleEvent ::
  "audit_logger_deps \<Rightarrow> string \<Rightarrow> audit_input \<Rightarrow> audit_event audit_queue \<Rightarrow> audit_event audit_queue" where
  "logUserOpLifecycleEvent deps timestamp eventInput s =
     (if ad_environment deps \<noteq> ''production'' \<and> \<not> ad_auditTrailEnabled deps then s
      else enqueue_acquire \<lparr>ev_timestamp = timestamp, ev_kind = ''userOp-lifecycle'',
             ev_clientVersion = ad_clientVersion deps, ev_nodeCommitHash = ad_nodeCommitHash deps,
             ev_data = eventInput\<rparr> s)"

end
