(* ===== verification/Provider.thy ===== *)
theory Provider
  imports Bundler_Types
begin

text \<open>
  The provider service (\<open>src/provider/provider-service.ts\<close>). The network provider of \<open>ethers\<close> is
  the record of functions \<open>network\<close>; a failed request is a \<open>net_error\<close>. What is modelled is how the
  service turns the provider's answers into its results.
\<close>

section \<open>The network provider\<close>

text \<open>
  An error thrown by the provider: its message, its \<open>body\<close> and \<open>data\<close> when they are there and not
  empty, and the \<open>data\<close> of its nested \<open>error\<close>.
\<close>

record net_error =
  ne_message :: string
  ne_body :: "string option"
  ne_data :: "string option"
  ne_error_data :: "string option"

text \<open>\<open>new NetworkCallError(msg, payload)\<close>\<close>

record network_call_error =
  nc_message :: string
  nc_payload :: net_error

text \<open>What the code reads of the parsed \<open>body\<close> of an error: \<open>error.message\<close> and \<open>error.data\<close>.\<close>

record error_body =
  eb_message :: string
  eb_data :: "string option"

record network =
  nw_send :: "string \<Rightarrow> js list \<Rightarrow> net_error + js"
  nw_getCode :: "string \<Rightarrow> string"
  nw_chainId :: int
  nw_blockNumber :: int
  nw_parse_body :: "string \<Rightarrow> exn + error_body"
  nw_call :: "string \<Rightarrow> net_error + js"
  nw_parse_script_error :: "string \<Rightarrow> exn + js list option"
  nw_hexlify :: "js \<Rightarrow> exn + js"
  nw_toBeHex :: "int \<Rightarrow> exn + string"
  nw_flashbots :: "string \<Rightarrow> js list \<Rightarrow> net_error + js"

section \<open>Requests\<close>

definition send :: "network \<Rightarrow> string \<Rightarrow> js list \<Rightarrow> (network_call_error, js) either" where
  "send nw method params =
     (case nw_send nw method params of
        Inr res \<Rightarrow> Right res
      | Inl err \<Rightarrow> Left \<lparr>nc_message = ''call to method '' @ method @ '' failed:'', nc_payload = err\<rparr>)"

text \<open>\<open>message.match(/reason="(.*?)"/)?.at(1)\<close>: \<open>.\<close> does not match a line end.\<close>

definition line_end :: "char \<Rightarrow> bool" where
  "line_end c \<longleftrightarrow> of_char c \<in> {10, 13 :: nat}"

definition quoted :: "string \<Rightarrow> string option" where
  "quoted s = (let body = takeWhile (\<lambda>c. c \<noteq> CHR 0x22 \<and> \<not> line_end c) s
     in if length body < length s \<and> s ! length body = CHR 0x22 then Some body else None)"

definition reason_prefix :: string where
  "reason_prefix = ''reason='' @ [CHR 0x22]"

fun match_reason :: "string \<Rightarrow> string option" where
  "match_reason [] = None"
| "match_reason (c # s) =
     (if take 8 (c # s) = reason_prefix
      then (case quoted (drop 8 (c # s)) of Some r \<Rightarrow> Some r | None \<Rightarrow> match_reason s)
      else match_reason s)"

text \<open>
  \<open>Number(gasLimit)\<close> is read by \<open>number_of\<close>; the list of authorizations is passed on unless it is
  empty. A missing list is an exception inside the \<open>try\<close>.
\<close>

definition null_if_empty :: "js list \<Rightarrow> js" where
  "null_if_empty as = (if as = [] then Null else Arr as)"

definition estimate_error :: "string \<Rightarrow> rpc_error" where
  "estimate_error message = RpcError
     (case match_reason message of Some r \<Rightarrow> r | None \<Rightarrow> ''execution reverted'') UserOperationReverted"

text \<open>Byte arrays are hexlified, strings are passed on.\<close>

definition hexlify_object :: "network \<Rightarrow> js \<Rightarrow> exn + js" where
  "hexlify_object nw data = (case data of Str s \<Rightarrow> Inr (Str s) | _ \<Rightarrow> nw_hexlify nw data)"

definition estimateGas ::
  "network \<Rightarrow> (js \<Rightarrow> int) \<Rightarrow> string \<Rightarrow> string \<Rightarrow> js \<Rightarrow> js list \<Rightarrow> (rpc_error, int) either" where
  "estimateGas nw number_of from_adr to_adr data authorizationList =
     (case hexlify_object nw data of
        Inl e \<Rightarrow> Left (estimate_error (exn_message e))
      | Inr d \<Rightarrow>
          (case nw_send nw ''eth_estimateGas'' [Obj [(''from'', Str from_adr), (''to'', Str to_adr),
               (''data'', d), (''authorizationList'', null_if_empty authorizationList)]] of
             Inr gasLimit \<Rightarrow> Right (number_of gasLimit)
           | Inl err \<Rightarrow> Left (estimate_error (ne_message err))))"

definition debug_traceCall ::
  "network \<Rightarrow> js \<Rightarrow> js \<Rightarrow> (rpc_error, js) either_x" where
  "debug_traceCall nw tx traceOptions =
     (case nw_send nw ''debug_traceCall'' [tx, Str ''latest'', traceOptions] of
        Inr r \<Rightarrow> RightX r
      | Inl err \<Rightarrow>
          (case ne_body err of
             Some body \<Rightarrow> bindX (nw_parse_body nw body) (\<lambda>jsonbody.
               LeftX (RpcError (''debug_traceCall - '' @ eb_message jsonbody) InternalError))
           | None \<Rightarrow> LeftX (RpcError (''debug_traceCall - unknown error: '' @ ne_message err) InternalError)))"

text \<open>
  \<open>doRunContractScript\<close>: the deployment is expected to revert; a call that succeeds returns nothing.
\<close>

definition runContractScript :: "network \<Rightarrow> string \<Rightarrow> exn + js list option" where
  "runContractScript nw tx =
     (case nw_call nw tx of
        Inr _ \<Rightarrow> Inr None
      | Inl err \<Rightarrow>
          (case ne_data err of
             None \<Rightarrow> Inl (RpcExn (RpcError
               (''unable to extract parse script (error) response missing data: '' @ ne_message err) InternalError))
           | Some d \<Rightarrow> bindX (nw_parse_script_error nw d) (\<lambda>parsed.
               case parsed of
                 None \<Rightarrow> Inl (RpcExn (RpcError
                   (''unable to parse script (error) response: '' @ ne_message err) InternalError))
               | Some args \<Rightarrow> Inr (Some args))))"

definition checkContractDeployment :: "network \<Rightarrow> string \<Rightarrow> bool" where
  "checkContractDeployment nw contractAddress = (nw_getCode nw contractAddress \<noteq> ''0x'')"

definition getSupportedNetworks :: "int list" where
  "getSupportedNetworks = [1, 31337, 1337, 11155111]"

definition FLASHBOTS_BUNDLE_RELAY_URL :: "int \<Rightarrow> string option" where
  "FLASHBOTS_BUNDLE_RELAY_URL chainId =
     (if chainId = 1 then Some (CHR 0x09 # ''https://relay.flashbots.net'')
      else if chainId = 11155111 then Some ''https://relay-sepolia.flashbots.net'' else None)"

text \<open>The errors of the relay whose \<open>body\<close> is missing are thrown again.\<close>

definition sendTransactionToFlashbots :: "network \<Rightarrow> string \<Rightarrow> string \<Rightarrow> exn + js" where
  "sendTransactionToFlashbots nw signedTransaction refundAddress =
     (case FLASHBOTS_BUNDLE_RELAY_URL (nw_chainId nw) of
        None \<Rightarrow> Inl (ErrorExn ''Unsupported chainId to send bundle to Flashbots network'')
      | Some relayUrl \<Rightarrow>
          bindX (nw_toBeHex nw (nw_blockNumber nw + 5)) (\<lambda>maxBlockNumber.
          case nw_flashbots nw relayUrl [Obj [(''tx'', Str signedTransaction),
              (''maxBlockNumber'', Str maxBlockNumber),
              (''preferences'', Obj [(''fast'', Bool True),
                 (''privacy'', Obj [(''hints'', Arr [Str ''contract_address'', Str ''transaction_hash'']),
                    (''builders'', Arr [Str ''default''])]),
                 (''validity'', Obj [(''refund'',
                    Arr [Obj [(''address'', Str refundAddress), (''percent'', Num 50)]])])])]] of
            Inr r \<Rightarrow> Inr r
          | Inl e \<Rightarrow>
              (case ne_body e of
                 Some body \<Rightarrow> bindX (nw_parse_body nw body) (\<lambda>jsonbody. Inl (ErrorExn
                   (''error sending eth_sendPrivateTransaction to Flashbots relay- '' @ eb_message jsonbody)))
               | None \<Rightarrow> Inl (ErrorExn (ne_message e)))))"

end
