(* ===== verification/Js_Double.thy ===== *)
theory Js_Double
  imports Complex_Main Js_Number
begin

text \<open>
  JavaScript numbers that are not integers: a finite double is the rational number it stands for,
  and an arithmetic operation is the exact operation followed by \<open>fl\<close>, rounding to 53 significant
  bits, ties to even. Overflow, underflow and the signed zeros do not occur in the code modelled.
\<close>

section \<open>Rounding a rational\<close>

text \<open>The exponent of the leading bit of a positive rational.\<close>

definition leading_bit :: "rat \<Rightarrow> int" where
  "leading_bit x = (let (p, q) = quotient_of x; k = int (bit_len (nat p)) - int (bit_len (nat q))
     in if 2 powi k \<le> x then k else k - 1)"

definition round_even :: "rat \<Rightarrow> int" where
  "round_even y = (let f = \<lfloor>y\<rfloor>; r = y - of_int f
     in if r < 1 / 2 \<or> (r = 1 / 2 \<and> even f) then f else f + 1)"

definition fl_pos :: "rat \<Rightarrow> rat" where
  "fl_pos x = (let e = leading_bit x - 52 in of_int (round_even (x * 2 powi (- e))) * 2 powi e)"

definition fl :: "rat \<Rightarrow> rat" where
  "fl x = (if x = 0 then 0 else if x < 0 then - fl_pos (- x) else fl_pos x)"

lemma two_powi_nat: "(2::rat) powi (int m - int n) = 2 ^ m / 2 ^ n"
  by (simp add: power_int_diff)

lemma leading_bit_bounds:
  assumes "0 < x"
  shows "2 powi leading_bit x \<le> x" "x < 2 powi (leading_bit x + 1)"
proof -
  obtain p q where pq: "quotient_of x = (p, q)" by (cases "quotient_of x")
  then have q: "0 < q" and x: "x = of_int p / of_int q"
    using quotient_of_denom_pos quotient_of_div by blast+
  with assms have p: "0 < p" by (simp add: zero_less_divide_iff)
  define a where "a = bit_len (nat p)"
  define b where "b = bit_len (nat q)"
  have pos: "0 < a" "0 < b" using p q by (simp_all add: a_def b_def bit_len.simps)
  have "p < 2 ^ a" "q < 2 ^ b"
    using bit_len_upper [of "nat p"] bit_len_upper [of "nat q"] p q unfolding a_def b_def
    by (simp_all add: nat_less_iff)
  then have up: "of_int p < (2::rat) ^ a" "of_int q < (2::rat) ^ b"
    by (metis of_int_less_iff of_int_numeral of_int_power)+
  have "2 ^ (a - 1) \<le> p" "2 ^ (b - 1) \<le> q"
    using bit_len_lower [of "nat p"] bit_len_lower [of "nat q"] p q unfolding a_def b_def
    by (simp_all add: le_nat_iff)
  then have lo: "(2::rat) ^ (a - 1) \<le> of_int p" "(2::rat) ^ (b - 1) \<le> of_int q"
    by (metis of_int_le_iff of_int_numeral of_int_power)+
  have q': "(0::rat) < of_int q" using q by simp
  have "x \<le> of_int p / 2 ^ (b - 1)"
    unfolding x using lo(2) p q' by (intro divide_left_mono) simp_all
  also have "\<dots> < 2 ^ a / 2 ^ (b - 1)" using up(1) by (simp add: divide_strict_right_mono)
  also have "\<dots> = 2 powi (int a - int b + 1)"
    using pos two_powi_nat [of a "b - 1"] by (simp add: algebra_simps of_nat_diff)
  finally have hi: "x < 2 powi (int a - int b + 1)" .
  have "2 powi (int a - int b - 1) = (2::rat) ^ (a - 1) / 2 ^ b"
    using pos two_powi_nat [of "a - 1" b] by (simp add: algebra_simps of_nat_diff)
  also have "\<dots> \<le> of_int p / 2 ^ b" using lo(1) by (simp add: divide_right_mono)
  also have "\<dots> \<le> x" unfolding x using up(2) p q' by (intro divide_left_mono) simp_all
  finally have low: "2 powi (int a - int b - 1) \<le> x" .
  have e: "leading_bit x = (if 2 powi (int a - int b) \<le> x then int a - int b else int a - int b - 1)"
    by (simp add: leading_bit_def pq a_def b_def Let_def)
  show "2 powi leading_bit x \<le> x" "x < 2 powi (leading_bit x + 1)"
    using hi low by (auto simp: e)
qed

lemma round_even_int [simp]: "round_even (of_int i) = i"
  by (simp add: round_even_def)

lemma round_even_error: "\<bar>of_int (round_even y) - y\<bar> \<le> 1 / 2"
proof -
  have "0 \<le> y - of_int \<lfloor>y\<rfloor>" "y - of_int \<lfloor>y\<rfloor> < 1" by linarith+
  then show ?thesis by (auto simp: round_even_def Let_def abs_le_iff)
qed

text \<open>A dyadic rational with at most 53 significant bits is a double.\<close>

lemma fl_pos_exact:
  assumes "x = of_int m / 2 ^ k" and "0 < m" and "m < 2 ^ 53"
  shows "fl_pos x = x"
proof -
  have x: "0 < x" using assms(1,2) by simp
  have "of_int m < (2::rat) ^ 53" using assms(3) by (metis of_int_less_iff of_int_numeral of_int_power)
  then have "x < 2 ^ 53 / 2 ^ k" unfolding assms(1) by (simp add: divide_strict_right_mono)
  also have "\<dots> = 2 powi (53 - int k)" using two_powi_nat [of 53 k] by simp
  finally have "2 powi leading_bit x < (2::rat) powi (53 - int k)"
    using leading_bit_bounds(1) [OF x] by simp
  then have e: "leading_bit x < 53 - int k"
    using power_int_increasing [of "53 - int k" "leading_bit x" "2::rat"] by (meson linorder_not_le numeral_le_iff
        one_le_numeral)
  define j where "j = nat (52 - int k - leading_bit x)"
  have j: "- (leading_bit x - 52) = int k + int j" using e by (simp add: j_def)
  have p: "(2::rat) powi (- (leading_bit x - 52)) = 2 ^ k * 2 ^ j"
    unfolding j by (simp add: power_int_add)
  have y: "x * 2 powi (- (leading_bit x - 52)) = of_int (m * 2 ^ j)"
    unfolding p by (simp add: assms(1))
  then have "fl_pos x = of_int (m * 2 ^ j) * 2 powi (leading_bit x - 52)"
    unfolding fl_pos_def Let_def y by (simp only: round_even_int)
  also have "\<dots> = x" unfolding y [symmetric] by (simp flip: power_int_add)
  finally show ?thesis .
qed

lemma fl_exact:
  assumes "x = of_int m / 2 ^ k" and "\<bar>m\<bar> < 2 ^ 53"
  shows "fl x = x"
proof -
  consider "m = 0" | "0 < m" | "m < 0" by linarith
  then show ?thesis
  proof cases
    case 2
    then have "0 < x" using assms(1) by simp
    moreover have "fl_pos x = x" using fl_pos_exact [OF assms(1)] assms(2) 2 by simp
    ultimately show ?thesis by (simp add: fl_def)
  next
    case 3
    then have "fl_pos (- x) = - x" using fl_pos_exact [of "- x" "- m" k] assms by simp
    then show ?thesis using 3 assms(1) by (simp add: fl_def divide_neg_pos)
  qed (simp add: fl_def assms(1))
qed

lemma fl_int [simp]: "\<bar>i\<bar> < 2 ^ 53 \<Longrightarrow> fl (of_int i) = of_int i"
  by (rule fl_exact [of _ i 0]) simp_all

text \<open>The relative error of one operation is at most \<open>2 ^ -53\<close>.\<close>

lemma fl_pos_error:
  assumes "0 < x" shows "\<bar>fl_pos x - x\<bar> \<le> x / 2 ^ 53"
proof -
  define e where "e = leading_bit x - 52"
  have z: "(0::rat) < 2 powi e" by simp
  have "x = (x * 2 powi (- e)) * 2 powi e" by (simp add: power_int_minus)
  then have "fl_pos x - x = (of_int (round_even (x * 2 powi (- e))) - x * 2 powi (- e)) * 2 powi e"
    unfolding fl_pos_def Let_def e_def [symmetric] by (metis left_diff_distrib)
  then have "\<bar>fl_pos x - x\<bar> \<le> 1 / 2 * 2 powi e"
    using round_even_error [of "x * 2 powi (- e)"] z by (simp add: abs_mult mult_right_mono)
  also have "1 / 2 * (2::rat) powi e = 2 powi leading_bit x / 2 ^ 53"
    by (simp add: e_def power_int_diff)
  also have "\<dots> \<le> x / 2 ^ 53" using leading_bit_bounds(1) [OF assms] by (simp add: divide_right_mono)
  finally show ?thesis .
qed

lemma fl_error: "\<bar>fl x - x\<bar> \<le> \<bar>x\<bar> / 2 ^ 53"
  using fl_pos_error [of x] fl_pos_error [of "- x"] by (auto simp: fl_def abs_if split: if_splits)

text \<open>\<open>Math.round\<close>: the nearest integer, halves upwards.\<close>

definition Math_round :: "rat \<Rightarrow> rat" where
  "Math_round x = of_int \<lfloor>x + 1 / 2\<rfloor>"

definition Math_ceil :: "rat \<Rightarrow> rat" where
  "Math_ceil x = of_int \<lceil>x\<rceil>"

end
