(* ===== verification/Ethers_Hex.thy ===== *)
theory Ethers_Hex
  imports Js_Number
begin

text \<open>
  The hex functions of the package \<open>ethers\<close> that the packing and unpacking code calls. They are
  third-party code, so they are the record \<open>hex_lib\<close> the definitions take as an argument; the
  locale \<open>ethers_hex\<close> states what their documentation says (data strings are \<open>0x\<close> followed by an
  even number of hex digits; results are lower case; \<open>toBeHex\<close> uses the fewest bytes).
  \<open>hex_reference\<close> is an implementation of the documentation that shows the laws can hold.
\<close>

section \<open>Hex digits\<close>

definition hex_char :: "nat \<Rightarrow> char" where
  "hex_char d = (if d < 10 then char_of (48 + d) else char_of (87 + d))"

fun hex_fixed :: "nat \<Rightarrow> nat \<Rightarrow> string" where
  "hex_fixed 0 n = []"
| "hex_fixed (Suc w) n = hex_fixed w (n div 16) @ [hex_char (n mod 16)]"

lemma length_hex_fixed [simp]: "length (hex_fixed w n) = w"
  by (induction w arbitrary: n) simp_all

lemma less_16: "(d::nat) < 16 \<Longrightarrow> d \<in> {0,1,2,3,4,5,6,7,8,9,10,11,12,13,14,15}"
  by (simp only: insert_iff empty_iff) presburger

lemma hex_char_digit: "d < 16 \<Longrightarrow> digit_value (hex_char d) = d"
  by (drule less_16) (auto simp: hex_char_def digit_value_def)

lemma hex_char_lower: "d < 16 \<Longrightarrow> lower_char (hex_char d) = hex_char d"
  by (drule less_16) (auto simp: hex_char_def lower_char_def)

definition hex_digits :: "string \<Rightarrow> bool" where
  "hex_digits h \<longleftrightarrow> list_all (\<lambda>c. digit_value c < 16) h"

lemma hex_digits_append [simp]: "hex_digits (a @ b) \<longleftrightarrow> hex_digits a \<and> hex_digits b"
  by (simp add: hex_digits_def)

lemma hex_digits_Nil [simp]: "hex_digits []"
  by (simp add: hex_digits_def)

lemma hex_digits_fixed [simp]: "hex_digits (hex_fixed w n)"
  by (induction w arbitrary: n) (simp_all add: hex_digits_def hex_char_digit)

lemma toLowerCase_append [simp]: "toLowerCase (a @ b) = toLowerCase a @ toLowerCase b"
  by (simp add: toLowerCase_def)

lemma toLowerCase_fixed [simp]: "toLowerCase (hex_fixed w n) = hex_fixed w n"
  by (induction w arbitrary: n) (simp_all add: hex_char_lower)

lemma digits_value_snoc: "digits_value b (s @ [c]) = digits_value b s * b + digit_value c"
  by (simp add: digits_value_def)

lemma digits_value_fixed [simp]: "digits_value 16 (hex_fixed w n) = n mod 16 ^ w"
proof (induction w arbitrary: n)
  case 0
  then show ?case by (simp add: digits_value_def)
next
  case (Suc w)
  have "digits_value 16 (hex_fixed (Suc w) n) = (n div 16) mod 16 ^ w * 16 + n mod 16"
    by (simp add: digits_value_snoc Suc hex_char_digit)
  also have "\<dots> = n mod 16 ^ Suc w" by (simp add: mod_mult2_eq mult.commute)
  finally show ?case .
qed

lemma hex_fixed_append: "hex_fixed (v + w) n = hex_fixed v (n div 16 ^ w) @ hex_fixed w n"
proof (induction w arbitrary: n)
  case (Suc w)
  have "n div 16 div 16 ^ w = n div 16 ^ Suc w" by (simp add: div_mult2_eq)
  with Suc show ?case by simp
qed simp

lemma hex_fixed_zero: "hex_fixed w 0 = replicate w CHR ''0''"
proof -
  have "hex_char 0 = CHR ''0''" by code_simp
  then show ?thesis by (induction w) (simp_all add: replicate_append_same)
qed

lemma hex_fixed_pad:
  assumes "n < 16 ^ w"
  shows "replicate v CHR ''0'' @ hex_fixed w n = hex_fixed (v + w) n"
  using assms by (simp add: hex_fixed_append hex_fixed_zero)

lemma hex_fixed_mod: "hex_fixed w (n mod 16 ^ w) = hex_fixed w n"
proof (induction w arbitrary: n)
  case (Suc w)
  have "n mod (16 * 16 ^ w) div 16 = n div 16 mod 16 ^ w" by (simp add: mod_mult2_eq)
  moreover have "n mod (16 * 16 ^ w) mod 16 = n mod 16" by (simp add: mod_mult2_eq)
  ultimately show ?case using Suc by simp
qed simp

fun byte_len :: "nat \<Rightarrow> nat" where
  "byte_len n = (if n < 256 then 1 else Suc (byte_len (n div 256)))"

declare byte_len.simps [simp del]

lemma byte_len_upper: "n < 16 ^ (2 * byte_len n)"
proof (induction n rule: byte_len.induct)
  case (1 n)
  show ?case
  proof (cases "n < 256")
    case False
    with 1 have "n div 256 < 16 ^ (2 * byte_len (n div 256))" by simp
    then have "n < 256 * 16 ^ (2 * byte_len (n div 256))" by (simp add: div_less_iff_less_mult mult.commute)
    with False show ?thesis by (simp add: byte_len.simps [of n])
  qed (simp add: byte_len.simps [of n])
qed

lemma byte_len_le: "n < 16 ^ (2 * k) \<Longrightarrow> 0 < k \<Longrightarrow> byte_len n \<le> k"
proof (induction n arbitrary: k rule: byte_len.induct)
  case (1 n)
  show ?case
  proof (cases "n < 256")
    case False
    then obtain j where k: "k = Suc j" "0 < j"
      using 1(2,3) by (cases k; cases "k - 1") auto
    then have "n < 16 ^ (2 * j) * 256" using 1(2) by simp
    then have "n div 256 < 16 ^ (2 * j)" by (simp add: div_less_iff_less_mult)
    with 1(1) [OF False _ k(2)] False k(1) show ?thesis by (simp add: byte_len.simps [of n])
  qed (use 1(3) in \<open>simp add: byte_len.simps [of n]\<close>)
qed

section \<open>The library\<close>

record hex_lib =
  hl_toBeHex :: "int \<Rightarrow> exn + string"
  hl_zeroPadValue :: "string \<Rightarrow> nat \<Rightarrow> exn + string"
  hl_hexlify :: "string \<Rightarrow> exn + string"
  hl_dataSlice :: "string \<Rightarrow> nat \<Rightarrow> nat option \<Rightarrow> exn + string"

definition hex_data :: "string \<Rightarrow> bool" where
  "hex_data h \<longleftrightarrow> hex_digits h \<and> even (length h)"

locale ethers_hex =
  fixes lib :: hex_lib
  assumes toBeHex: "0 \<le> i \<Longrightarrow>
      hl_toBeHex lib i = Inr (''0x'' @ hex_fixed (2 * byte_len (nat i)) (nat i))"
    and zeroPadValue: "hex_data h \<Longrightarrow> length h \<le> 2 * n \<Longrightarrow>
      hl_zeroPadValue lib (''0x'' @ h) n = Inr (''0x'' @ replicate (2 * n - length h) CHR ''0'' @ toLowerCase h)"
    and zeroPadValue_long: "hex_data h \<Longrightarrow> length h > 2 * n \<Longrightarrow> \<exists>e. hl_zeroPadValue lib (''0x'' @ h) n = Inl e"
    and hexlify: "hex_data h \<Longrightarrow> hl_hexlify lib (''0x'' @ h) = Inr (''0x'' @ toLowerCase h)"
    and dataSlice: "hex_data h \<Longrightarrow> from \<le> to \<Longrightarrow> 2 * to \<le> length h \<Longrightarrow>
      hl_dataSlice lib (''0x'' @ h) from (Some to)
        = Inr (''0x'' @ toLowerCase (take (2 * (to - from)) (drop (2 * from) h)))"
    and dataSlice_rest: "hex_data h \<Longrightarrow> 2 * from \<le> length h \<Longrightarrow>
      hl_dataSlice lib (''0x'' @ h) from None = Inr (''0x'' @ toLowerCase (drop (2 * from) h))"
begin

text \<open>An integer of at most \<open>k\<close> bytes, padded to \<open>k\<close> bytes.\<close>

lemma padded:
  assumes "0 \<le> i" and "i < 16 ^ (2 * k)" and "0 < k"
  shows "bindX (hl_toBeHex lib i) (\<lambda>s. hl_zeroPadValue lib s k) = Inr (''0x'' @ hex_fixed (2 * k) (nat i))"
proof -
  let ?b = "byte_len (nat i)"
  have "nat i < 16 ^ (2 * k)" using assms(1,2) by (simp add: nat_less_iff)
  from byte_len_le [OF this assms(3)] have b: "?b \<le> k" .
  have "hl_zeroPadValue lib (''0x'' @ hex_fixed (2 * ?b) (nat i)) k
      = Inr (''0x'' @ replicate (2 * k - 2 * ?b) CHR ''0'' @ hex_fixed (2 * ?b) (nat i))"
    using b by (subst zeroPadValue) (simp_all add: hex_data_def)
  also have "replicate (2 * k - 2 * ?b) CHR ''0'' @ hex_fixed (2 * ?b) (nat i) = hex_fixed (2 * k) (nat i)"
    using b hex_fixed_pad [OF byte_len_upper, of "2 * k - 2 * ?b" "nat i"] by simp
  finally show ?thesis by (simp add: toBeHex assms(1))
qed

end

section \<open>An implementation of the documentation\<close>

definition hex_body :: "string \<Rightarrow> exn + string" where
  "hex_body s = (case strip_0x s of
     Some h \<Rightarrow> if hex_data h then Inr h else Inl (TypeErrorExn ''invalid BytesLike value'')
   | None \<Rightarrow> Inl (TypeErrorExn ''invalid BytesLike value''))"

definition hex_reference :: hex_lib where
  "hex_reference = \<lparr>
     hl_toBeHex = (\<lambda>i. if i < 0 then Inl (ErrorExn ''unsigned value cannot be negative'')
       else Inr (''0x'' @ hex_fixed (2 * byte_len (nat i)) (nat i))),
     hl_zeroPadValue = (\<lambda>s n. bindX (hex_body s) (\<lambda>h. if length h \<le> 2 * n
       then Inr (''0x'' @ replicate (2 * n - length h) CHR ''0'' @ toLowerCase h)
       else Inl (ErrorExn ''padding exceeds data length''))),
     hl_hexlify = (\<lambda>s. bindX (hex_body s) (\<lambda>h. Inr (''0x'' @ toLowerCase h))),
     hl_dataSlice = (\<lambda>s i j. bindX (hex_body s) (\<lambda>h.
       let e = (case j of None \<Rightarrow> length h div 2 | Some k \<Rightarrow> k)
       in if 2 * e > length h then Inl (ErrorExn ''cannot slice beyond data bounds'')
          else Inr (''0x'' @ toLowerCase (take (2 * (e - i)) (drop (2 * i) h)))))\<rparr>"

lemma hex_body_data [simp]: "hex_data h \<Longrightarrow> hex_body (CHR ''0'' # CHR ''x'' # h) = Inr h"
  by (simp add: hex_body_def)

interpretation reference: ethers_hex hex_reference
proof unfold_locales
  fix h and i :: nat assume h: "hex_data h" and i: "2 * i \<le> length h"
  then have "even (length h)" by (simp add: hex_data_def)
  then have "2 * (length h div 2) = length h" by simp
  then show "hl_dataSlice hex_reference (''0x'' @ h) i None = Inr (''0x'' @ toLowerCase (drop (2 * i) h))"
    using h i by (simp add: hex_reference_def Let_def diff_mult_distrib2)
qed (simp_all add: hex_reference_def)

end
