(* ===== verification/UserOp_Packing.thy ===== *)
theory UserOp_Packing
  imports UserOp_Utils Ethers_Hex
begin

text \<open>
  Packing and unpacking of user operations (\<open>src/utils/user-op.utils.ts\<close>, \<open>hexConcat\<close> of
  \<open>src/utils/common.utils.ts\<close>). The hex functions of \<open>ethers\<close> are the argument \<open>hx\<close>, its ABI
  encoder and \<open>keccak256\<close> the argument of \<open>encodeUserOp\<close>; data fields are hex strings.
\<close>

definition EIP_7702_MARKER_INIT_CODE :: string where
  "EIP_7702_MARKER_INIT_CODE = ''0x7702''"

record packed_user_operation =
  pk_sender :: string
  pk_nonce :: int
  pk_initCode :: string
  pk_callData :: string
  pk_accountGasLimits :: string
  pk_preVerificationGas :: int
  pk_gasFees :: string
  pk_paymasterAndData :: string
  pk_signature :: string

section \<open>Packing\<close>

fun hexConcat_items :: "hex_lib \<Rightarrow> string list \<Rightarrow> exn + string" where
  "hexConcat_items hx [] = Inr []"
| "hexConcat_items hx (item # items) = bindX (hl_hexlify hx item)
     (\<lambda>h. bindX (hexConcat_items hx items) (\<lambda>r. Inr (drop 2 h @ r)))"

definition hexConcat :: "hex_lib \<Rightarrow> string list \<Rightarrow> exn + string" where
  "hexConcat hx items = bindX (hexConcat_items hx items) (\<lambda>r. Inr (''0x'' @ r))"

definition packUint :: "hex_lib \<Rightarrow> int \<Rightarrow> int \<Rightarrow> exn + string" where
  "packUint hx high128 low128 =
     bindX (hl_toBeHex hx (high128 * 2 ^ 128 + low128)) (\<lambda>s. hl_zeroPadValue hx s 32)"

definition packPaymasterData ::
  "hex_lib \<Rightarrow> string \<Rightarrow> int \<Rightarrow> int \<Rightarrow> string option \<Rightarrow> exn + string" where
  "packPaymasterData hx pm paymasterVerificationGas postOpGasLimit data =
     bindX (packUint hx paymasterVerificationGas postOpGasLimit)
       (\<lambda>u. hexConcat hx [pm, u, case data of None \<Rightarrow> ''0x'' | Some d \<Rightarrow> d])"

definition dataOr0x :: "string option \<Rightarrow> string" where
  "dataOr0x d = (case d of None \<Rightarrow> ''0x'' | Some x \<Rightarrow> x)"

definition packInitCode :: "hex_lib \<Rightarrow> user_operation \<Rightarrow> exn + string" where
  "packInitCode hx userOp =
     bindX (case factory userOp of
         None \<Rightarrow> Inr ''0x''
       | Some f \<Rightarrow> hexConcat hx [f, dataOr0x (factoryData userOp)])
       (\<lambda>initCode. if factory userOp = Some EIP_7702_MARKER_INIT_CODE
          then hexConcat hx [EIP_7702_MARKER_INIT_CODE @ replicate (42 - 6) CHR ''0'',
                 dataOr0x (factoryData userOp)]
          else Inr initCode)"

definition packPaymasterAndData :: "hex_lib \<Rightarrow> user_operation \<Rightarrow> exn + string" where
  "packPaymasterAndData hx userOp =
     (case paymaster userOp of
        None \<Rightarrow> Inr ''0x''
      | Some pm \<Rightarrow>
          (case (paymasterVerificationGasLimit userOp, paymasterPostOpGasLimit userOp) of
             (Some v, Some p) \<Rightarrow> packPaymasterData hx pm v p (paymasterData userOp)
           | _ \<Rightarrow> Inl (ErrorExn ''paymaster with no gas limits'')))"

definition packUserOp :: "hex_lib \<Rightarrow> user_operation \<Rightarrow> exn + packed_user_operation" where
  "packUserOp hx userOp =
     bindX (packPaymasterAndData hx userOp) (\<lambda>paymasterAndData.
     bindX (packInitCode hx userOp) (\<lambda>initCode.
     bindX (packUint hx (verificationGasLimit userOp) (callGasLimit userOp)) (\<lambda>accountGasLimits.
     bindX (packUint hx (maxPriorityFeePerGas userOp) (maxFeePerGas userOp)) (\<lambda>gasFees.
       Inr \<lparr>pk_sender = sender userOp, pk_nonce = nonce userOp, pk_initCode = initCode,
            pk_callData = callData userOp, pk_accountGasLimits = accountGasLimits,
            pk_preVerificationGas = preVerificationGas userOp, pk_gasFees = gasFees,
            pk_paymasterAndData = paymasterAndData, pk_signature = signature userOp\<rparr>))))"

fun packUserOps :: "hex_lib \<Rightarrow> user_operation list \<Rightarrow> exn + packed_user_operation list" where
  "packUserOps hx [] = Inr []"
| "packUserOps hx (op # ops) =
     bindX (packUserOp hx op) (\<lambda>p. bindX (packUserOps hx ops) (\<lambda>ps. Inr (p # ps)))"

section \<open>Unpacking\<close>

definition unpackUint :: "hex_lib \<Rightarrow> string \<Rightarrow> exn + int \<times> int" where
  "unpackUint hx packed = bindX (hl_hexlify hx packed)
     (\<lambda>h. bindX (BigInt_x h) (\<lambda>packedNumber. Inr (packedNumber div 2 ^ 128, packedNumber mod 2 ^ 128)))"

definition isHexString :: "string \<Rightarrow> nat option \<Rightarrow> bool" where
  "isHexString value len =
     (if \<not> (take 2 value = ''0x'' \<and> hex_digits (drop 2 value)) then False
      else case len of None \<Rightarrow> True | Some l \<Rightarrow> \<not> (l \<noteq> 0 \<and> length value \<noteq> 2 + 2 * l))"

definition hexDataLength :: "string \<Rightarrow> nat option" where
  "hexDataLength data =
     (if \<not> isHexString data None \<or> length data mod 2 \<noteq> 0 then None else Some ((length data - 2) div 2))"

record unpacked_paymaster =
  up_paymaster :: string
  up_paymasterVerificationGas :: int
  up_postOpGasLimit :: int
  up_paymasterData :: string

text \<open>\<open>null < 52\<close> holds.\<close>

definition unpackPaymasterAndData :: "hex_lib \<Rightarrow> string \<Rightarrow> exn + unpacked_paymaster option" where
  "unpackPaymasterAndData hx paymasterAndData =
     (if length paymasterAndData \<le> 2 then Inr None
      else if (case hexDataLength paymasterAndData of None \<Rightarrow> True | Some n \<Rightarrow> n < 52)
        then Inl (ErrorExn (''invalid PaymasterAndData: '' @ paymasterAndData))
      else bindX (hl_dataSlice hx paymasterAndData 20 (Some 52)) (\<lambda>gas.
           bindX (unpackUint hx gas) (\<lambda>(v, p).
           bindX (hl_dataSlice hx paymasterAndData 0 (Some 20)) (\<lambda>pm.
           bindX (hl_dataSlice hx paymasterAndData 52 None) (\<lambda>data.
             Inr (Some \<lparr>up_paymaster = pm, up_paymasterVerificationGas = v, up_postOpGasLimit = p,
               up_paymasterData = data\<rparr>))))))"

definition unpackUserOp :: "hex_lib \<Rightarrow> packed_user_operation \<Rightarrow> exn + user_operation" where
  "unpackUserOp hx p =
     bindX (unpackUint hx (pk_accountGasLimits p)) (\<lambda>(vgl, cgl).
     bindX (unpackUint hx (pk_gasFees p)) (\<lambda>(mpf, mf).
     let base = \<lparr>sender = pk_sender p, nonce = pk_nonce p, factory = None, factoryData = None,
           callData = pk_callData p, callGasLimit = cgl, verificationGasLimit = vgl,
           preVerificationGas = pk_preVerificationGas p, maxFeePerGas = mf,
           maxPriorityFeePerGas = mpf, paymaster = None, paymasterVerificationGasLimit = None,
           paymasterPostOpGasLimit = None, paymasterData = None, signature = pk_signature p,
           eip7702Auth = None\<rparr>
     in bindX (if length (pk_initCode p) > 2
               then bindX (hl_dataSlice hx (pk_initCode p) 0 (Some 20)) (\<lambda>f.
                    bindX (hl_dataSlice hx (pk_initCode p) 20 None) (\<lambda>d.
                      Inr (base\<lparr>factory := Some f, factoryData := Some d\<rparr>)))
               else Inr base)
       (\<lambda>op. bindX (unpackPaymasterAndData hx (pk_paymasterAndData p)) (\<lambda>pm.
          Inr (case pm of
             None \<Rightarrow> op
           | Some u \<Rightarrow> op\<lparr>paymaster := Some (up_paymaster u),
               paymasterVerificationGasLimit := Some (up_paymasterVerificationGas u),
               paymasterPostOpGasLimit := Some (up_postOpGasLimit u),
               paymasterData := Some (up_paymasterData u)\<rparr>)))))"

section \<open>ABI encoding\<close>

record abi_lib =
  al_encode :: "string list \<Rightarrow> js list \<Rightarrow> exn + string"
  al_keccak256 :: "string \<Rightarrow> exn + string"

datatype any_op = Unpacked user_operation | Packed packed_user_operation

definition encodePacked ::
  "abi_lib \<Rightarrow> packed_user_operation \<Rightarrow> bool \<Rightarrow> exn + string" where
  "encodePacked abi op forSignature =
     (if forSignature
      then bindX (al_keccak256 abi (pk_initCode op)) (\<lambda>ki.
           bindX (al_keccak256 abi (pk_callData op)) (\<lambda>kc.
           bindX (al_keccak256 abi (pk_paymasterAndData op)) (\<lambda>kp.
             al_encode abi [''address'', ''uint256'', ''bytes32'', ''bytes32'', ''bytes32'',
                 ''uint256'', ''bytes32'', ''bytes32'']
               [Str (pk_sender op), BigNum (pk_nonce op), Str ki, Str kc, Str (pk_accountGasLimits op),
                BigNum (pk_preVerificationGas op), Str (pk_gasFees op), Str kp])))
      else al_encode abi [''address'', ''uint256'', ''bytes'', ''bytes'', ''bytes32'', ''uint256'',
               ''bytes32'', ''bytes'', ''bytes'']
             [Str (pk_sender op), BigNum (pk_nonce op), Str (pk_initCode op), Str (pk_callData op),
              Str (pk_accountGasLimits op), BigNum (pk_preVerificationGas op), Str (pk_gasFees op),
              Str (pk_paymasterAndData op), Str (pk_signature op)])"

definition encodeUserOp :: "hex_lib \<Rightarrow> abi_lib \<Rightarrow> any_op \<Rightarrow> bool \<Rightarrow> exn + string" where
  "encodeUserOp hx abi op1 forSignature =
     bindX (case op1 of Unpacked u \<Rightarrow> packUserOp hx u | Packed p \<Rightarrow> Inr p)
       (\<lambda>op. encodePacked abi op forSignature)"

section \<open>Round trips\<close>

lemma hex_not_space: "digit_value c < 16 \<Longrightarrow> \<not> is_space c"
  by (auto simp: digit_value_def is_space_def Let_def split: if_splits)

lemma trim_id: "list_all (\<lambda>c. \<not> is_space c) s \<Longrightarrow> trim s = s"
proof -
  have id: "dropWhile is_space t = t" if "list_all (\<lambda>c. \<not> is_space c) t" for t
    using that by (cases t) simp_all
  assume "list_all (\<lambda>c. \<not> is_space c) s"
  then show ?thesis by (simp add: trim_def id list_all_rev)
qed

lemma no_space_0x [simp]: "\<not> is_space CHR ''0''" "\<not> is_space CHR ''x''"
  by code_simp+

lemma BigInt_hex:
  assumes "hex_digits h" and "h \<noteq> []"
  shows "BigInt_x (''0x'' @ h) = Inr (int (digits_value 16 h))"
proof -
  have "trim (''0x'' @ h) = ''0x'' @ h"
    using assms(1) by (intro trim_id) (auto simp: hex_digits_def list_all_iff hex_not_space)
  then show ?thesis
    using assms by (simp add: BigInt_x_def BigInt_str_def is_digits_def hex_digits_def)
qed

definition uint128 :: "int \<Rightarrow> bool" where
  "uint128 i \<longleftrightarrow> 0 \<le> i \<and> i < 2 ^ 128"

definition hex_address :: "string \<Rightarrow> bool" where
  "hex_address s \<longleftrightarrow> take 2 s = ''0x'' \<and> length s = 42 \<and> hex_digits (drop 2 s)"

definition hex_bytes :: "string \<Rightarrow> bool" where
  "hex_bytes s \<longleftrightarrow> take 2 s = ''0x'' \<and> hex_data (drop 2 s)"

lemma take2E:
  assumes "take 2 s = ''0x''" obtains h where "s = ''0x'' @ h" "h = drop 2 s"
  using that [of "drop 2 s"] assms append_take_drop_id [of 2 s] by metis

lemma uint_pair_bound: "uint128 a \<Longrightarrow> uint128 b \<Longrightarrow> 0 \<le> a * 2 ^ 128 + b \<and> a * 2 ^ 128 + b < 16 ^ (2 * 32)"
proof -
  assume ab: "uint128 a" "uint128 b"
  then have "a * 2 ^ 128 \<le> (2 ^ 128 - 1) * 2 ^ 128" by (intro mult_right_mono) (simp_all add: uint128_def)
  with ab show ?thesis by (simp add: uint128_def)
qed

lemma packUint_ok:
  assumes "ethers_hex hx" and "uint128 a" and "uint128 b"
  shows "packUint hx a b = Inr (''0x'' @ hex_fixed 64 (nat (a * 2 ^ 128 + b)))"
  using ethers_hex.padded [OF assms(1), of "a * 2 ^ 128 + b" 32] uint_pair_bound [OF assms(2,3)]
  by (simp add: packUint_def)

lemma unpackUint_ok:
  assumes "ethers_hex hx" and "uint128 a" and "uint128 b"
  shows "unpackUint hx (''0x'' @ hex_fixed 64 (nat (a * 2 ^ 128 + b))) = Inr (a, b)"
proof -
  let ?n = "nat (a * 2 ^ 128 + b)"
  have "?n < 16 ^ 64" using uint_pair_bound [OF assms(2,3)] by (simp add: nat_less_iff)
  then have "BigInt_x (''0x'' @ hex_fixed 64 ?n) = Inr (a * 2 ^ 128 + b)"
    using uint_pair_bound [OF assms(2,3)] by (subst BigInt_hex) (simp_all flip: length_0_conv)
  moreover have "hl_hexlify hx (''0x'' @ hex_fixed 64 ?n) = Inr (''0x'' @ hex_fixed 64 ?n)"
    using ethers_hex.hexlify [OF assms(1)] by (simp add: hex_data_def)
  moreover have "(a * 2 ^ 128 + b) div 2 ^ 128 = a" "(a * 2 ^ 128 + b) mod 2 ^ 128 = b"
    using assms(2,3) by (simp_all add: uint128_def div_add1_eq)
  ultimately show ?thesis by (simp add: unpackUint_def)
qed

lemma hexConcat2:
  assumes "ethers_hex hx" "hex_bytes a" "hex_bytes b"
  shows "hexConcat hx [a, b] = Inr (toLowerCase a @ drop 2 (toLowerCase b))"
  using assms by (auto simp: hexConcat_def hex_bytes_def elim!: take2E
      dest!: ethers_hex.hexlify [OF assms(1)])

lemma hexConcat3:
  assumes "ethers_hex hx" "hex_bytes a" "hex_bytes b" "hex_bytes c"
  shows "hexConcat hx [a, b, c] = Inr (toLowerCase a @ drop 2 (toLowerCase b) @ drop 2 (toLowerCase c))"
  using assms by (auto simp: hexConcat_def hex_bytes_def elim!: take2E
      dest!: ethers_hex.hexlify [OF assms(1)])

lemma hex_address_bytes: "hex_address a \<Longrightarrow> hex_bytes a"
  by (simp add: hex_address_def hex_bytes_def hex_data_def)

lemma hex_digits_lower [simp]: "hex_digits (toLowerCase h) \<longleftrightarrow> hex_digits h"
proof -
  have "digit_value (lower_char c) < 16 \<longleftrightarrow> digit_value c < 16" for c
    by (auto simp: digit_value_def lower_char_def Let_def)
  then show ?thesis by (simp add: hex_digits_def toLowerCase_def list.pred_map comp_def)
qed

definition data_ok :: "string option \<Rightarrow> bool" where
  "data_ok d = hex_bytes (dataOr0x d)"

text \<open>The operations whose numbers fit the packed form and whose byte fields are well formed.\<close>

definition packable :: "user_operation \<Rightarrow> bool" where
  "packable op \<longleftrightarrow>
     uint128 (verificationGasLimit op) \<and> uint128 (callGasLimit op) \<and>
     uint128 (maxPriorityFeePerGas op) \<and> uint128 (maxFeePerGas op) \<and>
     (case factory op of None \<Rightarrow> True
      | Some f \<Rightarrow> (f = EIP_7702_MARKER_INIT_CODE \<or> hex_address f) \<and> data_ok (factoryData op)) \<and>
     (case paymaster op of None \<Rightarrow> True
      | Some p \<Rightarrow> hex_address p \<and> data_ok (paymasterData op) \<and>
          (case (paymasterVerificationGasLimit op, paymasterPostOpGasLimit op) of
             (Some v, Some g) \<Rightarrow> uint128 v \<and> uint128 g | _ \<Rightarrow> False))"

text \<open>What the packed form keeps of an operation.\<close>

definition paddedFactory :: "string \<Rightarrow> string" where
  "paddedFactory f =
     (if f = EIP_7702_MARKER_INIT_CODE then f @ replicate 36 CHR ''0'' else toLowerCase f)"

definition canonicalOp :: "user_operation \<Rightarrow> user_operation" where
  "canonicalOp op = op\<lparr>
     factory := map_option paddedFactory (factory op),
     factoryData := (case factory op of None \<Rightarrow> None
       | Some _ \<Rightarrow> Some (toLowerCase (dataOr0x (factoryData op)))),
     paymaster := map_option toLowerCase (paymaster op),
     paymasterVerificationGasLimit :=
       (case paymaster op of None \<Rightarrow> None | Some _ \<Rightarrow> paymasterVerificationGasLimit op),
     paymasterPostOpGasLimit :=
       (case paymaster op of None \<Rightarrow> None | Some _ \<Rightarrow> paymasterPostOpGasLimit op),
     paymasterData := (case paymaster op of None \<Rightarrow> None
       | Some _ \<Rightarrow> Some (toLowerCase (dataOr0x (paymasterData op)))),
     eip7702Auth := None\<rparr>"

definition packedInitCode :: "user_operation \<Rightarrow> string" where
  "packedInitCode op = (case factory op of None \<Rightarrow> ''0x''
     | Some f \<Rightarrow> paddedFactory f @ drop 2 (toLowerCase (dataOr0x (factoryData op))))"

definition packedPaymaster :: "user_operation \<Rightarrow> string" where
  "packedPaymaster op =
     (case (paymaster op, paymasterVerificationGasLimit op, paymasterPostOpGasLimit op) of
        (Some p, Some v, Some g) \<Rightarrow> toLowerCase p @ hex_fixed 64 (nat (v * 2 ^ 128 + g))
          @ drop 2 (toLowerCase (dataOr0x (paymasterData op)))
      | _ \<Rightarrow> ''0x'')"

lemma drop_toLowerCase: "toLowerCase (drop n s) = drop n (toLowerCase s)"
  by (simp add: toLowerCase_def drop_map)

lemma hex_bytes_lower: "hex_bytes s \<Longrightarrow> toLowerCase s = ''0x'' @ drop 2 (toLowerCase s)"
  by (auto simp: hex_bytes_def elim!: take2E)

lemma marker_bytes: "hex_bytes EIP_7702_MARKER_INIT_CODE"
    "hex_bytes (EIP_7702_MARKER_INIT_CODE @ replicate 36 CHR ''0'')"
    "toLowerCase (EIP_7702_MARKER_INIT_CODE @ replicate 36 CHR ''0'')
      = EIP_7702_MARKER_INIT_CODE @ replicate 36 CHR ''0''"
  by code_simp+

lemma packInitCode_ok:
  assumes "ethers_hex hx" and "packable op"
  shows "packInitCode hx op = Inr (packedInitCode op)"
proof (cases "factory op")
  case None
  then show ?thesis by (simp add: packInitCode_def packedInitCode_def)
next
  case (Some f)
  let ?d = "dataOr0x (factoryData op)"
  have d: "hex_bytes ?d" and f: "f = EIP_7702_MARKER_INIT_CODE \<or> hex_address f"
    using assms(2) Some by (auto simp: packable_def data_ok_def)
  show ?thesis
  proof (cases "f = EIP_7702_MARKER_INIT_CODE")
    case True
    from True Some show ?thesis
      using hexConcat2 [OF assms(1) marker_bytes(1) d] hexConcat2 [OF assms(1) marker_bytes(2) d]
        marker_bytes(3)
      by (simp add: packInitCode_def packedInitCode_def paddedFactory_def del: toLowerCase_append)
  next
    case False
    with f have a: "hex_bytes f" by (simp add: hex_address_bytes)
    with False Some show ?thesis
      using hexConcat2 [OF assms(1) a d]
      by (simp add: packInitCode_def packedInitCode_def paddedFactory_def)
  qed
qed

lemma packPaymasterAndData_ok:
  assumes "ethers_hex hx" and "packable op"
  shows "packPaymasterAndData hx op = Inr (packedPaymaster op)"
proof (cases "paymaster op")
  case None
  then show ?thesis by (simp add: packPaymasterAndData_def packedPaymaster_def)
next
  case (Some p)
  let ?d = "dataOr0x (paymasterData op)"
  obtain v g where vg: "paymasterVerificationGasLimit op = Some v" "paymasterPostOpGasLimit op = Some g"
      "uint128 v" "uint128 g"
    using assms(2) Some by (auto simp: packable_def split: option.splits)
  have d: "hex_bytes ?d" and p: "hex_bytes p"
    using assms(2) Some by (auto simp: packable_def data_ok_def hex_address_bytes)
  let ?u = "''0x'' @ hex_fixed 64 (nat (v * 2 ^ 128 + g))"
  have u: "hex_bytes ?u" by (simp add: hex_bytes_def hex_data_def)
  have "hexConcat hx [p, ?u, ?d]
      = Inr (toLowerCase p @ hex_fixed 64 (nat (v * 2 ^ 128 + g)) @ drop 2 (toLowerCase ?d))"
    by (subst hexConcat3 [OF assms(1) p u d]) simp
  then show ?thesis
    using Some vg packUint_ok [OF assms(1) vg(3,4)]
    by (simp add: packPaymasterAndData_def packPaymasterData_def packedPaymaster_def
        flip: dataOr0x_def)
qed

lemma hex_bytes_append: "hex_bytes a \<Longrightarrow> hex_data d \<Longrightarrow> hex_bytes (a @ d)"
  by (auto simp: hex_bytes_def hex_data_def elim!: take2E)

lemma hex_slices:
  assumes "ethers_hex hx" and "hex_bytes s" and "2 + 2 * b \<le> length s" and "a \<le> b"
  shows "hl_dataSlice hx s a (Some b) = Inr (''0x'' @ toLowerCase (take (2 * (b - a)) (drop (2 + 2 * a) s)))"
    "hl_dataSlice hx s b None = Inr (''0x'' @ toLowerCase (drop (2 + 2 * b) s))"
  using assms ethers_hex.dataSlice [OF assms(1), of "drop 2 s" a b]
    ethers_hex.dataSlice_rest [OF assms(1), of "drop 2 s" b]
  by (auto simp: hex_bytes_def elim!: take2E)

text \<open>A packed field of an address and trailing bytes, split at the address.\<close>

lemma packed_address_slices:
  assumes "ethers_hex hx" and "length a = 42" and "hex_bytes a" and "toLowerCase a = a"
    and "hex_data d" and "toLowerCase d = d"
  shows "hl_dataSlice hx (a @ d) 0 (Some 20) = Inr a"
    "hl_dataSlice hx (a @ d) 20 None = Inr (''0x'' @ d)"
    "2 * m \<le> length d \<Longrightarrow> hl_dataSlice hx (a @ d) 20 (Some (20 + m)) = Inr (''0x'' @ take (2 * m) d)"
    "2 * m \<le> length d \<Longrightarrow> hl_dataSlice hx (a @ d) (20 + m) None = Inr (''0x'' @ drop (2 * m) d)"
proof -
  obtain h where h: "a = ''0x'' @ h" "length h = 40" "toLowerCase h = h" "hex_data h"
    using assms(2,3,4) by (auto simp: hex_bytes_def elim!: take2E)
  have hd: "hex_bytes (a @ d)"
    using h assms(5) by (simp add: hex_bytes_def hex_data_def)
  have low: "toLowerCase (take n d) = take n d" "toLowerCase (drop n d) = drop n d" for n
    using assms(6) by (metis take_map toLowerCase_def, metis drop_map toLowerCase_def)
  have tail: "drop (42 + 2 * m) (a @ d) = drop (2 * m) d"
    using assms(2) by simp
  show "hl_dataSlice hx (a @ d) 0 (Some 20) = Inr a" "hl_dataSlice hx (a @ d) 20 None = Inr (''0x'' @ d)"
    using hex_slices [OF assms(1) hd, of 20 0] h assms(6) by simp_all
  show "2 * m \<le> length d \<Longrightarrow> hl_dataSlice hx (a @ d) 20 (Some (20 + m)) = Inr (''0x'' @ take (2 * m) d)"
    "2 * m \<le> length d \<Longrightarrow> hl_dataSlice hx (a @ d) (20 + m) None = Inr (''0x'' @ drop (2 * m) d)"
    using hex_slices [OF assms(1) hd, of "20 + m" 20] h low tail by simp_all
qed

lemma unpackInitCode_ok:
  assumes "ethers_hex hx" and "packable op" and "factory op = Some f"
  shows "hl_dataSlice hx (packedInitCode op) 0 (Some 20) = Inr (paddedFactory f)"
    "hl_dataSlice hx (packedInitCode op) 20 None = Inr (toLowerCase (dataOr0x (factoryData op)))"
    "length (packedInitCode op) > 2"
proof -
  let ?d = "drop 2 (toLowerCase (dataOr0x (factoryData op)))"
  have f: "f = EIP_7702_MARKER_INIT_CODE \<or> hex_address f" and d: "hex_bytes (dataOr0x (factoryData op))"
    using assms(2,3) by (auto simp: packable_def data_ok_def)
  have len: "length (EIP_7702_MARKER_INIT_CODE @ replicate 36 CHR ''0'') = 42" by code_simp
  have pf: "length (paddedFactory f) = 42" "hex_bytes (paddedFactory f)"
    "toLowerCase (paddedFactory f) = paddedFactory f"
    using f len marker_bytes(2,3)
    by (auto simp: paddedFactory_def hex_bytes_def hex_address_def hex_data_def
        simp del: toLowerCase_append simp flip: drop_toLowerCase elim!: take2E)
  have dd: "hex_data ?d" "toLowerCase ?d = ?d" using d
    by (simp_all add: hex_bytes_def hex_data_def flip: drop_toLowerCase)
  note * = packed_address_slices(1,2) [OF assms(1) pf dd]
  have p: "packedInitCode op = paddedFactory f @ ?d" by (simp add: packedInitCode_def assms(3))
  show "hl_dataSlice hx (packedInitCode op) 0 (Some 20) = Inr (paddedFactory f)"
    "hl_dataSlice hx (packedInitCode op) 20 None = Inr (toLowerCase (dataOr0x (factoryData op)))"
    "length (packedInitCode op) > 2"
    unfolding p * hex_bytes_lower [OF d, symmetric]
    using pf(1) by simp_all
qed

lemma unpackPaymasterAndData_ok:
  assumes "ethers_hex hx" and "packable op" and "paymaster op = Some p"
    and "paymasterVerificationGasLimit op = Some v" and "paymasterPostOpGasLimit op = Some g"
  shows "unpackPaymasterAndData hx (packedPaymaster op) = Inr (Some
    \<lparr>up_paymaster = toLowerCase p, up_paymasterVerificationGas = v, up_postOpGasLimit = g,
     up_paymasterData = toLowerCase (dataOr0x (paymasterData op))\<rparr>)"
proof -
  define dd where "dd = drop 2 (toLowerCase (dataOr0x (paymasterData op)))"
  define u where "u = hex_fixed 64 (nat (v * 2 ^ 128 + g))"
  have p: "hex_address p" and d: "hex_bytes (dataOr0x (paymasterData op))" and "uint128 v" "uint128 g"
    using assms(2-5) by (auto simp: packable_def data_ok_def)
  then have num: "unpackUint hx (''0x'' @ u) = Inr (v, g)" unfolding u_def
    by (intro unpackUint_ok assms(1))
  have u: "length u = 64" "hex_data u" "toLowerCase u = u" by (simp_all add: u_def hex_data_def)
  have dd: "hex_data dd" "toLowerCase dd = dd" using d
    by (simp_all add: dd_def hex_bytes_def hex_data_def flip: drop_toLowerCase)
  have pl: "length (toLowerCase p) = 42" "hex_bytes (toLowerCase p)"
    "toLowerCase (toLowerCase p) = toLowerCase p"
    using p by (auto simp: hex_address_def hex_bytes_def hex_data_def elim!: take2E)
  have ud: "hex_data (u @ dd)" "toLowerCase (u @ dd) = u @ dd" "2 * 32 \<le> length (u @ dd)"
    using u dd by (simp_all add: hex_data_def)
  note sl = packed_address_slices [OF assms(1) pl ud(1,2)]
  have s: "hl_dataSlice hx (toLowerCase p @ u @ dd) 0 (Some 20) = Inr (toLowerCase p)"
    "hl_dataSlice hx (toLowerCase p @ u @ dd) 20 (Some 52) = Inr (''0x'' @ u)"
    "hl_dataSlice hx (toLowerCase p @ u @ dd) 52 None = Inr (''0x'' @ dd)"
    using sl(1) sl(3) [OF ud(3)] sl(4) [OF ud(3)] u(1) by simp_all
  have pp: "packedPaymaster op = toLowerCase p @ u @ dd"
    by (simp add: packedPaymaster_def assms(3-5) u_def dd_def)
  have hb: "hex_bytes (toLowerCase p @ u @ dd)"
    using pl(2) ud(1) by (rule hex_bytes_append)
  have "isHexString (toLowerCase p @ u @ dd) None" "length (toLowerCase p @ u @ dd) mod 2 = 0"
    using hb pl(1) u(1) dd(1) by (simp_all add: isHexString_def hex_bytes_def hex_data_def)
  then have len: "hexDataLength (toLowerCase p @ u @ dd) = Some (52 + length dd div 2)"
    using pl(1) u(1) by (simp add: hexDataLength_def)
  show ?thesis
    unfolding unpackPaymasterAndData_def pp
    using len s num pl(1) hex_bytes_lower [OF d] by (simp flip: dd_def)
qed

lemma packUserOp_ok:
  assumes "ethers_hex hx" and "packable op"
  shows "packUserOp hx op = Inr \<lparr>pk_sender = sender op, pk_nonce = nonce op,
    pk_initCode = packedInitCode op, pk_callData = callData op,
    pk_accountGasLimits = ''0x'' @ hex_fixed 64 (nat (verificationGasLimit op * 2 ^ 128 + callGasLimit op)),
    pk_preVerificationGas = preVerificationGas op,
    pk_gasFees = ''0x'' @ hex_fixed 64 (nat (maxPriorityFeePerGas op * 2 ^ 128 + maxFeePerGas op)),
    pk_paymasterAndData = packedPaymaster op, pk_signature = signature op\<rparr>"
proof -
  have "uint128 (verificationGasLimit op)" "uint128 (callGasLimit op)"
    "uint128 (maxPriorityFeePerGas op)" "uint128 (maxFeePerGas op)"
    using assms(2) by (simp_all add: packable_def)
  then show ?thesis
    by (simp add: packUserOp_def packInitCode_ok [OF assms] packPaymasterAndData_ok [OF assms]
        packUint_ok [OF assms(1)])
qed

lemma unpackUserOp_ok:
  assumes "ethers_hex hx" and "packable op" and "packUserOp hx op = Inr p"
  shows "unpackUserOp hx p = Inr (canonicalOp op)"
proof -
  have n: "uint128 (verificationGasLimit op)" "uint128 (callGasLimit op)"
    "uint128 (maxPriorityFeePerGas op)" "uint128 (maxFeePerGas op)"
    using assms(2) by (simp_all add: packable_def)
  note u = unpackUint_ok [OF assms(1) n(1,2)] unpackUint_ok [OF assms(1) n(3,4)]
  have p: "p = \<lparr>pk_sender = sender op, pk_nonce = nonce op,
    pk_initCode = packedInitCode op, pk_callData = callData op,
    pk_accountGasLimits = ''0x'' @ hex_fixed 64 (nat (verificationGasLimit op * 2 ^ 128 + callGasLimit op)),
    pk_preVerificationGas = preVerificationGas op,
    pk_gasFees = ''0x'' @ hex_fixed 64 (nat (maxPriorityFeePerGas op * 2 ^ 128 + maxFeePerGas op)),
    pk_paymasterAndData = packedPaymaster op, pk_signature = signature op\<rparr>"
    using packUserOp_ok [OF assms(1,2)] assms(3) by simp
  have pm: "unpackPaymasterAndData hx (packedPaymaster op) = Inr (case paymaster op of
      None \<Rightarrow> None
    | Some a \<Rightarrow> Some \<lparr>up_paymaster = toLowerCase a,
        up_paymasterVerificationGas = the (paymasterVerificationGasLimit op),
        up_postOpGasLimit = the (paymasterPostOpGasLimit op),
        up_paymasterData = toLowerCase (dataOr0x (paymasterData op))\<rparr>)"
  proof (cases "paymaster op")
    case None
    then show ?thesis by (simp add: packedPaymaster_def unpackPaymasterAndData_def)
  next
    case (Some a)
    then obtain v g where "paymasterVerificationGasLimit op = Some v" "paymasterPostOpGasLimit op = Some g"
      using assms(2) by (auto simp: packable_def split: option.splits)
    with unpackPaymasterAndData_ok [OF assms(1,2) Some] show ?thesis by (simp add: Some)
  qed
  have lim: "paymaster op = Some a \<Longrightarrow> Some (the (paymasterVerificationGasLimit op)) = paymasterVerificationGasLimit op
      \<and> Some (the (paymasterPostOpGasLimit op)) = paymasterPostOpGasLimit op" for a
    using assms(2) by (auto simp: packable_def split: option.splits)
  show ?thesis
  proof (cases "factory op")
    case None
    then show ?thesis
      using u lim by (cases "paymaster op")
        (simp_all add: unpackUserOp_def p pm packedInitCode_def canonicalOp_def)
  next
    case (Some f)
    note fs = unpackInitCode_ok [OF assms(1,2) Some]
    show ?thesis
      using u lim fs Some by (cases "paymaster op")
        (simp_all add: unpackUserOp_def p pm canonicalOp_def)
  qed
qed

lemma paddedFactory_canonical:
  assumes "f = EIP_7702_MARKER_INIT_CODE \<or> hex_address f"
  shows "hex_address (paddedFactory f)" "paddedFactory (paddedFactory f) = paddedFactory f"
proof -
  have m: "hex_address (EIP_7702_MARKER_INIT_CODE @ replicate 36 CHR ''0'')"
    "length EIP_7702_MARKER_INIT_CODE = 6" by code_simp+
  show pf: "hex_address (paddedFactory f)"
    using assms m(1) by (auto simp: paddedFactory_def hex_address_def simp flip: drop_toLowerCase
        elim!: take2E)
  then have "paddedFactory f \<noteq> EIP_7702_MARKER_INIT_CODE" using m(2) by (auto simp: hex_address_def)
  moreover have "toLowerCase (paddedFactory f) = paddedFactory f"
    using marker_bytes(3) by (simp add: paddedFactory_def del: toLowerCase_append)
  ultimately show "paddedFactory (paddedFactory f) = paddedFactory f"
    by (subst paddedFactory_def) simp
qed

lemma hex_lower_ok: "hex_address s \<Longrightarrow> hex_address (toLowerCase s)"
    "hex_bytes s \<Longrightarrow> hex_bytes (toLowerCase s)"
  by (auto simp: hex_address_def hex_bytes_def hex_data_def elim!: take2E)

lemma dataOr0x_Some [simp]: "dataOr0x (Some d) = d" "dataOr0x None = ''0x''"
  by (simp_all add: dataOr0x_def)

lemma packable_canonical: "packable op \<Longrightarrow> packable (canonicalOp op)"
  by (auto simp: packable_def canonicalOp_def data_ok_def paddedFactory_canonical(1) hex_lower_ok
      split: option.splits)

lemma packed_canonical:
  assumes "packable op"
  shows "packedInitCode (canonicalOp op) = packedInitCode op"
    "packedPaymaster (canonicalOp op) = packedPaymaster op"
proof -
  show "packedInitCode (canonicalOp op) = packedInitCode op"
    using assms by (auto simp: packable_def packedInitCode_def canonicalOp_def
        paddedFactory_canonical(2) simp flip: drop_toLowerCase split: option.splits)
  show "packedPaymaster (canonicalOp op) = packedPaymaster op"
    using assms by (auto simp: packable_def packedPaymaster_def canonicalOp_def split: option.splits)
qed

text \<open>
  Property C10. Unpacking a packed operation gives back the operation up to what the packed form cannot carry:
  byte fields come back in lower case, absent factory and paymaster data as \<open>0x\<close>, the EIP-7702
  marker \<open>0x7702\<close> as an address padded with zeros (so it is no longer recognised as the marker),
  and the EIP-7702 authorization is gone. Packing the result again gives the same packed
  operation.
\<close>

theorem pack_unpack_roundtrip:
  assumes "ethers_hex hx" and "packable op"
  shows "bindX (packUserOp hx op) (unpackUserOp hx) = Inr (canonicalOp op) \<and>
    packUserOp hx (canonicalOp op) = packUserOp hx op \<and>
    canonicalOp (canonicalOp op) = canonicalOp op"
proof (intro conjI)
  obtain p where p: "packUserOp hx op = Inr p" using packUserOp_ok [OF assms] by blast
  then show "bindX (packUserOp hx op) (unpackUserOp hx) = Inr (canonicalOp op)"
    using unpackUserOp_ok [OF assms p] by simp
  show same: "packUserOp hx (canonicalOp op) = packUserOp hx op"
    unfolding packUserOp_ok [OF assms] packUserOp_ok [OF assms(1) packable_canonical [OF assms(2)]]
    using packed_canonical [OF assms(2)] by (simp add: canonicalOp_def)
  have "unpackUserOp hx p = Inr (canonicalOp (canonicalOp op))"
    using unpackUserOp_ok [OF assms(1) packable_canonical [OF assms(2)]] same p by simp
  with unpackUserOp_ok [OF assms p] show "canonicalOp (canonicalOp op) = canonicalOp op" by simp
qed

definition demo_packed_op :: user_operation where
  "demo_packed_op = (demo_op (''0xAb'' @ replicate 38 CHR ''1'') 7 (Some (''0xAB'' @ replicate 38 CHR ''2'')) 300)
     \<lparr>factory := Some EIP_7702_MARKER_INIT_CODE, paymasterVerificationGasLimit := Some 5,
      paymasterPostOpGasLimit := Some 6, paymasterData := Some ''0xCAFE''\<rparr>"

theorem pack_unpack_roundtrip_witness:
  "bindX (packUserOp hex_reference demo_packed_op) (unpackUserOp hex_reference)
     = Inr (canonicalOp demo_packed_op) \<and>
   factory (canonicalOp demo_packed_op) = Some (''0x7702'' @ replicate 36 CHR ''0'') \<and>
   paymasterData (canonicalOp demo_packed_op) = Some ''0xcafe''"
proof -
  have "packable demo_packed_op" by code_simp
  from pack_unpack_roundtrip [OF reference.ethers_hex_axioms this]
  have "bindX (packUserOp hex_reference demo_packed_op) (unpackUserOp hex_reference)
     = Inr (canonicalOp demo_packed_op)" by blast
  moreover have "factory (canonicalOp demo_packed_op) = Some (''0x7702'' @ replicate 36 CHR ''0'')"
    "paymasterData (canonicalOp demo_packed_op) = Some ''0xcafe''"
    by code_simp+
  ultimately show ?thesis by simp
qed

end
