(* ===== verification/Gas.thy ===== *)
theory Gas
  imports Js_Double UserOp_Packing
begin

text \<open>
  The pre-verification gas calculator (\<open>src/gas/pre-verification-gas.ts\<close>). Its numbers are
  doubles (\<open>fl\<close> after every operation); the byte functions of \<open>ethers\<close> and the ABI encoder are
  parameters. The bundle size a configuration expects is taken not to be zero.
\<close>

section \<open>Configuration\<close>

record gas_config =
  gc_transactionGasStipend :: rat
  gc_fixedGasOverhead :: rat
  gc_perUserOpGasOverhead :: rat
  gc_perUserOpWordGasOverhead :: rat
  gc_executeUserOpGasOverhead :: rat
  gc_executeUserOpPerWordGasOverhead :: rat
  gc_standardTokenGasCost :: rat
  gc_useEip7623 :: bool
  gc_floorPerTokenGasCost :: rat
  gc_tokensPerNonzeroByte :: rat
  gc_eip7702AuthGas :: rat
  gc_expectedBundleSize :: rat
  gc_estimationSignatureSize :: nat
  gc_estimationPaymasterDataSize :: nat

text \<open>\<open>9.5\<close> is a double, \<open>8.2\<close> is not: the literal stands for the nearest one.\<close>

definition MAINNET_CONFIG :: gas_config where
  "MAINNET_CONFIG = \<lparr>gc_transactionGasStipend = 21000, gc_fixedGasOverhead = 9830,
     gc_perUserOpGasOverhead = 7260, gc_perUserOpWordGasOverhead = 19 / 2,
     gc_executeUserOpGasOverhead = 1610, gc_executeUserOpPerWordGasOverhead = fl (82 / 10),
     gc_standardTokenGasCost = 4, gc_useEip7623 = True, gc_floorPerTokenGasCost = 10,
     gc_tokensPerNonzeroByte = 4, gc_eip7702AuthGas = 25000, gc_expectedBundleSize = 1,
     gc_estimationSignatureSize = 65, gc_estimationPaymasterDataSize = 0\<rparr>"

definition CHAIN_CONFIG :: "int \<Rightarrow> gas_config option" where
  "CHAIN_CONFIG chainId =
     (if chainId = 1 \<or> chainId = 1337 \<or> chainId = 31337 \<or> chainId = 11155111
      then Some MAINNET_CONFIG else None)"

definition createPreVerificationGasCalculator :: "int \<Rightarrow> exn + gas_config" where
  "createPreVerificationGasCalculator chainId =
     (case CHAIN_CONFIG chainId of
        None \<Rightarrow> Inl (ErrorExn (''Unsupported chainId: '' @ int_str chainId))
      | Some gasConfig \<Rightarrow> Inr gasConfig)"

text \<open>\<open>Partial<PreVerificationGasConfig>\<close>\<close>

record partial_gas_config =
  pg_transactionGasStipend :: "rat option"
  pg_fixedGasOverhead :: "rat option"
  pg_perUserOpGasOverhead :: "rat option"
  pg_perUserOpWordGasOverhead :: "rat option"
  pg_executeUserOpGasOverhead :: "rat option"
  pg_executeUserOpPerWordGasOverhead :: "rat option"
  pg_standardTokenGasCost :: "rat option"
  pg_useEip7623 :: "bool option"
  pg_floorPerTokenGasCost :: "rat option"
  pg_tokensPerNonzeroByte :: "rat option"
  pg_eip7702AuthGas :: "rat option"
  pg_expectedBundleSize :: "rat option"
  pg_estimationSignatureSize :: "nat option"
  pg_estimationPaymasterDataSize :: "nat option"

definition overwrite :: "'a option \<Rightarrow> 'a \<Rightarrow> 'a" where
  "overwrite new old = (case new of None \<Rightarrow> old | Some v \<Rightarrow> v)"

definition updateGasConfig :: "partial_gas_config \<Rightarrow> gas_config \<Rightarrow> gas_config" where
  "updateGasConfig p c =
     \<lparr>gc_transactionGasStipend = overwrite (pg_transactionGasStipend p) (gc_transactionGasStipend c),
      gc_fixedGasOverhead = overwrite (pg_fixedGasOverhead p) (gc_fixedGasOverhead c),
      gc_perUserOpGasOverhead = overwrite (pg_perUserOpGasOverhead p) (gc_perUserOpGasOverhead c),
      gc_perUserOpWordGasOverhead
        = overwrite (pg_perUserOpWordGasOverhead p) (gc_perUserOpWordGasOverhead c),
      gc_executeUserOpGasOverhead
        = overwrite (pg_executeUserOpGasOverhead p) (gc_executeUserOpGasOverhead c),
      gc_executeUserOpPerWordGasOverhead
        = overwrite (pg_executeUserOpPerWordGasOverhead p) (gc_executeUserOpPerWordGasOverhead c),
      gc_standardTokenGasCost = overwrite (pg_standardTokenGasCost p) (gc_standardTokenGasCost c),
      gc_useEip7623 = overwrite (pg_useEip7623 p) (gc_useEip7623 c),
      gc_floorPerTokenGasCost = overwrite (pg_floorPerTokenGasCost p) (gc_floorPerTokenGasCost c),
      gc_tokensPerNonzeroByte = overwrite (pg_tokensPerNonzeroByte p) (gc_tokensPerNonzeroByte c),
      gc_eip7702AuthGas = overwrite (pg_eip7702AuthGas p) (gc_eip7702AuthGas c),
      gc_expectedBundleSize = overwrite (pg_expectedBundleSize p) (gc_expectedBundleSize c),
      gc_estimationSignatureSize
        = overwrite (pg_estimationSignatureSize p) (gc_estimationSignatureSize c),
      gc_estimationPaymasterDataSize
        = overwrite (pg_estimationPaymasterDataSize p) (gc_estimationPaymasterDataSize c)\<rparr>"

record gas_options =
  go_verificationGasUsed :: "int option"
  go_totalGasUsed :: "int option"

definition no_options :: gas_options where
  "no_options = \<lparr>go_verificationGasUsed = None, go_totalGasUsed = None\<rparr>"

text \<open>
  What the calculator uses of \<open>ethers\<close>: \<open>getBytes\<close> of a hex string, \<open>hexlify\<close> of a byte array, the
  hex functions and the ABI encoder of \<open>encodeUserOp\<close>.
\<close>

record gas_lib =
  gl_getBytes :: "string \<Rightarrow> exn + nat list"
  gl_hexlifyBytes :: "nat list \<Rightarrow> string"
  gl_hex :: hex_lib
  gl_abi :: abi_lib

section \<open>The calculation\<close>

text \<open>
  \<open>getBytes\<close> gives a \<open>Uint8Array\<close>, whose \<open>map\<close> gives another one: the token counts of the bytes
  are reduced modulo 256. \<open>reduce\<close> without an initial value throws on an empty array.
\<close>

definition to_uint8 :: "rat \<Rightarrow> rat" where
  "to_uint8 x = of_int ((if x < 0 then - \<lfloor>- x\<rfloor> else \<lfloor>x\<rfloor>) mod 256)"

definition countTokens :: "gas_config \<Rightarrow> nat list \<Rightarrow> exn + rat" where
  "countTokens gasConfig bytes =
     (case map (\<lambda>x. to_uint8 (if x = 0 then 1 else gc_tokensPerNonzeroByte gasConfig)) bytes of
        [] \<Rightarrow> Inl (TypeErrorExn ''Reduce of empty array with no initial value'')
      | t # ts \<Rightarrow> Inr (foldl (\<lambda>sum x. fl (sum + x)) t ts))"

text \<open>Division of \<open>bigint\<close>s truncates.\<close>

definition bigint_div :: "int \<Rightarrow> int \<Rightarrow> int" where
  "bigint_div a b = (if a < 0 then - ((- a) div b) else a div b)"

definition getUserOpGasUsed :: "user_operation \<Rightarrow> gas_options \<Rightarrow> exn + int" where
  "getUserOpGasUsed userOp gasOptions =
     (case go_totalGasUsed gasOptions of
        Some allGas \<Rightarrow> Inr allGas
      | None \<Rightarrow>
          let result = bigint_div (callGasLimit userOp + nullish_or (paymasterPostOpGasLimit userOp) 0) 10
                + nullish_or (go_verificationGasUsed gasOptions) 0
          in if result > 2 ^ 53 - 1
             then Inl (ErrorExn (''Calculated gas exceeds Number.MAX_SAFE_INTEGER: '' @ int_str result))
             else Inr (Number_of result))"

definition eip7623transactionGasCost :: "gas_config \<Rightarrow> rat \<Rightarrow> rat \<Rightarrow> rat \<Rightarrow> rat" where
  "eip7623transactionGasCost gasConfig stipendGasCost tokenGasCount executionGasCost =
     Math_round (fl (stipendGasCost +
       max (fl (fl (gc_standardTokenGasCost gasConfig * tokenGasCount) + executionGasCost))
           (fl (gc_floorPerTokenGasCost gasConfig * tokenGasCount))))"

text \<open>\<open>0x8dd7712f\<close>\<close>

definition EXECUTE_USEROP_METHOD_SIG :: "nat list" where
  "EXECUTE_USEROP_METHOD_SIG = [0x8d, 0xd7, 0x71, 0x2f]"

definition userOpSpecificOverhead :: "gas_config \<Rightarrow> user_operation \<Rightarrow> nat list \<Rightarrow> rat \<Rightarrow> rat" where
  "userOpSpecificOverhead gasConfig userOp callDataBytes userOpWordsLength =
     (let perUserOpOverhead = (if eip7702Auth userOp = None then gc_perUserOpGasOverhead gasConfig
            else fl (gc_perUserOpGasOverhead gasConfig + gc_eip7702AuthGas gasConfig))
      in if take 4 callDataBytes = EXECUTE_USEROP_METHOD_SIG
         then fl (fl (perUserOpOverhead + fl (gc_executeUserOpGasOverhead gasConfig
                + fl (gc_executeUserOpPerWordGasOverhead gasConfig * userOpWordsLength))) + 0)
         else fl (perUserOpOverhead + fl (0 + fl (Math_ceil (fl (of_nat (length callDataBytes) / 32))
                * gc_perUserOpWordGasOverhead gasConfig))))"

definition calculate ::
  "gas_lib \<Rightarrow> gas_config \<Rightarrow> user_operation \<Rightarrow> gas_options \<Rightarrow> exn + rat" where
  "calculate lib gasConfig userOp gasOptions =
     bindX (encodeUserOp (gl_hex lib) (gl_abi lib) (Unpacked userOp) False) (\<lambda>encoded.
     bindX (gl_getBytes lib encoded) (\<lambda>packedUserOp.
     let userOpWordsLength = fl (fl (of_nat (length packedUserOp) + 31) / 32)
     in bindX (countTokens gasConfig packedUserOp) (\<lambda>tokenCount.
        bindX (gl_getBytes lib (callData userOp)) (\<lambda>callDataBytes.
        let specific = userOpSpecificOverhead gasConfig userOp callDataBytes userOpWordsLength;
            userOpShareOfBundleCost = fl (gc_fixedGasOverhead gasConfig / gc_expectedBundleSize gasConfig);
            userOpShareOfStipend
              = fl (gc_transactionGasStipend gasConfig / gc_expectedBundleSize gasConfig)
        in if gc_useEip7623 gasConfig
           then bindX (getUserOpGasUsed userOp gasOptions) (\<lambda>calculatedGasUsed.
                  Inr (fl (eip7623transactionGasCost gasConfig userOpShareOfStipend tokenCount
                    (fl (fl (userOpShareOfBundleCost + specific) + of_int calculatedGasUsed))
                    - of_int calculatedGasUsed)))
           else Inr (fl (fl (fl (fl (gc_standardTokenGasCost gasConfig * tokenCount)
                  + userOpShareOfStipend) + userOpShareOfBundleCost) + specific))))))"

text \<open>
  A partial operation is an operation whose \<open>preVerificationGas\<close> and \<open>signature\<close> are given apart,
  because they may be missing.
\<close>

definition fillUserOpWithDummyData ::
  "gas_lib \<Rightarrow> gas_config \<Rightarrow> user_operation \<Rightarrow> int option \<Rightarrow> string option \<Rightarrow> user_operation" where
  "fillUserOpWithDummyData lib gasConfig userOp pvg sig = userOp\<lparr>
     preVerificationGas := nullish_or pvg 21000,
     signature := (case sig of
        None \<Rightarrow> gl_hexlifyBytes lib (replicate (gc_estimationSignatureSize gasConfig) 0xff)
      | Some s \<Rightarrow> s),
     paymasterData := Some (case paymasterData userOp of
        None \<Rightarrow> gl_hexlifyBytes lib (replicate (gc_estimationPaymasterDataSize gasConfig) 0xff)
      | Some d \<Rightarrow> d)\<rparr>"

definition estimatePreVerificationGas ::
  "gas_lib \<Rightarrow> gas_config \<Rightarrow> user_operation \<Rightarrow> int option \<Rightarrow> string option \<Rightarrow> gas_options \<Rightarrow> exn + rat" where
  "estimatePreVerificationGas lib gasConfig userOp pvg sig gasOptions =
     calculate lib gasConfig (fillUserOpWithDummyData lib gasConfig userOp pvg sig) gasOptions"

definition calculatePreVerificationGas ::
  "gas_lib \<Rightarrow> gas_config \<Rightarrow> user_operation \<Rightarrow> gas_options \<Rightarrow> exn + rat" where
  "calculatePreVerificationGas lib gasConfig userOp gasOptions = calculate lib gasConfig userOp gasOptions"

definition validatePreVerificationGas ::
  "gas_lib \<Rightarrow> gas_config \<Rightarrow> user_operation \<Rightarrow> gas_options \<Rightarrow> exn + bool \<times> rat" where
  "validatePreVerificationGas lib gasConfig userOp gasOptions =
     bindX (calculate lib gasConfig userOp gasOptions)
       (\<lambda>minRequired. Inr (minRequired \<le> of_int (Number_of (preVerificationGas userOp)), minRequired))"

section \<open>The mainnet configuration\<close>

text \<open>On mainnet every intermediate value is a multiple of one half, so nothing is rounded.\<close>

definition tokens :: "nat list \<Rightarrow> int" where
  "tokens bytes = sum_list (map (\<lambda>x. if x = 0 then 1 else 4) bytes)"

definition words :: "nat list \<Rightarrow> int" where
  "words bytes = int ((length bytes + 31) div 32)"

lemma tokens_simps [simp]:
  "tokens [] = 0" "tokens (x # xs) = (if x = 0 then 1 else 4) + tokens xs"
  by (simp_all add: tokens_def)

lemma tokens_bounds: "0 \<le> tokens bytes \<and> tokens bytes \<le> 4 * int (length bytes)"
  by (induction bytes) auto

lemma fl_half: "\<bar>m\<bar> < 2 ^ 53 \<Longrightarrow> fl (of_int m / 2) = of_int m / 2"
  using fl_exact [of "of_int m / 2" m 1] by simp

lemma foldl_fl_exact:
  assumes "0 \<le> i" and "i + 4 * int (length xs) < 2 ^ 53"
  shows "foldl (\<lambda>s x. fl (s + x)) (of_int i) (map (\<lambda>x. if x = 0 then 1 else 4) xs) = of_int (i + tokens xs)"
  using assms
proof (induction xs arbitrary: i)
  case (Cons x xs)
  let ?t = "if x = 0 then 1 else 4 :: int"
  have "fl (of_int i + (if x = 0 then 1 else 4)) = of_int (i + ?t)"
    using Cons.prems fl_int [of "i + ?t"] by auto
  then show ?case using Cons.IH [of "i + ?t"] Cons.prems by (simp add: add.assoc split: if_splits)
qed simp

lemma countTokens_mainnet:
  assumes "bytes \<noteq> []" and "length bytes < 2 ^ 40"
  shows "countTokens MAINNET_CONFIG bytes = Inr (of_int (tokens bytes))"
proof -
  have one: "to_uint8 1 = 1" "to_uint8 4 = 4" by (simp_all add: to_uint8_def)
  obtain x xs where bytes: "bytes = x # xs" using assms(1) by (cases bytes) auto
  have "to_uint8 (if x = 0 then 1 else 4) = (if x = 0 then 1 else 4)" for x :: nat
    by (simp add: one)
  then have m: "map (\<lambda>x. to_uint8 (if x = (0::nat) then 1 else 4)) bytes
      = of_int (if x = 0 then 1 else 4) # map (\<lambda>x. if x = 0 then 1 else 4) xs"
    by (simp add: bytes)
  have "int (length xs) < 2 ^ 40" using assms(2) bytes by simp
  then have "foldl (\<lambda>s x. fl (s + x)) (of_int (if x = 0 then 1 else 4))
      (map (\<lambda>x. if x = 0 then 1 else 4) xs) = of_int (tokens bytes)"
    using foldl_fl_exact [of "if x = 0 then 1 else 4" xs] by (simp add: bytes)
  moreover have "gc_tokensPerNonzeroByte MAINNET_CONFIG = 4" by (simp add: MAINNET_CONFIG_def)
  ultimately show ?thesis by (simp only: countTokens_def m list.case)
qed

lemma ceil_words:
  assumes "length bytes < 2 ^ 40"
  shows "Math_ceil (fl (of_nat (length bytes) / 32)) = of_int (words bytes)"
proof -
  let ?n = "length bytes"
  have "int ?n < 2 ^ 40" using assms by simp
  then have "fl (of_int (int ?n) / 2 ^ 5) = of_int (int ?n) / 2 ^ 5"
    by (intro fl_exact [OF refl]) simp
  then have f: "fl (of_nat ?n / 32) = of_nat ?n / 32" by simp
  have "\<lceil>(of_nat ?n :: rat) / 32\<rceil> = - (- int ?n div 32)"
    using ceiling_divide_eq_div [of "int ?n" 32, where 'a = rat] by simp
  also have "\<dots> = words bytes" unfolding words_def by (simp add: zdiv_int)
  finally show ?thesis by (simp add: Math_ceil_def f)
qed

text \<open>The calculation as an integer formula; the word overhead of 9.5 is rounded half up.\<close>

definition mainnet_formula :: "int \<Rightarrow> int \<Rightarrow> int \<Rightarrow> int \<Rightarrow> int" where
  "mainnet_formula tok w auth used =
     21000 + max ((8 * tok + 19 * w + 2 * (9830 + 7260 + auth + used) + 1) div 2) (10 * tok) - used"

lemma Math_round_half: "Math_round (of_int m / 2) = of_int ((m + 1) div 2)"
proof -
  have "\<lfloor>(of_int m :: rat) / 2 + 1 / 2\<rfloor> = \<lfloor>(of_int (m + 1) :: rat) / of_int 2\<rfloor>"
    by (simp add: add_divide_distrib)
  also have "\<dots> = (m + 1) div 2" by (rule floor_divide_of_int_eq)
  finally show ?thesis by (simp add: Math_round_def)
qed

lemma cost_mainnet:
  assumes "0 \<le> tok" "tok < 2 ^ 43" "0 \<le> h" "h < 2 ^ 52"
  shows "eip7623transactionGasCost MAINNET_CONFIG 21000 (of_int tok) (of_int h / 2)
    = of_int (21000 + max ((8 * tok + h + 1) div 2) (10 * tok))"
proof -
  have a: "fl (4 * of_int tok) = 4 * of_int tok" "fl (10 * of_int tok) = 10 * of_int tok"
    using fl_int [of "4 * tok"] fl_int [of "10 * tok"] assms(1,2) by simp_all
  have b: "fl (4 * of_int tok + of_int h / 2) = of_int (8 * tok + h) / 2"
    using fl_half [of "8 * tok + h"] assms by (simp add: field_simps)
  let ?m = "max (8 * tok + h) (20 * tok)"
  have mx: "max (of_int (8 * tok + h) / 2) (10 * of_int tok) = of_int ?m / (2::rat)"
    by (auto simp: max_def field_simps simp flip: of_int_mult of_int_add of_int_le_iff)
  have c: "fl (21000 + of_int ?m / 2) = of_int (42000 + ?m) / 2"
    using fl_half [of "42000 + ?m"] assms by (auto simp: field_simps)
  have d: "(42000 + ?m + 1) div 2 = 21000 + max ((8 * tok + h + 1) div 2) (10 * tok)"
    by (auto simp: max_def)
  show ?thesis
    unfolding eip7623transactionGasCost_def
    by (simp add: MAINNET_CONFIG_def a b mx c Math_round_half d del: of_int_add of_int_max)
qed

definition authGas :: "user_operation \<Rightarrow> int" where
  "authGas op = (if eip7702Auth op = None then 0 else 25000)"

definition opGasUsed :: "user_operation \<Rightarrow> int" where
  "opGasUsed op = (callGasLimit op + nullish_or (paymasterPostOpGasLimit op) 0) div 10"

lemma words_bounds: "length bytes < 2 ^ 40 \<Longrightarrow> 0 \<le> words bytes \<and> words bytes < 2 ^ 40"
  unfolding words_def by simp

lemma specific_mainnet:
  assumes "length cd < 2 ^ 40" and "take 4 cd \<noteq> EXECUTE_USEROP_METHOD_SIG"
  shows "userOpSpecificOverhead MAINNET_CONFIG op cd wl = of_int (2 * (7260 + authGas op) + 19 * words cd) / 2"
proof -
  note w = words_bounds [OF assms(1)]
  have a: "fl (of_int (words cd) * 19 / 2) = of_int (19 * words cd) / 2"
    using fl_half [of "19 * words cd"] w by (simp add: mult.commute)
  have b: "fl (of_int (19 * words cd) / 2) = of_int (19 * words cd) / 2"
    using fl_half [of "19 * words cd"] w by simp
  have c: "(if eip7702Auth op = None then gc_perUserOpGasOverhead MAINNET_CONFIG
      else fl (gc_perUserOpGasOverhead MAINNET_CONFIG + gc_eip7702AuthGas MAINNET_CONFIG))
      = of_int (7260 + authGas op)"
    using fl_int [of 32260] by (simp add: MAINNET_CONFIG_def authGas_def)
  have d: "fl (of_int (7260 + authGas op) + of_int (19 * words cd) / 2)
      = of_int (2 * (7260 + authGas op) + 19 * words cd) / 2"
    using fl_half [of "2 * (7260 + authGas op) + 19 * words cd"] w by (simp add: authGas_def field_simps)
  have e: "gc_perUserOpWordGasOverhead MAINNET_CONFIG = 19 / 2" by (simp add: MAINNET_CONFIG_def)
  show ?thesis
    using assms(2) unfolding userOpSpecificOverhead_def Let_def c ceil_words [OF assms(1)] e
    by (simp add: a b d del: of_int_add of_int_mult)
qed

lemma used_mainnet:
  assumes "0 \<le> callGasLimit op" and "0 \<le> nullish_or (paymasterPostOpGasLimit op) 0" and "opGasUsed op < 2 ^ 50"
  shows "getUserOpGasUsed op no_options = Inr (opGasUsed op)" "0 \<le> opGasUsed op"
proof -
  show "0 \<le> opGasUsed op" using assms(1,2) by (simp add: opGasUsed_def)
  then show "getUserOpGasUsed op no_options = Inr (opGasUsed op)"
    using assms by (simp add: getUserOpGasUsed_def no_options_def bigint_div_def nullish_or_def [of None]
        flip: opGasUsed_def) (simp add: Number_of_exact)
qed

lemma mainnet_calculation:
  assumes "encodeUserOp (gl_hex lib) (gl_abi lib) (Unpacked op) False = Inr enc"
    and "gl_getBytes lib enc = Inr bytes" and "bytes \<noteq> []" and "length bytes < 2 ^ 40"
    and "gl_getBytes lib (callData op) = Inr cd" and "length cd < 2 ^ 40"
    and "take 4 cd \<noteq> EXECUTE_USEROP_METHOD_SIG"
    and "0 \<le> callGasLimit op" and "0 \<le> nullish_or (paymasterPostOpGasLimit op) 0"
    and "opGasUsed op < 2 ^ 50"
  defines "required \<equiv> mainnet_formula (tokens bytes) (words cd) (authGas op) (opGasUsed op)"
  shows "calculate lib MAINNET_CONFIG op no_options = Inr (of_int required)"
proof -
  note used = used_mainnet [OF assms(8-10)] and w = words_bounds [OF assms(6)]
  have t: "0 \<le> tokens bytes" "tokens bytes < 2 ^ 43" using tokens_bounds [of bytes] assms(4) by simp_all
  define sp where "sp = 2 * (7260 + authGas op) + 19 * words cd"
  define h where "h = 19660 + sp + 2 * opGasUsed op"
  have sp: "0 \<le> sp" "sp < 2 ^ 46" using w by (simp_all add: sp_def authGas_def)
  have h: "0 \<le> h" "h < 2 ^ 52" using sp used assms(10) by (simp_all add: h_def)
  have f1: "fl (9830 + of_int sp / 2) = of_int (19660 + sp) / 2"
    using fl_half [of "19660 + sp"] sp by (simp add: field_simps)
  have f2: "fl (of_int (19660 + sp) / 2 + of_int (opGasUsed op)) = of_int h / 2"
    using fl_half [of h] h by (simp add: h_def field_simps)
  let ?c = "21000 + max ((8 * tokens bytes + h + 1) div 2) (10 * tokens bytes)"
  have c: "?c - opGasUsed op = required"
    by (simp add: required_def mainnet_formula_def h_def sp_def algebra_simps)
  have small: "\<bar>?c - opGasUsed op\<bar> < 2 ^ 53" using t h used assms(10) by auto
  have share: "fl (gc_fixedGasOverhead MAINNET_CONFIG / gc_expectedBundleSize MAINNET_CONFIG) = 9830"
    "fl (gc_transactionGasStipend MAINNET_CONFIG / gc_expectedBundleSize MAINNET_CONFIG) = 21000"
    "gc_useEip7623 MAINNET_CONFIG"
    using fl_int [of 9830] fl_int [of 21000] by (simp_all add: MAINNET_CONFIG_def)
  have "fl (of_int ?c - of_int (opGasUsed op)) = of_int (?c - opGasUsed op)"
    using fl_int [OF small] by simp
  then show ?thesis
    by (simp add: calculate_def assms(1,2,5) countTokens_mainnet [OF assms(3,4)] share used(1)
        specific_mainnet [OF assms(6,7), of op, folded sp_def] f1 f2 cost_mainnet [OF t h] c
        del: of_int_add of_int_diff of_int_max)
qed


text \<open>A library whose encoder returns two bytes and whose byte strings are read back.\<close>

definition demo_gas_lib :: gas_lib where
  "demo_gas_lib = \<lparr>gl_getBytes = (\<lambda>s. Inr (if s = ''0x0001'' then [0, 1] else [])),
     gl_hexlifyBytes = (\<lambda>_. ''0x''), gl_hex = hex_reference,
     gl_abi = \<lparr>al_encode = (\<lambda>_ _. Inr ''0x0001''), al_keccak256 = Inr\<rparr>\<rparr>"

lemma demo_gas_facts:
  assumes "op = demo_op a 0 None 1 \<or> op = demo_op a 0 None 5"
  shows "encodeUserOp (gl_hex demo_gas_lib) (gl_abi demo_gas_lib) (Unpacked op) False = Inr ''0x0001''"
    "gl_getBytes demo_gas_lib ''0x0001'' = Inr [0, 1]" "gl_getBytes demo_gas_lib (callData op) = Inr []"
    "opGasUsed op = 0" "authGas op = 0" "callGasLimit op = 1" "preVerificationGas op = 0"
    "paymasterPostOpGasLimit op = None" "mainnet_formula (tokens [0, 1]) (words []) 0 0 = 38110"
proof -
  have u: "uint128 0" "uint128 1" "uint128 5" by (simp_all add: uint128_def)
  show "encodeUserOp (gl_hex demo_gas_lib) (gl_abi demo_gas_lib) (Unpacked op) False = Inr ''0x0001''"
    using assms packUint_ok [OF reference.ethers_hex_axioms u(1,2)]
      packUint_ok [OF reference.ethers_hex_axioms u(2,2)] packUint_ok [OF reference.ethers_hex_axioms u(3,3)]
    by (auto simp: encodeUserOp_def encodePacked_def demo_gas_lib_def packUserOp_def
        packPaymasterAndData_def packInitCode_def demo_op_def)
  show "mainnet_formula (tokens [0, 1]) (words []) 0 0 = 38110" by code_simp
qed (use assms in \<open>auto simp: demo_gas_lib_def demo_op_def opGasUsed_def authGas_def nullish_or_def\<close>)

lemma demo_gas: "calculatePreVerificationGas demo_gas_lib MAINNET_CONFIG (demo_op a 0 None 1) no_options = Inr 38110"
  using mainnet_calculation [of demo_gas_lib "demo_op a 0 None 1" "''0x0001''" "[0, 1]" "[]"]
    demo_gas_facts [of "demo_op a 0 None 1" a]
  by (simp add: nullish_or_def EXECUTE_USEROP_METHOD_SIG_def calculatePreVerificationGas_def)


end
