(* ===== verification/Erc7562_Types.thy ===== *)
theory Erc7562_Types
  imports Bundler_Types
begin

text \<open>
  The data of the ERC-7562 trace parser: \<open>src/types/erc-7562.types.ts\<close>, the opcode tables of
  \<open>src/sim/evm-opcodes.ts\<close> and \<open>src/sim/erc7562-banned-opcodes.ts\<close>, and the state of the parser
  (\<open>src/sim/erc7562-parser.ts\<close>).

  A call frame of the tracer is a tree. Fields nobody reads (\<open>gas\<close>, \<open>gasUsed\<close>, \<open>error\<close>) are
  left out. The keys of \<open>usedOpcodes\<close> and of the other dictionaries stand in the order in which
  \<open>Object.keys\<close> lists them.
\<close>

section \<open>Call frames\<close>

datatype call_frame_type = CALL | DELEGATECALL | CALLCODE | STATICCALL | CREATE | CREATE2

fun frame_type_str :: "call_frame_type \<Rightarrow> string" where
  "frame_type_str CALL = ''CALL''"
| "frame_type_str DELEGATECALL = ''DELEGATECALL''"
| "frame_type_str CALLCODE = ''CALLCODE''"
| "frame_type_str STATICCALL = ''STATICCALL''"
| "frame_type_str CREATE = ''CREATE''"
| "frame_type_str CREATE2 = ''CREATE2''"

record contract_size =
  cs_contractSize :: int
  cs_opcode :: int

record accessed_slots =
  as_reads :: "string list js_object option"
  as_transientReads :: "js js_object option"
  as_transientWrites :: "js js_object option"
  as_writes :: "int js_object option"

datatype erc7562_call = ERC7562Call
  (accessedSlots: accessed_slots)
  (contractSize: "contract_size js_object")
  (extCodeAccessInfo: "string list")
  (c_from: string)
  (c_input: "string option")
  (outOfGas: bool)
  (c_output: "string option")
  (c_to: string)
  (c_type: call_frame_type)
  (usedOpcodes: "int js_object")
  (c_value: "string option")
  (c_keccak: "string list option")
  (c_calls: "erc7562_call list option")

text \<open>\<open>call.calls ?? []\<close>\<close>

definition subcalls :: "erc7562_call \<Rightarrow> erc7562_call list" where
  "subcalls c = (case c_calls c of None \<Rightarrow> [] | Some cs \<Rightarrow> cs)"

lemma subcall_size [termination_simp]: "d \<in> set (subcalls c) \<Longrightarrow> size d < size c"
proof -
  have "size d \<le> size_list size cs" if "d \<in> set cs" for cs
    using that by (rule size_list_estimation') simp
  then show "d \<in> set (subcalls c) \<Longrightarrow> size d < size c"
    by (cases c) (force simp: subcalls_def split: option.splits)
qed

text \<open>The number of frames of a call tree.\<close>

function frames :: "erc7562_call \<Rightarrow> nat" where
  "frames c = Suc (sum_list (map frames (subcalls c)))"
  by pat_completeness auto
termination by (relation "measure size") (auto intro: subcall_size)

declare frames.simps [simp del]

lemma frames_pos [simp]: "0 < frames c"
  by (simp add: frames.simps)

section \<open>Rules, entities and violations\<close>

datatype erc7562_rule = op011 | op012 | op013 | op020 | op031 | op041 | op042 | op051 | op052
  | op053 | op054 | op061 | op062 | op070 | op080 | cod010 | sto010 | sto021 | sto022 | sto031
  | sto032 | sto033 | sto040 | sto041 | grep010 | grep020 | grep040 | grep050 | srep010 | srep040
  | erep010 | erep015 | erep020 | erep030 | erep040 | erep050

datatype aa_entity = E_account | E_paymaster | E_factory | E_aggregator | E_senderCreator
  | E_entryPoint | E_nativeEntryPoint | E_nativeNonceManager | E_none

fun entity_str :: "aa_entity \<Rightarrow> string" where
  "entity_str E_account = ''account''"
| "entity_str E_paymaster = ''paymaster''"
| "entity_str E_factory = ''factory''"
| "entity_str E_aggregator = ''aggregator''"
| "entity_str E_senderCreator = ''SenderCreator''"
| "entity_str E_entryPoint = ''EntryPoint''"
| "entity_str E_nativeEntryPoint = ''NativeEntryPoint''"
| "entity_str E_nativeNonceManager = ''NativeNonceManager''"
| "entity_str E_none = ''none''"

record erc7562_violation =
  vi_rule :: erc7562_rule
  vi_depth :: nat
  vi_entity :: aa_entity
  vi_address :: string
  vi_delegatecallStorageAddress :: string
  vi_errorCode :: int
  vi_description :: string
  vi_callFrameType :: call_frame_type
  vi_opcode :: "string option"
  vi_value :: "string option"

section \<open>Opcodes\<close>

definition EVMOpcodes :: "(string \<times> int) list" where
  "EVMOpcodes = [(''ADDRESS'', 0x30), (''BALANCE'', 0x31), (''ORIGIN'', 0x32), (''GASPRICE'', 0x3a),
    (''BLOCKHASH'', 0x40), (''COINBASE'', 0x41), (''TIMESTAMP'', 0x42), (''NUMBER'', 0x43),
    (''DIFFICULTY'', 0x44), (''GASLIMIT'', 0x45), (''SELFBALANCE'', 0x47), (''BASEFEE'', 0x48),
    (''BLOBHASH'', 0x49), (''BLOBBASEFEE'', 0x4a), (''GAS'', 0x5a), (''CREATE'', 0xf0),
    (''SELFDESTRUCT'', 0xff), (''EXTCODESIZE'', 0x3b), (''EXTCODECOPY'', 0x3c),
    (''EXTCODEHASH'', 0x3f), (''CHAINID'', 0x46), (''MLOAD'', 0x51), (''MSTORE'', 0x52),
    (''MSTORE8'', 0x53), (''SLOAD'', 0x54), (''SSTORE'', 0x55), (''JUMPDEST'', 0x5b),
    (''TLOAD'', 0x5c), (''TSTORE'', 0x5d), (''MCOPY'', 0x5e), (''PUSH0'', 0x5f), (''CALL'', 0xf1),
    (''RETURN'', 0xf3), (''DELEGATECALL'', 0xf4), (''CREATE2'', 0xf5), (''STATICCALL'', 0xfa),
    (''REVERT'', 0xfd), (''INVALID'', 0xfe)]"

text \<open>\<open>getOpcodeName(value)\<close>; no opcode equals \<open>NaN\<close>.\<close>

definition getOpcodeName :: "int option \<Rightarrow> string option" where
  "getOpcodeName v =
     (case v of None \<Rightarrow> None | Some i \<Rightarrow> map_option fst (List.find (\<lambda>(_, w). w = i) EVMOpcodes))"

definition bannedOpCodes :: "string list" where
  "bannedOpCodes = [''BASEFEE'', ''BLOCKHASH'', ''COINBASE'', ''DIFFICULTY'', ''GAS'', ''GASLIMIT'',
     ''GASPRICE'', ''INVALID'', ''NUMBER'', ''ORIGIN'', ''PREVRANDAO'', ''RANDOM'',
     ''SELFDESTRUCT'', ''TIMESTAMP'', ''BLOBHASH'', ''BLOBBASEFEE'']"

definition opcodesOnlyInStakedEntities :: "string list" where
  "opcodesOnlyInStakedEntities = [''BALANCE'', ''SELFBALANCE'']"

section \<open>The state of the parser\<close>

text \<open>
  The fields of \<open>Erc7562ParserRunnerState\<close> that \<open>{...state}\<close> copies; the arrays and the storage
  map that all copies share by reference are the record \<open>parser_shared\<close>.
\<close>

record runner_state =
  rn_keccak :: "string list"
  rn_currentEntity :: aa_entity
  rn_currentEntityAddress :: string
  rn_delegatecallStorageAddress :: string
  rn_recursionDepth :: nat
  rn_validationResult :: validation_result
  rn_userOp :: user_operation
  rn_call :: erc7562_call

record parser_shared =
  ps_contractAddresses :: "string list"
  ps_storageMap :: storage_map
  ps_ruleViolations :: "erc7562_violation list"

text \<open>
  The functions of the package \<open>ethers\<close> the parser calls: \<open>zeroPadValue(x, 32)\<close>, \<open>hexlify\<close> of a
  string, \<open>keccak256\<close>, and the name of the function with a selector in the four interfaces.
\<close>

record parser_config =
  pc_entryPoint :: string
  pc_zeroPad32 :: "string \<Rightarrow> exn + string"
  pc_hexlify :: "string \<Rightarrow> exn + string"
  pc_keccak256 :: "string \<Rightarrow> exn + string"
  pc_methodName :: "string \<Rightarrow> string option"

end
