(* ===== verification/Erc7562_Checks.thy ===== *)
theory Erc7562_Checks
  imports Erc7562_Types
begin

text \<open>
  The helpers and the twelve checks of \<open>src/sim/erc7562-parser.ts\<close>. A check takes the state of a
  frame and the shared state and returns both, an \<open>RpcError\<close> as \<open>Left\<close>, or throws. A violation
  pushed onto \<open>ruleViolations\<close> before a \<open>Left\<close> is lost with it and is left out.
\<close>

type_synonym parsed = "(rpc_error, runner_state \<times> parser_shared) either_x"

definition CREATOR_ADDRESSES :: "string list" where
  "CREATOR_ADDRESSES = map toLowerCase [''0x3b3112c4376d037822decff3fe6cd30e1e726517'',
     ''0x449ED7C3e6Fee6a97311d4b55475DF59C44AdD33'']"

definition NORMALIZED_CREATORS :: "string list" where
  "NORMALIZED_CREATORS = map toLowerCase CREATOR_ADDRESSES"

definition isSenderCreator :: "string \<Rightarrow> bool" where
  "isSenderCreator addressToCheck \<longleftrightarrow> toLowerCase addressToCheck \<in> set NORMALIZED_CREATORS"

definition getSenderCreator :: "string \<Rightarrow> string option" where
  "getSenderCreator addressToCheck =
     map_option snd (List.find (\<lambda>(n, c). n = toLowerCase addressToCheck)
       (zip NORMALIZED_CREATORS CREATOR_ADDRESSES))"

definition ep_address :: "parser_config \<Rightarrow> string" where
  "ep_address cfg = toLowerCase (pc_entryPoint cfg)"

definition violation ::
  "runner_state \<Rightarrow> erc7562_rule \<Rightarrow> string \<Rightarrow> string option \<Rightarrow> string option \<Rightarrow> string \<Rightarrow>
   erc7562_violation" where
  "violation st rule adr opcode value description =
     \<lparr>vi_rule = rule, vi_depth = rn_recursionDepth st, vi_entity = rn_currentEntity st,
      vi_address = adr, vi_delegatecallStorageAddress = rn_delegatecallStorageAddress st,
      vi_errorCode = OpcodeValidation, vi_description = description,
      vi_callFrameType = c_type (rn_call st), vi_opcode = opcode, vi_value = value\<rparr>"

definition violationDetected :: "erc7562_violation \<Rightarrow> parsed" where
  "violationDetected v = LeftX (RpcError (vi_description v) (vi_errorCode v))"

section \<open>Entities\<close>

definition sameAddress :: "string option \<Rightarrow> string \<Rightarrow> bool" where
  "sameAddress a b \<longleftrightarrow> map_option toLowerCase a = Some (toLowerCase b)"

definition detectEntityChange :: "parser_config \<Rightarrow> runner_state \<times> parser_shared \<Rightarrow> parsed" where
  "detectEntityChange cfg = (\<lambda>(st, sh).
     let call = rn_call st; userOp = rn_userOp st; from = toLowerCase (c_from call);
         to = toLowerCase (c_to call);
         enter = (\<lambda>e a. RightX (st\<lparr>rn_currentEntity := e, rn_currentEntityAddress := a\<rparr>, sh))
     in if from \<noteq> ZeroAddress \<and> from \<noteq> ep_address cfg \<and> \<not> isSenderCreator from then RightX (st, sh)
        else if toLowerCase (sender userOp) = to then enter E_account (sender userOp)
        else if isSenderCreator from \<and> sameAddress (factory userOp) (c_to call)
          then enter E_factory (the (factory userOp))
        else if sameAddress (paymaster userOp) (c_to call)
          then enter E_paymaster (the (paymaster userOp))
        else if ep_address cfg = to then enter E_entryPoint (ep_address cfg)
        else if isSenderCreator to
          then enter E_senderCreator (case getSenderCreator to of None \<Rightarrow> [] | Some a \<Rightarrow> a)
        else LeftX (RpcError (''could not find entity name for address '' @ c_to call @
               ''. This should not happen. This is a bug.'') 0))"

definition isEntityStaked :: "aa_entity \<Rightarrow> validation_result \<Rightarrow> bool" where
  "isEntityStaked entity vr =
     (case (case entity of
              E_account \<Rightarrow> Some (vr_senderInfo vr)
            | E_factory \<Rightarrow> vr_factoryInfo vr
            | E_paymaster \<Rightarrow> vr_paymasterInfo vr
            | _ \<Rightarrow> None) of
        None \<Rightarrow> False
      | Some s \<Rightarrow> 1 \<le> si_stake s \<and> 1 \<le> si_unstakeDelaySec s)"

definition currentStaked :: "runner_state \<Rightarrow> bool" where
  "currentStaked st = isEntityStaked (rn_currentEntity st) (rn_validationResult st)"

definition factoryStaked :: "runner_state \<Rightarrow> bool" where
  "factoryStaked st = isEntityStaked E_factory (rn_validationResult st)"

text \<open>Comparisons with \<open>NaN\<close> are false.\<close>

definition isPrecompiled :: "string \<Rightarrow> bool" where
  "isPrecompiled adr = (case parseInt (Some 16) adr of None \<Rightarrow> False | Some i \<Rightarrow> i < 1000 \<and> i \<ge> 1)"

definition isForbiddenPrecompiled :: "string \<Rightarrow> bool" where
  "isForbiddenPrecompiled adr =
     (isPrecompiled adr \<and> (case parseInt (Some 16) adr of None \<Rightarrow> False | Some i \<Rightarrow> i > 9))"

definition isCallToEntryPoint :: "parser_config \<Rightarrow> erc7562_call \<Rightarrow> bool" where
  "isCallToEntryPoint cfg c \<longleftrightarrow> toLowerCase (c_to c) = toLowerCase (ep_address cfg) \<and>
     toLowerCase (c_from c) \<noteq> toLowerCase (ep_address cfg) \<and>
     toLowerCase (c_from c) \<noteq> toLowerCase ZeroAddress"

definition get4bytes :: "string \<Rightarrow> string" where
  "get4bytes input = take 10 input"

definition tryDetectKnownMethod :: "parser_config \<Rightarrow> erc7562_call \<Rightarrow> string" where
  "tryDetectKnownMethod cfg c =
     (case c_input c of
        None \<Rightarrow> ''<no-input>''
      | Some input \<Rightarrow>
          (case pc_methodName cfg (get4bytes input) of
             Some name \<Rightarrow> name | None \<Rightarrow> get4bytes input))"

definition tryGetAddressName :: "parser_config \<Rightarrow> user_operation \<Rightarrow> string \<Rightarrow> string" where
  "tryGetAddressName cfg userOp adr =
     (let a = toLowerCase adr in
      if a = toLowerCase (sender userOp) then entity_str E_account
      else if sameAddress (factory userOp) adr then entity_str E_factory
      else if sameAddress (paymaster userOp) adr then entity_str E_paymaster
      else if ep_address cfg = a then entity_str E_entryPoint
      else if isSenderCreator a then entity_str E_senderCreator
      else adr)"

section \<open>Opcode rules\<close>

text \<open>The names of the opcodes a frame used, in the order of the keys.\<close>

definition opcodeNames :: "erc7562_call \<Rightarrow> string list" where
  "opcodeNames c = map (\<lambda>k. case getOpcodeName (parseInt None k) of None \<Rightarrow> [] | Some n \<Rightarrow> n)
     (map fst (usedOpcodes c))"

definition checkOp011 :: "parser_config \<Rightarrow> runner_state \<times> parser_shared \<Rightarrow> parsed" where
  "checkOp011 cfg = (\<lambda>(st, sh).
     if toLowerCase (c_to (rn_call st)) = ep_address cfg then RightX (st, sh)
     else case filter (\<lambda>n. n \<in> set bannedOpCodes) (opcodeNames (rn_call st)) of
       [] \<Rightarrow> RightX (st, sh)
     | opcode # _ \<Rightarrow> violationDetected (violation st op011 (c_to (rn_call st)) (Some opcode) (Some ''0'')
         (entity_str (rn_currentEntity st) @ '' uses banned opcode: '' @ opcode)))"

definition checkOp020 :: "runner_state \<times> parser_shared \<Rightarrow> parsed" where
  "checkOp020 = (\<lambda>(st, sh).
     if outOfGas (rn_call st)
     then violationDetected (violation st op020 (c_from (rn_call st))
       (Some (frame_type_str (c_type (rn_call st)))) (Some ''0'')
       (entity_str (rn_currentEntity st) @ '' internally reverts on oog''))
     else RightX (st, sh))"

definition createAllowed :: "runner_state \<Rightarrow> bool" where
  "createAllowed st =
     (let call = rn_call st; userOp = rn_userOp st; e = rn_currentEntity st;
          from = toLowerCase (c_from call);
          isAllowedCreateByOP032 = factory userOp \<noteq> None \<and> c_type call = CREATE \<and>
            (e = E_account \<or> e = E_factory) \<and> from = toLowerCase (sender userOp);
          isAllowedCreateByEREP060 =
            (from = toLowerCase (sender userOp) \<or> sameAddress (factory userOp) (c_from call)) \<and>
            factoryStaked st;
          isAllowedCreateSenderByFactory = e = E_factory \<and>
            toLowerCase (c_to call) = toLowerCase (sender userOp)
      in isAllowedCreateByOP032 \<or> isAllowedCreateByEREP060 \<or> isAllowedCreateSenderByFactory)"

definition checkOp031 :: "runner_state \<times> parser_shared \<Rightarrow> parsed" where
  "checkOp031 = (\<lambda>(st, sh).
     if c_type (rn_call st) \<noteq> CREATE \<and> c_type (rn_call st) \<noteq> CREATE2 then RightX (st, sh)
     else if \<not> createAllowed st
     then violationDetected (violation st op011 (c_from (rn_call st)) (Some ''CREATE2'') (Some ''0'')
       (entity_str (rn_currentEntity st) @ '' uses banned opcode: CREATE2''))
     else RightX (st, sh))"

definition illegalZeroCode :: "parser_config \<Rightarrow> runner_state \<Rightarrow> string \<times> contract_size \<Rightarrow> bool" where
  "illegalZeroCode cfg st = (\<lambda>(adr, sz). \<not> isPrecompiled adr \<and>
     toLowerCase adr \<noteq> toLowerCase (sender (rn_userOp st)) \<and> toLowerCase adr \<noteq> ep_address cfg \<and>
     cs_contractSize sz \<le> 2)"

definition checkOp041 :: "parser_config \<Rightarrow> runner_state \<times> parser_shared \<Rightarrow> parsed" where
  "checkOp041 cfg = (\<lambda>(st, sh).
     case List.find (illegalZeroCode cfg st) (contractSize (rn_call st)) of
       None \<Rightarrow> RightX (st, sh)
     | Some (adr, sz) \<Rightarrow> violationDetected (violation st op041 adr None None
         (entity_str (rn_currentEntity st) @ '' accesses un-deployed contract address '' @ adr @
          '' with opcode '' @ int_str (cs_opcode sz))))"

definition checkOp054 :: "parser_config \<Rightarrow> runner_state \<times> parser_shared \<Rightarrow> parsed" where
  "checkOp054 cfg = (\<lambda>(st, sh).
     let knownMethod = tryDetectKnownMethod cfg (rn_call st);
         isEntryPointCallAllowedRIP7560 = knownMethod = ''acceptAccount'' \<or>
           knownMethod = ''acceptPaymaster'' \<or> knownMethod = ''sigFailAccount'' \<or>
           knownMethod = ''sigFailPaymaster'';
         isEntryPointCallAllowedOP052 = knownMethod = ''depositTo'';
         isEntryPointCallAllowedOP053 = knownMethod = ''0x'';
         isEntryPointCallAllowed = isEntryPointCallAllowedOP052 \<or> isEntryPointCallAllowedOP053 \<or>
           isEntryPointCallAllowedRIP7560
     in if isCallToEntryPoint cfg (rn_call st) \<and> \<not> isEntryPointCallAllowed
        then violationDetected (violation st op054 (c_from (rn_call st))
          (Some (frame_type_str (c_type (rn_call st)))) (c_value (rn_call st))
          (''illegal call into EntryPoint during validation '' @ knownMethod))
        else RightX (st, sh))"

definition checkOp054ExtCode :: "parser_config \<Rightarrow> runner_state \<times> parser_shared \<Rightarrow> parsed" where
  "checkOp054ExtCode cfg = (\<lambda>(st, sh).
     case List.find (\<lambda>adr. toLowerCase adr = ep_address cfg) (extCodeAccessInfo (rn_call st)) of
       None \<Rightarrow> RightX (st, sh)
     | Some _ \<Rightarrow> violationDetected (violation st op054 (c_to (rn_call st)) None None
         (entity_str (rn_currentEntity st) @ '' accesses EntryPoint contract address '' @
          ep_address cfg @ '' with EXTCODE* opcode'')))"

definition checkOp061 :: "parser_config \<Rightarrow> runner_state \<times> parser_shared \<Rightarrow> parsed" where
  "checkOp061 cfg = (\<lambda>(st, sh).
     if isCallToEntryPoint cfg (rn_call st) then RightX (st, sh)
     else bindX (case c_value (rn_call st) of None \<Rightarrow> Inr 0 | Some v \<Rightarrow> BigInt_x v)
       (\<lambda>v. if \<not> v = 0
            then violationDetected (violation st op061 (c_from (rn_call st))
              (Some (frame_type_str (c_type (rn_call st)))) (c_value (rn_call st))
              ''May not make a CALL with value'')
            else RightX (st, sh)))"

definition checkOp062AllowedPrecompiles :: "runner_state \<times> parser_shared \<Rightarrow> parsed" where
  "checkOp062AllowedPrecompiles = (\<lambda>(st, sh).
     case List.find isForbiddenPrecompiled (map fst (contractSize (rn_call st))) of
       None \<Rightarrow> RightX (st, sh)
     | Some adr \<Rightarrow> violationDetected (violation st op062 (c_from (rn_call st))
         (Some (frame_type_str (c_type (rn_call st)))) (c_value (rn_call st))
         (''Illegal call to forbidden precompile '' @ adr)))"

definition checkOp080 :: "runner_state \<times> parser_shared \<Rightarrow> parsed" where
  "checkOp080 = (\<lambda>(st, sh).
     case filter (\<lambda>n. n \<in> set opcodesOnlyInStakedEntities \<and> \<not> currentStaked st)
            (opcodeNames (rn_call st)) of
       [] \<Rightarrow> RightX (st, sh)
     | opcode # _ \<Rightarrow> violationDetected (violation st op011 (c_from (rn_call st)) (Some opcode) (Some ''0'')
         (''unstaked '' @ entity_str (rn_currentEntity st) @ '' uses banned opcode: '' @ opcode)))"

definition checkErep050 :: "runner_state \<times> parser_shared \<Rightarrow> parsed" where
  "checkErep050 = (\<lambda>(st, sh).
     let vr = rn_validationResult st;
         isUnstakedPaymaster = rn_currentEntity st = E_paymaster \<and> \<not> currentStaked st;
         context = (if vr_paymasterInfo vr = None then None else vr_paymasterContext vr)
     in if isUnstakedPaymaster \<and> context \<noteq> None \<and> context \<noteq> Some ''0x''
        then violationDetected (violation st erep050 (c_from (rn_call st)) None (Some ''0'')
          ''unstaked paymaster returned a context'')
        else RightX (st, sh))"

section \<open>Storage rules\<close>

text \<open>\<open>toBytes32\<close> of \<open>src/utils/common.utils.ts\<close>.\<close>

definition toBytes32 :: "parser_config \<Rightarrow> string \<Rightarrow> exn + string" where
  "toBytes32 cfg b = bindX (pc_hexlify cfg b) (\<lambda>h. pc_zeroPad32 cfg (toLowerCase h))"

type_synonym entity_slots = "string list js_object"

text \<open>A \<open>Set\<close> keeps the order of first insertion.\<close>

definition addSlot :: "string \<Rightarrow> string \<Rightarrow> entity_slots \<Rightarrow> entity_slots" where
  "addSlot adr slot m =
     (let old = (case map_of m adr of None \<Rightarrow> [] | Some ks \<Rightarrow> ks)
      in AList.update adr (if slot \<in> set old then old else old @ [slot]) m)"

text \<open>One keccak input against one entity address.\<close>

definition entitySlot ::
  "parser_config \<Rightarrow> string \<Rightarrow> string option \<Rightarrow> entity_slots \<Rightarrow> exn + entity_slots" where
  "entitySlot cfg keccakInput entityAddress m =
     (case entityAddress of
        None \<Rightarrow> Inr m
      | Some a \<Rightarrow> bindX (toBytes32 cfg a)
          (\<lambda>addrPadded. if take (length addrPadded) keccakInput = addrPadded
             then bindX (pc_keccak256 cfg keccakInput) (\<lambda>slot. Inr (addSlot a slot m))
             else Inr m))"

fun foldX :: "('a \<Rightarrow> 'b \<Rightarrow> exn + 'b) \<Rightarrow> 'a list \<Rightarrow> 'b \<Rightarrow> exn + 'b" where
  "foldX f [] b = Inr b"
| "foldX f (x # xs) b = bindX (f x b) (foldX f xs)"

definition parseEntitySlots :: "parser_config \<Rightarrow> user_operation \<Rightarrow> string list \<Rightarrow> exn + entity_slots" where
  "parseEntitySlots cfg userOp keccak =
     (let entityAddresses = [Some (toLowerCase (sender userOp)),
            map_option toLowerCase (paymaster userOp), map_option toLowerCase (factory userOp)]
      in foldX (\<lambda>keccakInput. foldX (entitySlot cfg keccakInput) entityAddresses) keccak [])"

fun inSomeStructure :: "int \<Rightarrow> string list \<Rightarrow> exn + bool" where
  "inSomeStructure slotN [] = Inr False"
| "inSomeStructure slotN (k1 # ks) =
     bindX (BigInt_x k1) (\<lambda>kn. if slotN \<ge> kn \<and> slotN < kn + 128 then Inr True
       else inSomeStructure slotN ks)"

definition associatedWith ::
  "parser_config \<Rightarrow> string \<Rightarrow> string \<Rightarrow> entity_slots \<Rightarrow> exn + bool" where
  "associatedWith cfg slot addr entitySlots =
     bindX (pc_zeroPad32 cfg addr)
       (\<lambda>p. if slot = toLowerCase p then Inr True
            else case map_of entitySlots addr of
              None \<Rightarrow> Inr False
            | Some k \<Rightarrow> bindX (BigInt_x slot) (\<lambda>slotN. inSomeStructure slotN k))"

definition keysOf :: "'v js_object option \<Rightarrow> string list" where
  "keysOf d = (case d of None \<Rightarrow> [] | Some fs \<Rightarrow> map fst fs)"

definition allSlots :: "erc7562_call \<Rightarrow> string list" where
  "allSlots c = (let a = accessedSlots c in
     keysOf (as_writes a) @ keysOf (as_reads a) @ keysOf (as_transientWrites a) @
     keysOf (as_transientReads a))"

text \<open>\<open>writes?.[slot] == null && transientWrites?.[slot] == null\<close>\<close>

definition isReadOnlyAccess :: "erc7562_call \<Rightarrow> string \<Rightarrow> bool" where
  "isReadOnlyAccess c slot =
     ((case as_writes (accessedSlots c) of None \<Rightarrow> True | Some fs \<Rightarrow> map_of fs slot = None) \<and>
      (case as_transientWrites (accessedSlots c) of
         None \<Rightarrow> True
       | Some fs \<Rightarrow> (case map_of fs slot of None \<Rightarrow> True | Some v \<Rightarrow> v = Undefined \<or> v = Null)))"

definition addStorage :: "string \<Rightarrow> string \<Rightarrow> storage_map \<Rightarrow> storage_map" where
  "addStorage adr slot m =
     (case map_of m adr of
        Some (Slots vs) \<Rightarrow> AList.update adr (Slots (AList.update slot [] vs)) m
      | Some (RootHash r) \<Rightarrow> m
      | None \<Rightarrow> AList.update adr (Slots [(slot, [])]) m)"

text \<open>What decides on one slot, given the two associations, which are computed for every slot.\<close>

definition slotAllowed :: "runner_state \<Rightarrow> bool \<Rightarrow> bool \<Rightarrow> string \<Rightarrow> bool" where
  "slotAllowed st isSenderAssociated isEntityAssociated slot =
     (let call = rn_call st; userOp = rn_userOp st; adr = c_to call;
          isSenderInternalSTO010 = toLowerCase adr = toLowerCase (sender userOp);
          isEntityInternalSTO031 = toLowerCase adr = toLowerCase (rn_currentEntityAddress st);
          isAllowedIfEntityStaked = isEntityInternalSTO031 \<or> isEntityAssociated \<or>
            isReadOnlyAccess call slot;
          isSenderCreation = factory userOp \<noteq> None
      in isSenderInternalSTO010 \<or> (isSenderAssociated \<and> \<not> isSenderCreation) \<or>
         (isSenderAssociated \<and> isSenderCreation \<and> factoryStaked st) \<or>
         (isAllowedIfEntityStaked \<and> currentStaked st))"

definition slotDescription ::
  "parser_config \<Rightarrow> runner_state \<Rightarrow> bool \<Rightarrow> bool \<Rightarrow> string \<Rightarrow> string" where
  "slotDescription cfg st isSenderAssociated isEntityAssociated slot =
     (let call = rn_call st; a = accessedSlots call; e = entity_str (rn_currentEntity st);
          addressName = tryGetAddressName cfg (rn_userOp st) (c_to call);
          isAllowedIfEntityStaked =
            toLowerCase (c_to call) = toLowerCase (rn_currentEntityAddress st) \<or>
            isEntityAssociated \<or> isReadOnlyAccess call slot;
          isAllowedIfFactoryStaked = isSenderAssociated \<and> factory (rn_userOp st) \<noteq> None
      in if isAllowedIfEntityStaked \<and> \<not> currentStaked st \<or>
            isAllowedIfFactoryStaked \<and> \<not> factoryStaked st
         then ''unstaked '' @ e @ '' accessed '' @ addressName @ '' slot '' @ slot
         else e @ '' has forbidden '' @
           (if slot \<in> set (keysOf (as_writes a)) \<or> slot \<in> set (keysOf (as_transientWrites a))
            then ''write to'' else ''read from'') @ '' '' @
           (if slot \<in> set (keysOf (as_transientReads a)) \<or> slot \<in> set (keysOf (as_transientWrites a))
            then ''transient '' else []) @ addressName @ '' slot '' @ slot)"

fun checkSlots ::
  "parser_config \<Rightarrow> entity_slots \<Rightarrow> string list \<Rightarrow> runner_state \<times> parser_shared \<Rightarrow> parsed" where
  "checkSlots cfg entitySlots [] (st, sh) = RightX (st, sh)"
| "checkSlots cfg entitySlots (slot # slots) (st, sh) =
     (let adr = c_to (rn_call st);
          sh' = sh\<lparr>ps_storageMap := addStorage adr slot (ps_storageMap sh)\<rparr>
      in bindX (associatedWith cfg slot (toLowerCase (sender (rn_userOp st))) entitySlots)
        (\<lambda>isSenderAssociated.
          bindX (associatedWith cfg slot (toLowerCase (rn_currentEntityAddress st)) entitySlots)
        (\<lambda>isEntityAssociated.
          if \<not> slotAllowed st isSenderAssociated isEntityAssociated slot
          then violationDetected (violation st sto010 adr None None
                 (slotDescription cfg st isSenderAssociated isEntityAssociated slot))
          else checkSlots cfg entitySlots slots (st, sh'))))"

definition checkStorage :: "parser_config \<Rightarrow> runner_state \<times> parser_shared \<Rightarrow> parsed" where
  "checkStorage cfg = (\<lambda>(st, sh).
     if toLowerCase (c_to (rn_call st)) = ep_address cfg then RightX (st, sh)
     else bindX (parseEntitySlots cfg (rn_userOp st) (rn_keccak st))
       (\<lambda>entitySlots. checkSlots cfg entitySlots (allSlots (rn_call st)) (st, sh)))"

end
