(* ===== verification/Erc7562_Parser.thy ===== *)
theory Erc7562_Parser
  imports Erc7562_Checks UserOp_Utils
begin

text \<open>
  The trace parser of \<open>src/sim/erc7562-parser.ts\<close>: one frame's chain of checks, the loop over an
  explicit stack, and \<open>parseTracerResult\<close>. The loop is shown to check the frames of the call
  tree in the order of a recursive traversal, and acceptance to mean that every frame reached
  obeys every rule.
\<close>

section \<open>The runner\<close>

definition ruleChecks :: "parser_config \<Rightarrow> (runner_state \<times> parser_shared \<Rightarrow> parsed) list" where
  "ruleChecks cfg = [checkOp011 cfg, checkOp020, checkOp031, checkOp041 cfg, checkOp054 cfg,
     checkOp054ExtCode cfg, checkOp061 cfg, checkOp062AllowedPrecompiles, checkOp080, checkErep050,
     checkStorage cfg]"

definition frameStep :: "parser_config \<Rightarrow> runner_state \<times> parser_shared \<Rightarrow> parsed" where
  "frameStep cfg x = foldl flatMapX (detectEntityChange cfg x) (ruleChecks cfg)"

text \<open>The frame that is skipped: an \<open>innerHandleOp\<close> that slipped into the trace.\<close>

definition isSelfCall :: "parser_config \<Rightarrow> erc7562_call \<Rightarrow> bool" where
  "isSelfCall cfg c \<longleftrightarrow> toLowerCase (c_to c) = ep_address cfg \<and> c_from c = ep_address cfg"

definition addAddress :: "runner_state \<Rightarrow> parser_shared \<Rightarrow> parser_shared" where
  "addAddress st sh =
     sh\<lparr>ps_contractAddresses := ps_contractAddresses sh @ [toLowerCase (c_to (rn_call st))]\<rparr>"

definition childState :: "runner_state \<Rightarrow> erc7562_call \<Rightarrow> runner_state" where
  "childState st call = st\<lparr>rn_call := call,
     rn_delegatecallStorageAddress :=
       (if c_type call = DELEGATECALL then rn_delegatecallStorageAddress st else c_to call),
     rn_recursionDepth := rn_recursionDepth st + 1\<rparr>"

text \<open>The subcalls are pushed one by one; the top of the stack is the head of the list.\<close>

definition pushCalls :: "runner_state \<Rightarrow> runner_state list \<Rightarrow> runner_state list" where
  "pushCalls st stack = rev (map (childState st) (subcalls (rn_call st))) @ stack"

section \<open>What a check can return\<close>

text \<open>
  Every check but the first hands on the frame's state, fails, or throws; storage access also
  records the slots.
\<close>

lemma passes_or_fails:
  assumes "c \<in> set (ruleChecks cfg)" and "c (st, sh) = RightX (st', sh')"
  shows "st' = st"
proof -
  have slots: "checkSlots cfg es slots (st, sh) = RightX (st', sh') \<Longrightarrow> st' = st" for es slots sh
    by (induction slots arbitrary: sh)
      (auto simp: Let_def violationDetected_def split: if_splits elim!: bindX_InrE)
  from assms show ?thesis
    by (auto simp: ruleChecks_def checkOp011_def checkOp020_def checkOp031_def checkOp041_def
        checkOp054_def checkOp054ExtCode_def checkOp061_def checkOp062AllowedPrecompiles_def
        checkOp080_def checkErep050_def checkStorage_def violationDetected_def Let_def
        split: if_splits list.splits option.splits elim!: bindX_InrE dest!: slots)
qed

definition entered :: "parser_config \<Rightarrow> runner_state \<Rightarrow> runner_state" where
  "entered cfg st =
     (case detectEntityChange cfg (st, \<lparr>ps_contractAddresses = [], ps_storageMap = [],
              ps_ruleViolations = []\<rparr>) of
        Inr (Right (st', _)) \<Rightarrow> st' | _ \<Rightarrow> st)"

lemma detect_shared:
  "detectEntityChange cfg (st, sh) = RightX (st', sh') \<longleftrightarrow>
   sh' = sh \<and> (\<exists>sh2. detectEntityChange cfg (st, \<lparr>ps_contractAddresses = [], ps_storageMap = [],
              ps_ruleViolations = []\<rparr>) = RightX (st', sh2))"
  by (auto simp: detectEntityChange_def Let_def split: if_splits)

lemma detect_entered: "detectEntityChange cfg (st, sh) = RightX (st', sh') \<Longrightarrow> st' = entered cfg st \<and> sh' = sh"
  by (subst (asm) detect_shared) (auto simp: entered_def)

lemma entered_call [simp]: "rn_call (entered cfg st) = rn_call st"
  by (auto simp: entered_def detectEntityChange_def Let_def split: sum.splits either.splits)

lemma frameStep_state:
  assumes "frameStep cfg (st, sh) = RightX (st', sh')"
  shows "st' = entered cfg st"
proof -
  from eitherx_chain.chain_success_start [OF assms [unfolded frameStep_def]]
  obtain x where x: "detectEntityChange cfg (st, sh) = RightX x" by blast
  then have "fst x = entered cfg st" by (cases x) (auto dest: detect_entered)
  from eitherx_chain.chain_invariant [where P = "\<lambda>x. fst x = entered cfg st",
      OF this assms [unfolded frameStep_def x]]
  show ?thesis using passes_or_fails by fastforce
qed

function runLoop ::
  "parser_config \<Rightarrow> runner_state list \<Rightarrow> runner_state \<Rightarrow> parser_shared \<Rightarrow> parsed" where
  "runLoop cfg [] result sh = RightX (result, sh)"
| "runLoop cfg (st # stack) result sh =
     (if isSelfCall cfg (rn_call st) then runLoop cfg stack result sh
      else case frameStep cfg (st, addAddress st sh) of
        Inl e \<Rightarrow> Inl e
      | Inr (Left e) \<Rightarrow> LeftX e
      | Inr (Right (st', sh')) \<Rightarrow> runLoop cfg (pushCalls st' stack) st' sh')"
  by pat_completeness auto

text \<open>The loop ends: the stack holds the frames not yet visited, and each turn takes one off.\<close>

termination
proof (relation "measure (\<lambda>(cfg, stack, _). sum_list (map (\<lambda>st. frames (rn_call st)) stack))", goal_cases)
  case 1
  show ?case by simp
next
  case (2 cfg st stack result sh)
  then show ?case by simp
next
  case (3 cfg st stack result sh y x st' sh')
  then have "frameStep cfg (st, addAddress st sh) = RightX (st', sh')" by simp
  then have "rn_call st' = rn_call st" by (auto dest: frameStep_state)
  then show ?case
    by (simp add: pushCalls_def childState_def comp_def frames.simps [of "rn_call st"] flip: rev_map)
qed

declare runLoop.simps [simp del]

section \<open>Parsing a trace\<close>

record erc7562_results =
  rs_contractAddresses :: "string list"
  rs_ruleViolations :: "erc7562_violation list"
  rs_storageMap :: storage_map

definition initState :: "user_operation \<Rightarrow> erc7562_call \<Rightarrow> validation_result \<Rightarrow> runner_state" where
  "initState userOp call vr =
     \<lparr>rn_keccak = (case c_keccak call of None \<Rightarrow> [] | Some ks \<Rightarrow> ks), rn_currentEntity = E_none,
      rn_currentEntityAddress = [], rn_delegatecallStorageAddress = c_to call,
      rn_recursionDepth = 0, rn_validationResult = vr, rn_userOp = userOp, rn_call = call\<rparr>"

lemma initState_fields [simp]:
  "rn_call (initState userOp call vr) = call" "rn_userOp (initState userOp call vr) = userOp"
  "rn_delegatecallStorageAddress (initState userOp call vr) = c_to call"
  by (simp_all add: initState_def)

definition initShared :: parser_shared where
  "initShared = \<lparr>ps_contractAddresses = [], ps_storageMap = [], ps_ruleViolations = []\<rparr>"

definition isERC7562Calls :: "runner_state \<times> parser_shared \<Rightarrow> parsed" where
  "isERC7562Calls = (\<lambda>(st, sh).
     if c_calls (rn_call st) = None \<or> length (subcalls (rn_call st)) < 1
     then LeftX (RpcError ''Unexpected traceCall result: no calls from entrypoint.'' InternalError)
     else RightX (st, sh))"

definition runner :: "parser_config \<Rightarrow> runner_state \<times> parser_shared \<Rightarrow> parsed" where
  "runner cfg = (\<lambda>(st, sh). runLoop cfg [st] st sh)"

definition parseTracerResult ::
  "parser_config \<Rightarrow> user_operation \<Rightarrow> erc7562_call \<Rightarrow> validation_result \<Rightarrow>
   (rpc_error, erc7562_results) either_x" where
  "parseTracerResult cfg userOp call vr =
     flatMapX (flatMapX (flatMapX (RightX (initState userOp call vr, initShared)) isERC7562Calls)
         (runner cfg))
       (\<lambda>(_, sh). RightX \<lparr>rs_contractAddresses = ps_contractAddresses sh,
          rs_ruleViolations = ps_ruleViolations sh, rs_storageMap = ps_storageMap sh\<rparr>)"

section \<open>The rules, declaratively\<close>

text \<open>A frame called by the entry point, the sender creator or from outside enters an entity.\<close>

definition known_callee :: "parser_config \<Rightarrow> runner_state \<Rightarrow> bool" where
  "known_callee cfg st =
     (let c = rn_call st; op = rn_userOp st; from = toLowerCase (c_from c); to = toLowerCase (c_to c)
      in from = ZeroAddress \<or> from = ep_address cfg \<or> isSenderCreator from \<longrightarrow>
         to = toLowerCase (sender op) \<or> to = ep_address cfg \<or> isSenderCreator to \<or>
         sameAddress (paymaster op) (c_to c) \<or>
         sameAddress (factory op) (c_to c) \<and> isSenderCreator from)"

definition storage_ok :: "parser_config \<Rightarrow> runner_state \<Rightarrow> bool" where
  "storage_ok cfg st \<longleftrightarrow>
     toLowerCase (c_to (rn_call st)) = ep_address cfg \<or>
     (\<exists>es. parseEntitySlots cfg (rn_userOp st) (rn_keccak st) = Inr es \<and>
       (\<forall>slot \<in> set (allSlots (rn_call st)). \<exists>bySender byEntity.
          associatedWith cfg slot (toLowerCase (sender (rn_userOp st))) es = Inr bySender \<and>
          associatedWith cfg slot (toLowerCase (rn_currentEntityAddress st)) es = Inr byEntity \<and>
          slotAllowed st bySender byEntity slot))"

definition entry_point_methods :: "string set" where
  "entry_point_methods = {''depositTo'', ''0x'', ''acceptAccount'', ''acceptPaymaster'',
     ''sigFailAccount'', ''sigFailPaymaster''}"

definition frame_ok :: "parser_config \<Rightarrow> runner_state \<Rightarrow> bool" where
  "frame_ok cfg st =
     (let e = entered cfg st; c = rn_call st in
      known_callee cfg st \<and>
      (toLowerCase (c_to c) \<noteq> ep_address cfg \<longrightarrow> set (opcodeNames c) \<inter> set bannedOpCodes = {}) \<and>
      \<not> outOfGas c \<and>
      (c_type c \<in> {CREATE, CREATE2} \<longrightarrow> createAllowed e) \<and>
      (\<forall>p \<in> set (contractSize c). \<not> illegalZeroCode cfg e p) \<and>
      (isCallToEntryPoint cfg c \<longrightarrow> tryDetectKnownMethod cfg c \<in> entry_point_methods) \<and>
      ep_address cfg \<notin> toLowerCase ` set (extCodeAccessInfo c) \<and>
      (isCallToEntryPoint cfg c \<or> c_value c = None \<or> BigInt_str (the (c_value c)) = Some 0) \<and>
      (\<forall>a \<in> fst ` set (contractSize c). \<not> isForbiddenPrecompiled a) \<and>
      (currentStaked e \<or> set (opcodeNames c) \<inter> set opcodesOnlyInStakedEntities = {}) \<and>
      (rn_currentEntity e = E_paymaster \<and> \<not> currentStaked e \<and> vr_paymasterInfo (rn_validationResult e) \<noteq> None
         \<longrightarrow> vr_paymasterContext (rn_validationResult e) \<in> {None, Some ''0x''}) \<and>
      storage_ok cfg e)"

text \<open>What an accepted frame records.\<close>

definition recordSlots :: "parser_config \<Rightarrow> runner_state \<Rightarrow> storage_map \<Rightarrow> storage_map" where
  "recordSlots cfg st m =
     (if toLowerCase (c_to (rn_call st)) = ep_address cfg then m
      else fold (addStorage (c_to (rn_call st))) (allSlots (rn_call st)) m)"

lemma addStorage_call: "checkSlots cfg es slots (st, sh) = RightX y \<longleftrightarrow>
  (\<forall>slot \<in> set slots. \<exists>bySender byEntity.
          associatedWith cfg slot (toLowerCase (sender (rn_userOp st))) es = Inr bySender \<and>
          associatedWith cfg slot (toLowerCase (rn_currentEntityAddress st)) es = Inr byEntity \<and>
          slotAllowed st bySender byEntity slot) \<and>
  y = (st, sh\<lparr>ps_storageMap := fold (addStorage (c_to (rn_call st))) slots (ps_storageMap sh)\<rparr>)"
proof (induction slots arbitrary: sh)
  case (Cons slot slots)
  show ?case
    by (cases "associatedWith cfg slot (toLowerCase (sender (rn_userOp st))) es";
        cases "associatedWith cfg slot (toLowerCase (rn_currentEntityAddress st)) es")
      (auto simp: Let_def violationDetected_def Cons.IH)
qed auto

lemma checkStorage_iff:
  "checkStorage cfg (st, sh) = RightX y \<longleftrightarrow>
   storage_ok cfg st \<and> y = (st, sh\<lparr>ps_storageMap := recordSlots cfg st (ps_storageMap sh)\<rparr>)"
  by (cases "parseEntitySlots cfg (rn_userOp st) (rn_keccak st)")
    (auto simp: checkStorage_def storage_ok_def recordSlots_def addStorage_call)

text \<open>Searches for a first offender, and their results.\<close>

lemma find_RightX: "(case List.find p xs of None \<Rightarrow> RightX a | Some x \<Rightarrow> LeftX (f x)) = RightX y
    \<longleftrightarrow> (\<forall>x \<in> set xs. \<not> p x) \<and> y = a"
  by (auto simp: find_None_iff split: option.split dest: find_Some_iff [THEN iffD1])

lemma find_RightX_pair: "(case List.find p xs of None \<Rightarrow> RightX a | Some (u, v) \<Rightarrow> LeftX (f u v)) = RightX y
    \<longleftrightarrow> (\<forall>x \<in> set xs. \<not> p x) \<and> y = a"
  using find_RightX [where p = p and xs = xs and a = a and y = y and f = "\<lambda>x. f (fst x) (snd x)"]
  by (cases "List.find p xs") (auto simp: split_beta)

lemma filter_RightX: "(case filter p xs of [] \<Rightarrow> RightX a | x # _ \<Rightarrow> LeftX (f x)) = RightX y
    \<longleftrightarrow> (\<forall>x \<in> set xs. \<not> p x) \<and> y = a"
  by (auto simp: filter_empty_conv split: list.split dest: filter_eq_ConsD)

lemma detect_iff:
  "(\<exists>y. detectEntityChange cfg (st, sh) = RightX y) \<longleftrightarrow> known_callee cfg st"
  by (auto simp: detectEntityChange_def known_callee_def Let_def)

lemma detect_RightX:
  "detectEntityChange cfg (st, sh) = RightX y \<longleftrightarrow> known_callee cfg st \<and> y = (entered cfg st, sh)"
  using detect_iff [of cfg st sh] by (cases y) (auto dest: detect_entered)

lemma op_checks_iff:
  "checkOp011 cfg (st, sh) = RightX y \<longleftrightarrow> (toLowerCase (c_to (rn_call st)) \<noteq> ep_address cfg \<longrightarrow>
     set (opcodeNames (rn_call st)) \<inter> set bannedOpCodes = {}) \<and> y = (st, sh)"
  "checkOp020 (st, sh) = RightX y \<longleftrightarrow> \<not> outOfGas (rn_call st) \<and> y = (st, sh)"
  "checkOp031 (st, sh) = RightX y \<longleftrightarrow> (c_type (rn_call st) \<in> {CREATE, CREATE2} \<longrightarrow> createAllowed st) \<and> y = (st, sh)"
  "checkOp041 cfg (st, sh) = RightX y \<longleftrightarrow> (\<forall>p \<in> set (contractSize (rn_call st)). \<not> illegalZeroCode cfg st p) \<and> y = (st, sh)"
  "checkOp080 (st, sh) = RightX y \<longleftrightarrow> (currentStaked st \<or>
     set (opcodeNames (rn_call st)) \<inter> set opcodesOnlyInStakedEntities = {}) \<and> y = (st, sh)"
  "checkErep050 (st, sh) = RightX y \<longleftrightarrow> (rn_currentEntity st = E_paymaster \<and> \<not> currentStaked st \<and>
      vr_paymasterInfo (rn_validationResult st) \<noteq> None
         \<longrightarrow> vr_paymasterContext (rn_validationResult st) \<in> {None, Some ''0x''}) \<and> y = (st, sh)"
  unfolding checkOp011_def checkOp020_def checkOp031_def checkOp041_def checkOp080_def
    checkErep050_def violationDetected_def Let_def prod.case filter_RightX find_RightX_pair
  by (auto simp: filter_RightX)

lemma address_checks_iff:
  "checkOp054 cfg (st, sh) = RightX y \<longleftrightarrow> (isCallToEntryPoint cfg (rn_call st) \<longrightarrow>
     tryDetectKnownMethod cfg (rn_call st) \<in> entry_point_methods) \<and> y = (st, sh)"
  "checkOp054ExtCode cfg (st, sh) = RightX y \<longleftrightarrow>
     ep_address cfg \<notin> toLowerCase ` set (extCodeAccessInfo (rn_call st)) \<and> y = (st, sh)"
  "checkOp061 cfg (st, sh) = RightX y \<longleftrightarrow> (isCallToEntryPoint cfg (rn_call st) \<or>
     c_value (rn_call st) = None \<or> BigInt_str (the (c_value (rn_call st))) = Some 0) \<and> y = (st, sh)"
  "checkOp062AllowedPrecompiles (st, sh) = RightX y \<longleftrightarrow>
     (\<forall>a \<in> fst ` set (contractSize (rn_call st)). \<not> isForbiddenPrecompiled a) \<and> y = (st, sh)"
proof -
  show "checkOp054 cfg (st, sh) = RightX y \<longleftrightarrow> (isCallToEntryPoint cfg (rn_call st) \<longrightarrow>
     tryDetectKnownMethod cfg (rn_call st) \<in> entry_point_methods) \<and> y = (st, sh)"
    by (auto simp: checkOp054_def violationDetected_def Let_def entry_point_methods_def)
  show "checkOp054ExtCode cfg (st, sh) = RightX y \<longleftrightarrow>
     ep_address cfg \<notin> toLowerCase ` set (extCodeAccessInfo (rn_call st)) \<and> y = (st, sh)"
    unfolding checkOp054ExtCode_def violationDetected_def prod.case find_RightX
    by (auto simp: image_iff)
  show "checkOp061 cfg (st, sh) = RightX y \<longleftrightarrow> (isCallToEntryPoint cfg (rn_call st) \<or>
     c_value (rn_call st) = None \<or> BigInt_str (the (c_value (rn_call st))) = Some 0) \<and> y = (st, sh)"
    by (cases "c_value (rn_call st)"; cases "BigInt_str (the (c_value (rn_call st)))")
      (auto simp: checkOp061_def violationDetected_def BigInt_x_def)
  show "checkOp062AllowedPrecompiles (st, sh) = RightX y \<longleftrightarrow>
     (\<forall>a \<in> fst ` set (contractSize (rn_call st)). \<not> isForbiddenPrecompiled a) \<and> y = (st, sh)"
    unfolding checkOp062AllowedPrecompiles_def violationDetected_def prod.case find_RightX by auto
qed

lemma entered_fields [simp]:
  "rn_keccak (entered cfg st) = rn_keccak st" "rn_userOp (entered cfg st) = rn_userOp st"
  "rn_validationResult (entered cfg st) = rn_validationResult st"
  "rn_delegatecallStorageAddress (entered cfg st) = rn_delegatecallStorageAddress st"
  "rn_recursionDepth (entered cfg st) = rn_recursionDepth st"
  by (auto simp: entered_def detectEntityChange_def Let_def split: sum.splits either.splits)

text \<open>A chain of checks that keep the state.\<close>

lemma flatMapX_RightX: "flatMapX m f = RightX y \<longleftrightarrow> (\<exists>x. m = RightX x \<and> f x = RightX y)"
  by (cases m rule: failedX.cases) auto

lemma frameStep_iff:
  "frameStep cfg (st, sh) = RightX y \<longleftrightarrow> frame_ok cfg st \<and>
     y = (entered cfg st, sh\<lparr>ps_storageMap := recordSlots cfg st (ps_storageMap sh)\<rparr>)"
proof -
  have rec: "recordSlots cfg (entered cfg st) = recordSlots cfg st"
    by (simp add: recordSlots_def fun_eq_iff)
  show ?thesis
    unfolding frameStep_def ruleChecks_def foldl.simps flatMapX_RightX
    by (simp add: detect_RightX op_checks_iff address_checks_iff checkStorage_iff rec frame_ok_def Let_def)
qed

section \<open>The order of the traversal\<close>

text \<open>
  The recursive traversal the comments describe: a frame, then its subcalls, the last one first,
  each with the entity its caller has entered.
\<close>

function preorder :: "parser_config \<Rightarrow> runner_state \<Rightarrow> runner_state list" where
  "preorder cfg st =
     (if isSelfCall cfg (rn_call st) then []
      else st # concat (map (\<lambda>c. preorder cfg (childState (entered cfg st) c))
        (rev (subcalls (rn_call st)))))"
  by pat_completeness auto

termination
  by (relation "measure (\<lambda>(cfg, st). size (rn_call st))") (auto simp: childState_def intro: subcall_size)

declare preorder.simps [simp del]

fun checkAll ::
  "parser_config \<Rightarrow> runner_state list \<Rightarrow> runner_state \<Rightarrow> parser_shared \<Rightarrow> parsed" where
  "checkAll cfg [] result sh = RightX (result, sh)"
| "checkAll cfg (st # sts) result sh =
     flatMapX (frameStep cfg (st, addAddress st sh)) (\<lambda>(st', sh'). checkAll cfg sts st' sh')"

lemma pushCalls_preorder:
  "concat (map (preorder cfg) (pushCalls (entered cfg st) stack))
   = concat (map (\<lambda>c. preorder cfg (childState (entered cfg st) c)) (rev (subcalls (rn_call st))))
     @ concat (map (preorder cfg) stack)"
  by (simp add: pushCalls_def rev_map comp_def)

lemma runLoop_preorder:
  "runLoop cfg stack result sh = checkAll cfg (concat (map (preorder cfg) stack)) result sh"
proof (induction cfg stack result sh rule: runLoop.induct)
  case (1 cfg result sh)
  show ?case by (simp add: runLoop.simps)
next
  case (2 cfg st stack result sh)
  show ?case
  proof (cases "isSelfCall cfg (rn_call st)")
    case True
    with 2 show ?thesis by (simp add: runLoop.simps(2) preorder.simps [of cfg st])
  next
    case False
    note IH = 2(2) [OF False]
    show ?thesis
    proof (cases "frameStep cfg (st, addAddress st sh)" rule: failedX.cases)
      case (3 y)
      then obtain sh' where y: "y = (entered cfg st, sh')"
        by (cases y) (auto dest: frameStep_state)
      have "runLoop cfg (pushCalls (entered cfg st) stack) (entered cfg st) sh'
          = checkAll cfg (concat (map (preorder cfg) (pushCalls (entered cfg st) stack))) (entered cfg st) sh'"
        using IH 3 y by simp
      with False 3 y show ?thesis
        by (simp add: runLoop.simps(2) preorder.simps [of cfg st] pushCalls_preorder)
    qed (simp_all add: False runLoop.simps(2) preorder.simps [of cfg st])
  qed
qed

lemma checkAll_iff:
  "(\<exists>result'. checkAll cfg sts result sh = RightX (result', sh')) \<longleftrightarrow>
   (\<forall>st \<in> set sts. frame_ok cfg st) \<and>
   sh' = sh\<lparr>ps_contractAddresses := ps_contractAddresses sh @ map (\<lambda>st. toLowerCase (c_to (rn_call st))) sts,
            ps_storageMap := fold (recordSlots cfg) sts (ps_storageMap sh)\<rparr>"
proof (induction sts arbitrary: result sh)
  case (Cons st sts)
  show ?case
  proof (cases "frame_ok cfg st")
    case True
    then have "frameStep cfg (st, addAddress st sh) = RightX (entered cfg st,
        (addAddress st sh)\<lparr>ps_storageMap := recordSlots cfg st (ps_storageMap sh)\<rparr>)"
      by (simp add: frameStep_iff addAddress_def)
    with True show ?thesis by (simp add: Cons.IH) (simp add: addAddress_def)
  next
    case False
    then have "\<not> (\<exists>y. frameStep cfg (st, addAddress st sh) = RightX y)" by (simp add: frameStep_iff)
    with False show ?thesis by (auto simp: flatMapX_RightX)
  qed
qed auto

text \<open>The frames the runner reaches, with the state it has there.\<close>

inductive reached :: "parser_config \<Rightarrow> runner_state \<Rightarrow> runner_state \<Rightarrow> bool"
  for cfg :: parser_config and root :: runner_state where
  reached_root: "\<not> isSelfCall cfg (rn_call root) \<Longrightarrow> reached cfg root root"
| reached_call: "reached cfg root st \<Longrightarrow> c \<in> set (subcalls (rn_call st)) \<Longrightarrow> \<not> isSelfCall cfg c \<Longrightarrow>
     reached cfg root (childState (entered cfg st) c)"

lemma childState_call [simp]: "rn_call (childState st c) = c"
  by (simp add: childState_def)

lemma reached_from_child:
  "reached cfg (childState (entered cfg root) c) st \<Longrightarrow> c \<in> set (subcalls (rn_call root)) \<Longrightarrow>
   \<not> isSelfCall cfg (rn_call root) \<Longrightarrow> reached cfg root st"
  by (induction rule: reached.induct) (auto intro: reached.intros)

lemma preorder_closed:
  "st \<in> set (preorder cfg root) \<Longrightarrow> c \<in> set (subcalls (rn_call st)) \<Longrightarrow> \<not> isSelfCall cfg c \<Longrightarrow>
   childState (entered cfg st) c \<in> set (preorder cfg root)"
proof (induction cfg root rule: preorder.induct)
  case (1 cfg root)
  have self: "\<not> isSelfCall cfg (rn_call root)"
    using 1(2) by (auto simp: preorder.simps [of cfg root] split: if_splits)
  show ?case
  proof (cases "st = root")
    case True
    then have "childState (entered cfg st) c \<in> set (preorder cfg (childState (entered cfg root) c))"
      using 1(4) by (simp add: preorder.simps [of cfg "childState (entered cfg root) c"])
    with True self 1(3) show ?thesis
      by (subst preorder.simps) auto
  next
    case False
    with 1(2) self obtain d where d: "d \<in> set (subcalls (rn_call root))"
      "st \<in> set (preorder cfg (childState (entered cfg root) d))"
      by (subst (asm) preorder.simps) auto
    with 1(1) [OF self, of d] 1(3,4)
    have "childState (entered cfg st) c \<in> set (preorder cfg (childState (entered cfg root) d))" by simp
    with d(1) self show ?thesis by (subst preorder.simps) auto
  qed
qed

lemma set_preorder: "st \<in> set (preorder cfg root) \<longleftrightarrow> reached cfg root st"
proof
  show "st \<in> set (preorder cfg root) \<Longrightarrow> reached cfg root st"
  proof (induction cfg root rule: preorder.induct)
    case (1 cfg root)
    have self: "\<not> isSelfCall cfg (rn_call root)"
      using 1(2) by (auto simp: preorder.simps [of cfg root] split: if_splits)
    with 1(2) consider "st = root" | d where "d \<in> set (subcalls (rn_call root))"
      "st \<in> set (preorder cfg (childState (entered cfg root) d))"
      by (subst (asm) preorder.simps) auto
    then show ?case
    proof cases
      case 1
      with self show ?thesis by (simp add: reached_root)
    next
      case (2 d)
      with 1(1) [OF self, of d] self show ?thesis by (auto intro: reached_from_child)
    qed
  qed
next
  show "reached cfg root st \<Longrightarrow> st \<in> set (preorder cfg root)"
  proof (induction rule: reached.induct)
    case reached_root
    then show ?case by (simp add: preorder.simps [of cfg root])
  next
    case (reached_call st c)
    then show ?case by (blast intro: preorder_closed)
  qed
qed

section \<open>Properties\<close>

lemma parse_iff:
  "parseTracerResult cfg userOp call vr = RightX res \<longleftrightarrow> subcalls call \<noteq> [] \<and>
    (\<forall>st \<in> set (preorder cfg (initState userOp call vr)). frame_ok cfg st) \<and>
    res = \<lparr>rs_contractAddresses =
        map (\<lambda>st. toLowerCase (c_to (rn_call st))) (preorder cfg (initState userOp call vr)),
      rs_ruleViolations = [],
      rs_storageMap = fold (recordSlots cfg) (preorder cfg (initState userOp call vr)) []\<rparr>"
proof -
  let ?st = "initState userOp call vr"
  have init: "rn_call ?st = call" by (simp add: initState_def)
  have calls: "c_calls call = None \<or> length (subcalls call) < 1 \<longleftrightarrow> subcalls call = []"
    by (auto simp: subcalls_def)
  have none: "c_calls call = None \<Longrightarrow> subcalls call = []" by (simp add: subcalls_def)
  have "parseTracerResult cfg userOp call vr = RightX res \<longleftrightarrow> subcalls call \<noteq> [] \<and>
     (\<exists>sh. (\<exists>r. checkAll cfg (preorder cfg ?st) ?st initShared = RightX (r, sh)) \<and>
       res = \<lparr>rs_contractAddresses = ps_contractAddresses sh, rs_ruleViolations = ps_ruleViolations sh,
         rs_storageMap = ps_storageMap sh\<rparr>)"
    unfolding parseTracerResult_def flatMapX_RightX isERC7562Calls_def runner_def prod.case init calls
    using none by (auto simp: init runLoop_preorder)
  then show ?thesis by (auto simp: checkAll_iff initShared_def)
qed

text \<open>
  Property C18. The loop over the explicit stack ends and gives the result of the recursive
  traversal: it checks the frames of the call tree one by one in preorder, the last subcall
  first, and stops at the first frame that breaks a rule or throws.
\<close>

theorem runner_is_preorder_traversal:
  "runner cfg (st, sh) = checkAll cfg (preorder cfg st) st sh"
  by (simp add: runner_def runLoop_preorder)


lemma slot_fact_addStorage:
  assumes "\<forall>a r. map_of m a \<noteq> Some (RootHash r)"
  shows "slot_fact_of (addStorage adr slot m) a k
      = (if a = adr \<and> k = slot then Slot_value [] else slot_fact_of m a k)"
    and "\<forall>a r. map_of (addStorage adr slot m) a \<noteq> Some (RootHash r)"
  using assms
  by (auto simp: addStorage_def slot_fact_of_def split: option.splits storage_entry.splits)

lemma slot_fact_fold:
  assumes "\<forall>a r. map_of m a \<noteq> Some (RootHash r)"
  shows "slot_fact_of (fold (addStorage adr) slots m) a k
      = (if a = adr \<and> k \<in> set slots then Slot_value [] else slot_fact_of m a k) \<and>
    (\<forall>a r. map_of (fold (addStorage adr) slots m) a \<noteq> Some (RootHash r))"
  using assms
proof (induction slots arbitrary: m)
  case (Cons s slots)
  note step = slot_fact_addStorage [OF Cons.prems, of adr s]
  from Cons.IH [OF step(2)] show ?case by (auto simp: step(1))
qed simp

lemma slot_fact_records:
  assumes "\<forall>a r. map_of m a \<noteq> Some (RootHash r)"
  shows "slot_fact_of (fold (recordSlots cfg) sts m) a k
      = (if \<exists>st \<in> set sts. c_to (rn_call st) = a \<and> toLowerCase a \<noteq> ep_address cfg \<and>
            k \<in> set (allSlots (rn_call st)) then Slot_value [] else slot_fact_of m a k)"
  using assms
proof (induction sts arbitrary: m)
  case (Cons st sts)
  note step = slot_fact_fold [OF Cons.prems, of "c_to (rn_call st)" "allSlots (rn_call st)"]
  have "slot_fact_of (recordSlots cfg st m) a k =
      (if c_to (rn_call st) = a \<and> toLowerCase a \<noteq> ep_address cfg \<and> k \<in> set (allSlots (rn_call st))
       then Slot_value [] else slot_fact_of m a k)"
    "\<forall>a r. map_of (recordSlots cfg st m) a \<noteq> Some (RootHash r)"
    using step Cons.prems by (auto simp: recordSlots_def)
  then show ?case by (auto simp: Cons.IH)
qed simp

text \<open>
  Property C31. The result of an accepted trace lists the addresses of all frames reached, in the
  order of the traversal, no violation, and as storage map exactly the slots that some frame
  reached accessed (reads, writes and transient ones) outside the entry point.
\<close>

theorem trace_result_spec:
  assumes "parseTracerResult cfg userOp call vr = RightX res"
  shows "rs_contractAddresses res
      = map (\<lambda>st. toLowerCase (c_to (rn_call st))) (preorder cfg (initState userOp call vr)) \<and>
    rs_ruleViolations res = [] \<and>
    (slot_fact_of (rs_storageMap res) a k = Slot_value [] \<longleftrightarrow>
      (\<exists>st. reached cfg (initState userOp call vr) st \<and> c_to (rn_call st) = a \<and>
        toLowerCase a \<noteq> ep_address cfg \<and> k \<in> set (allSlots (rn_call st))))"
  using assms unfolding parse_iff
  by (auto simp: slot_fact_records set_preorder) (auto simp: slot_fact_of_def)

definition demo_parser :: parser_config where
  "demo_parser = \<lparr>pc_entryPoint = ''0xe'', pc_zeroPad32 = Inr, pc_hexlify = Inr, pc_keccak256 = Inr,
     pc_methodName = \<lambda>_. None\<rparr>"

definition demo_frame ::
  "string \<Rightarrow> string \<Rightarrow> call_frame_type \<Rightarrow> int js_object \<Rightarrow> erc7562_call list \<Rightarrow> erc7562_call" where
  "demo_frame from to ty ws cs = ERC7562Call
     \<lparr>as_reads = None, as_transientReads = None, as_transientWrites = None, as_writes = Some ws\<rparr>
     [] [] from None False None to ty [] None None (Some cs)"

definition demo_vr :: validation_result where
  "demo_vr = \<lparr>vr_returnInfo = \<lparr>ri_preOpGas = 0, ri_prefund = 0, ri_sigFailed = False,
       ri_validAfter = 0, ri_validUntil = None\<rparr>,
     vr_senderInfo = \<lparr>si_addr = ''0xab'', si_stake = 0, si_unstakeDelaySec = 0\<rparr>,
     vr_factoryInfo = None, vr_paymasterInfo = None, vr_paymasterContext = None,
     vr_aggregatorInfo = None\<rparr>"

text \<open>The entry point calls the account, which writes a slot of its own; or its proxy does.\<close>

definition demo_account_trace :: erc7562_call where
  "demo_account_trace = demo_frame ZeroAddress ''0xe'' CALL []
     [demo_frame ''0xe'' ''0xab'' CALL [(''0x00'', 1)] []]"

definition demo_proxy_trace :: erc7562_call where
  "demo_proxy_trace = demo_frame ZeroAddress ''0xe'' CALL []
     [demo_frame ''0xe'' ''0xab'' CALL [] [demo_frame ''0xab'' ''0xcd'' DELEGATECALL [(''0x00'', 1)] []]]"

lemma demo_frame_fields [simp]:
  "c_from (demo_frame f t ty ws cs) = f" "c_to (demo_frame f t ty ws cs) = t"
  "c_type (demo_frame f t ty ws cs) = ty" "subcalls (demo_frame f t ty ws cs) = cs"
  "allSlots (demo_frame f t ty ws cs) = map fst ws" "c_value (demo_frame f t ty ws cs) = None"
  "contractSize (demo_frame f t ty ws cs) = []" "extCodeAccessInfo (demo_frame f t ty ws cs) = []"
  "opcodeNames (demo_frame f t ty ws cs) = []" "\<not> outOfGas (demo_frame f t ty ws cs)"
  "c_keccak (demo_frame f t ty ws cs) = None" "c_input (demo_frame f t ty ws cs) = None"
  by (simp_all add: demo_frame_def subcalls_def allSlots_def keysOf_def opcodeNames_def)

lemma demo_parser_fields [simp]:
  "ep_address demo_parser = ''0xe''" "pc_zeroPad32 demo_parser = Inr"
  "parseEntitySlots demo_parser op [] = Inr []"
  "associatedWith demo_parser slot a [] = Inr (slot = toLowerCase a)"
  by (simp_all add: ep_address_def demo_parser_def parseEntitySlots_def associatedWith_def)

lemma not_creator [simp]:
  "isSenderCreator ''0xe'' = False" "isSenderCreator ''0xab'' = False" "isSenderCreator ''0xcd'' = False"
  "isSenderCreator ZeroAddress = False"
  by (simp_all add: isSenderCreator_def NORMALIZED_CREATORS_def CREATOR_ADDRESSES_def ZeroAddress_def)

lemma ZeroAddress_lower [simp]: "toLowerCase ZeroAddress = ZeroAddress"
  and ZeroAddress_distinct [simp]: "ZeroAddress \<noteq> ''0xe''" "ZeroAddress \<noteq> ''0xab''" "''0xe'' \<noteq> ZeroAddress"
    "''0xab'' \<noteq> ZeroAddress"
  by (simp_all add: ZeroAddress_def)

lemmas demo_parse = preorder.simps entered_def detectEntityChange_def Let_def isSelfCall_def
  childState_def sameAddress_def frame_ok_def known_callee_def initState_def isCallToEntryPoint_def
  storage_ok_def slotAllowed_def currentStaked_def isEntityStaked_def isReadOnlyAccess_def demo_vr_def


lemma demo_accepted:
  "\<exists>res. parseTracerResult demo_parser (demo_op ''0xab'' 0 None 1) demo_account_trace demo_vr = RightX res"
  unfolding parse_iff by (simp add: demo_account_trace_def demo_parse) (rule exI [of _ False], simp)

theorem trace_result_spec_witness:
  "\<exists>res. parseTracerResult demo_parser (demo_op ''0xab'' 0 None 1) demo_account_trace demo_vr = RightX res \<and>
     rs_contractAddresses res = [''0xe'', ''0xab'']"
proof -
  obtain res where res: "parseTracerResult demo_parser (demo_op ''0xab'' 0 None 1) demo_account_trace demo_vr = RightX res"
    using demo_accepted by blast
  from trace_result_spec [OF res, THEN conjunct1] have "rs_contractAddresses res = [''0xe'', ''0xab'']"
    by (simp add: demo_account_trace_def demo_parse)
  with res show ?thesis by blast
qed

text \<open>
  The storage rules look at the address of the code that runs, not at the account
  whose storage it works on, although the runner carries that along: a delegate call out of the
  sender (a proxy account) that writes an ordinary slot of the sender's own storage makes an
  unstaked operation's trace rejected.
\<close>

theorem delegatecall_storage_is_misattributed:
  assumes "reached cfg (initState userOp call vr) st"
    and "c_type (rn_call st) = DELEGATECALL"
    and "toLowerCase (rn_delegatecallStorageAddress st) = toLowerCase (sender userOp)"
    and "toLowerCase (c_to (rn_call st)) \<notin> {toLowerCase (sender userOp), ep_address cfg}"
    and "slot \<in> set (allSlots (rn_call st))"
    and "\<And>es. parseEntitySlots cfg userOp (rn_keccak st) = Inr es \<Longrightarrow>
      associatedWith cfg slot (toLowerCase (sender userOp)) es \<noteq> Inr True"
    and "\<not> currentStaked (entered cfg st)"
  shows "\<nexists>res. parseTracerResult cfg userOp call vr = RightX res"
proof -
  from assms(1) have op: "rn_userOp st = userOp"
    by (induction rule: reached.induct) (simp_all add: initState_def childState_def)
  have "\<not> storage_ok cfg (entered cfg st)"
    using assms(4-7) op by (force simp: storage_ok_def slotAllowed_def Let_def)
  then have "\<not> frame_ok cfg st" by (simp add: frame_ok_def Let_def)
  with assms(1) show ?thesis by (auto simp: parse_iff set_preorder)
qed

theorem delegatecall_storage_is_misattributed_witness:
  "\<nexists>res. parseTracerResult demo_parser (demo_op ''0xab'' 0 None 1) demo_proxy_trace demo_vr = RightX res"
proof -
  let ?op = "demo_op ''0xab'' 0 None 1"
  let ?impl = "demo_frame ''0xab'' ''0xcd'' DELEGATECALL [(''0x00'', 1)] []"
  let ?acc = "demo_frame ''0xe'' ''0xab'' CALL [] [?impl]"
  let ?s0 = "initState ?op demo_proxy_trace demo_vr"
  let ?s1 = "childState (entered demo_parser ?s0) ?acc"
  let ?s2 = "childState (entered demo_parser ?s1) ?impl"
  have r0: "reached demo_parser ?s0 ?s0"
    by (rule reached_root) (simp add: isSelfCall_def demo_proxy_trace_def)
  have r1: "reached demo_parser ?s0 ?s1"
    by (rule reached_call [OF r0]) (simp_all add: demo_proxy_trace_def isSelfCall_def)
  have r2: "reached demo_parser ?s0 ?s2"
    by (rule reached_call [OF r1]) (simp_all add: isSelfCall_def)
  show ?thesis
  proof (rule delegatecall_storage_is_misattributed [OF r2, where slot = "''0x00''"])
    have "\<not> isEntityStaked e demo_vr" for e
      by (cases e) (simp_all add: isEntityStaked_def demo_vr_def)
    then show "\<not> currentStaked (entered demo_parser ?s2)"
      by (simp add: currentStaked_def childState_def initState_def)
    show "\<And>es. parseEntitySlots demo_parser ?op (rn_keccak ?s2) = Inr es \<Longrightarrow>
      associatedWith demo_parser ''0x00'' (toLowerCase (sender ?op)) es \<noteq> Inr True"
      by (auto simp: childState_def initState_def demo_proxy_trace_def)
  qed (simp_all add: childState_def)
qed

end
