(* ===== verification/Simulation.thy ===== *)
theory Simulation
  imports Provider Gas Erc7562_Parser
begin

text \<open>
  Simulation of user operations (\<open>src/sim/sim.helper.ts\<close>, \<open>src/sim/sim.ts\<close>): the validation data an
  account and a paymaster return, decoding of revert data, reading the result of a trace, and the
  three simulations. The ABI functions of \<open>ethers\<close> and the contracts' interfaces are the record
  \<open>sim_lib\<close>. An error of \<open>ethers\<close> has a string as its code; it is an \<open>RpcExn\<close> whose number stands for
  that string.
\<close>

lemma ZeroAddress_digits: "ZeroAddress = ''0x'' @ replicate 40 CHR ''0''"
  by code_simp

definition MAX_UNIT_48 :: int where
  "MAX_UNIT_48 = 2 ^ 48 - 1"

section \<open>Validation data\<close>

record validation_data =
  vd_aggregator :: string
  vd_validAfter :: int
  vd_validUntil :: int

datatype bignumberish = BN int | BS string

fun BigInt_of :: "bignumberish \<Rightarrow> exn + int" where
  "BigInt_of (BN i) = Inr i"
| "BigInt_of (BS s) = BigInt_x s"

definition mergeValidationData ::
  "hex_lib \<Rightarrow> validation_data \<Rightarrow> validation_data \<Rightarrow> exn + validation_data" where
  "mergeValidationData hx accountValidationData paymasterValidationData =
     bindX (hl_zeroPadValue hx ''0x01'' 20) (\<lambda>SIG_VALIDATION_FAILED. Inr
       \<lparr>vd_aggregator = (if vd_aggregator paymasterValidationData \<noteq> ZeroAddress
          then SIG_VALIDATION_FAILED else vd_aggregator accountValidationData),
        vd_validAfter = max (vd_validAfter accountValidationData) (vd_validAfter paymasterValidationData),
        vd_validUntil = min (vd_validUntil accountValidationData) (vd_validUntil paymasterValidationData)\<rparr>)"

text \<open>\<open>parseInt\<close> of a slice is a number because the slice has hex digits.\<close>

definition parseInt_x :: "string \<Rightarrow> exn + int" where
  "parseInt_x s = (case parseInt None s of Some i \<Rightarrow> Inr i | None \<Rightarrow> Inl (ErrorExn ''NaN''))"

definition parseValidationData :: "hex_lib \<Rightarrow> bignumberish \<Rightarrow> exn + validation_data" where
  "parseValidationData hx validationData =
     bindX (BigInt_of validationData) (\<lambda>n.
     bindX (bindX (hl_toBeHex hx n) (\<lambda>h. hl_zeroPadValue hx h 32)) (\<lambda>data.
     bindX (hl_dataSlice hx data (32 - 20) None) (\<lambda>aggregator.
     bindX (bindX (hl_dataSlice hx data (32 - 26) (Some (32 - 20))) parseInt_x) (\<lambda>validUntil.
     bindX (bindX (hl_dataSlice hx data 0 (Some 6)) parseInt_x) (\<lambda>validAfter. Inr
       \<lparr>vd_aggregator = aggregator, vd_validAfter = validAfter,
        vd_validUntil = (if validUntil = 0 then MAX_UNIT_48 else validUntil)\<rparr>)))))"

definition mergeValidationDataValues ::
  "hex_lib \<Rightarrow> bignumberish \<Rightarrow> bignumberish \<Rightarrow> exn + validation_data" where
  "mergeValidationDataValues hx accountValidationData paymasterValidationData =
     bindX (parseValidationData hx accountValidationData) (\<lambda>a.
     bindX (parseValidationData hx paymasterValidationData) (\<lambda>p. mergeValidationData hx a p))"

record execution_result_struct =
  es_preOpGas :: int
  es_paid :: int
  es_accountValidationData :: int
  es_paymasterValidationData :: int
  es_targetSuccess :: bool
  es_targetResult :: string

record execution_result =
  er_preOpGas :: int
  er_targetSuccess :: bool
  er_targetResult :: string
  er_validAfter :: int
  er_validUntil :: int

definition parseExecutionResult :: "hex_lib \<Rightarrow> execution_result_struct \<Rightarrow> exn + execution_result" where
  "parseExecutionResult hx res =
     bindX (mergeValidationDataValues hx (BN (es_accountValidationData res)) (BN (es_paymasterValidationData res)))
       (\<lambda>vd. Inr \<lparr>er_preOpGas = es_preOpGas res, er_targetSuccess = es_targetSuccess res,
          er_targetResult = es_targetResult res, er_validAfter = vd_validAfter vd,
          er_validUntil = vd_validUntil vd\<rparr>)"

section \<open>Revert data\<close>

datatype revert_arg = Arg_bytes string | Arg_string string | Arg_other string

record parsed_error =
  pe_name :: string
  pe_args :: "revert_arg list"

text \<open>
  The interfaces and the ABI coder: the first four bytes of a signature's hash, the selector of a
  function of the account, paymaster and entry point interfaces, decoding of parameters, encoding
  of the simulation calls, and the entry point's deposit information of an address.
\<close>

record sim_lib =
  sl_hex :: hex_lib
  sl_signature_hash :: "string \<Rightarrow> string"
  sl_selector :: "string \<Rightarrow> string"
  sl_decode_string :: "string \<Rightarrow> exn + string"
  sl_decode_uint :: "string \<Rightarrow> exn + int"
  sl_decode_uint_string :: "string \<Rightarrow> exn + int \<times> string"
  sl_parseError :: "string \<Rightarrow> exn + parsed_error option"
  sl_decode_validatePaymaster :: "string \<Rightarrow> exn + string \<times> int"
  sl_decode_innerHandleOp :: "string \<Rightarrow> exn + int \<times> int"
  sl_getDepositInfo :: "string \<Rightarrow> exn + int \<times> int"

definition startsWith :: "string \<Rightarrow> string \<Rightarrow> bool" where
  "startsWith s p \<longleftrightarrow> take (length p) s = p"

text \<open>\<open>decodeErrorReason\<close>: revert data, or a thrown error whose data are looked up first.\<close>

datatype reverted = Revert_data string | Revert_error exn

fun revert_data_of :: "reverted \<Rightarrow> exn + string" where
  "revert_data_of (Revert_data s) = Inr s"
| "revert_data_of (Revert_error (RpcExn e)) = (case err_data e of
     Str s \<Rightarrow> Inr s
   | Undefined \<Rightarrow> Inl (TypeErrorExn ''Cannot read properties of undefined (reading data)'')
   | Null \<Rightarrow> Inl (TypeErrorExn ''Cannot read properties of undefined (reading data)'')
   | _ \<Rightarrow> Inl (TypeErrorExn ''error.substring is not a function''))"
| "revert_data_of (Revert_error _) = Inl (TypeErrorExn ''Cannot read properties of undefined (reading data)'')"

definition decodeErrorReason :: "sim_lib \<Rightarrow> reverted \<Rightarrow> exn + (string \<times> int option) option" where
  "decodeErrorReason lib err =
     bindX (revert_data_of err) (\<lambda>error.
       let dataParams = ''0x'' @ drop 10 error in
       if startsWith error (take 10 (sl_signature_hash lib ''Error(string)''))
       then bindX (sl_decode_string lib dataParams) (\<lambda>message. Inr (Some (message, None)))
       else if startsWith error (take 10 (sl_signature_hash lib ''FailedOp(uint256,string)''))
       then bindX (sl_decode_uint_string lib dataParams)
              (\<lambda>(opIndex, message). Inr (Some (''FailedOp: '' @ message, Some opIndex)))
       else Inr None)"

definition panicCodes :: "int \<Rightarrow> string option" where
  "panicCodes = map_of [(0x01, ''assert(false)''), (0x11, ''arithmetic overflow/underflow''),
     (0x12, ''divide by zero''), (0x21, ''invalid enum value''),
     (0x22, ''storage byte array that is incorrectly encoded''), (0x31, ''.pop() on an empty array.''),
     (0x32, ''array sout-of-bounds or negative index''), (0x41, ''memory overflow''),
     (0x51, ''zero-initialized variable of internal function type'')]"

fun join :: "string \<Rightarrow> string list \<Rightarrow> string" where
  "join sep [] = []"
| "join sep [s] = s"
| "join sep (s # t # ss) = s @ sep @ join sep (t # ss)"

definition quote :: "string \<Rightarrow> string" where
  "quote s = CHR 0x22 # s @ [CHR 0x22]"

text \<open>
  \<open>decodeRevertReason\<close> of revert data. The result \<open>None\<close> is the code's \<open>null\<close>. An argument of type
  \<open>bytes\<close> is decoded recursively; the fuel bounds the nesting, and running out of it is the outer
  \<open>None\<close>. The text of a panic ends in \<open>+ ')\<close>, as the code writes it.
\<close>

definition or_null :: "string \<Rightarrow> bool \<Rightarrow> string option" where
  "or_null s nullIfNoMatch = (if nullIfNoMatch then None else Some s)"

definition decode_data ::
  "(string \<Rightarrow> string option option) \<Rightarrow> sim_lib \<Rightarrow> string \<Rightarrow> bool \<Rightarrow> string option option" where
  "decode_data decode_bytes lib d nullIfNoMatch =
     (let methodSig = take 10 d; dataParams = ''0x'' @ drop 10 d in
      if methodSig = ''0x08c379a0''
      then (case sl_decode_string lib dataParams of
              Inl _ \<Rightarrow> Some (or_null d nullIfNoMatch)
            | Inr err \<Rightarrow> Some (Some (''Error('' @ err @ '')'')))
      else if methodSig = ''0x4e487b71''
      then (case sl_decode_uint lib dataParams of
              Inl _ \<Rightarrow> Some (or_null d nullIfNoMatch)
            | Inr code \<Rightarrow> Some (Some (''Panic('' @
                (case panicCodes code of Some m \<Rightarrow> m | None \<Rightarrow> int_str code) @ '' + '' @ [CHR 0x27] @ '')'')))
      else (case sl_parseError lib d of
              Inr (Some err) \<Rightarrow>
                (let parts = map (\<lambda>arg. case arg of
                     Arg_bytes b \<Rightarrow> decode_bytes b
                   | Arg_string s \<Rightarrow> Some (Some (quote s))
                   | Arg_other s \<Rightarrow> Some (Some s)) (pe_args err)
                 in if None \<in> set parts then None
                    else Some (Some (pe_name err @ ''('' @
                      join '','' (map (\<lambda>p. case the p of Some s \<Rightarrow> s | None \<Rightarrow> []) parts) @ '')'')))
            | _ \<Rightarrow> Some (or_null d nullIfNoMatch)))"

fun decodeRevertReason_fuel :: "nat \<Rightarrow> sim_lib \<Rightarrow> string option \<Rightarrow> bool \<Rightarrow> string option option" where
  "decodeRevertReason_fuel 0 lib data nullIfNoMatch = None"
| "decodeRevertReason_fuel (Suc n) lib data nullIfNoMatch =
     (case data of
        None \<Rightarrow> Some (or_null [] nullIfNoMatch)
      | Some d \<Rightarrow>
          if d = ''0x'' then Some (or_null [] nullIfNoMatch)
          else decode_data (\<lambda>b. decodeRevertReason_fuel n lib (Some b) False) lib d nullIfNoMatch)"

text \<open>
  The length of the data is fuel enough when the bytes inside an error are shorter than its
  encoding (\<open>decode_revert_terminates\<close>).
\<close>

definition decodeRevertReason :: "sim_lib \<Rightarrow> string option \<Rightarrow> bool \<Rightarrow> string option" where
  "decodeRevertReason lib data nullIfNoMatch =
     the (decodeRevertReason_fuel (Suc (case data of None \<Rightarrow> 0 | Some d \<Rightarrow> length d)) lib data nullIfNoMatch)"

text \<open>\<open>decodeRevertReason\<close> of a \<open>NetworkCallError\<close>: without revert data, \<open>data.slice\<close> throws.\<close>

definition decodeRevertReason_error :: "sim_lib \<Rightarrow> network_call_error \<Rightarrow> exn + string option" where
  "decodeRevertReason_error lib err =
     (case (case ne_data (nc_payload err) of Some d \<Rightarrow> Some d | None \<Rightarrow> ne_error_data (nc_payload err)) of
        None \<Rightarrow> Inl (TypeErrorExn ''Cannot read properties of undefined (reading slice)'')
      | Some d \<Rightarrow> Inr (the (decode_data (\<lambda>b. decodeRevertReason_fuel (length d) lib (Some b) False) lib d True)))"

text \<open>
  The byte strings inside every error the interface recognises are shorter than its encoding.
\<close>

definition nested_shorter :: "sim_lib \<Rightarrow> bool" where
  "nested_shorter lib \<longleftrightarrow> (\<forall>d e b. sl_parseError lib d = Inr (Some e) \<longrightarrow> Arg_bytes b \<in> set (pe_args e) \<longrightarrow> length b < length d)"

lemma decode_data_cong:
  assumes "\<And>e b. sl_parseError lib d = Inr (Some e) \<Longrightarrow> Arg_bytes b \<in> set (pe_args e) \<Longrightarrow> f b = g b"
  shows "decode_data f lib d nn = decode_data g lib d nn"
proof (cases "sl_parseError lib d")
  case (Inr r)
  show ?thesis
  proof (cases r)
    case (Some e)
    have "map (\<lambda>arg. case arg of Arg_bytes b \<Rightarrow> f b | Arg_string s \<Rightarrow> Some (Some (quote s))
          | Arg_other s \<Rightarrow> Some (Some s)) (pe_args e)
        = map (\<lambda>arg. case arg of Arg_bytes b \<Rightarrow> g b | Arg_string s \<Rightarrow> Some (Some (quote s))
          | Arg_other s \<Rightarrow> Some (Some s)) (pe_args e)"
      using assms [OF Inr [unfolded Some]] by (auto split: revert_arg.split)
    then show ?thesis by (simp only: decode_data_def Let_def Inr Some sum.case option.case)
  next
    case None
    then show ?thesis by (simp only: decode_data_def Let_def Inr sum.case option.case)
  qed
next
  case (Inl e)
  then show ?thesis by (simp only: decode_data_def Let_def sum.case)
qed

lemma decode_data_returns:
  assumes "\<And>e b. sl_parseError lib d = Inr (Some e) \<Longrightarrow> Arg_bytes b \<in> set (pe_args e) \<Longrightarrow> f b \<noteq> None"
  shows "decode_data f lib d nn \<noteq> None" "decode_data f lib d False \<noteq> Some None"
proof -
  have q: "None \<notin> (\<lambda>arg. case arg of Arg_bytes b \<Rightarrow> f b | Arg_string s \<Rightarrow> Some (Some (quote s))
      | Arg_other s \<Rightarrow> Some (Some s)) ` set (pe_args e)"
    if p: "sl_parseError lib d = Inr (Some e)" for e
  proof
    assume "None \<in> (\<lambda>arg. case arg of Arg_bytes b \<Rightarrow> f b | Arg_string s \<Rightarrow> Some (Some (quote s))
      | Arg_other s \<Rightarrow> Some (Some s)) ` set (pe_args e)"
    then obtain b where "Arg_bytes b \<in> set (pe_args e)" "f b = None"
      by (auto split: revert_arg.splits)
    with assms [OF p] show False by blast
  qed
  then show "decode_data f lib d nn \<noteq> None" "decode_data f lib d False \<noteq> Some None"
    by (auto simp: decode_data_def or_null_def Let_def split: sum.split option.split)
qed

lemma fuel_enough:
  assumes "nested_shorter lib" and "length d < n"
  shows "decodeRevertReason_fuel n lib (Some d) nn = decodeRevertReason_fuel (Suc (length d)) lib (Some d) nn \<and>
    decodeRevertReason_fuel n lib (Some d) nn \<noteq> None \<and>
    decodeRevertReason_fuel n lib (Some d) False \<noteq> Some None"
  using assms(2)
proof (induction "length d" arbitrary: d n nn rule: less_induct)
  case less
  obtain m where n: "n = Suc m" "length d \<le> m" using less.prems by (cases n) auto
  have nested: "length b < length d" if "sl_parseError lib d = Inr (Some e)" "Arg_bytes b \<in> set (pe_args e)" for e b
    using that assms(1) by (auto simp: nested_shorter_def)
  have same: "decodeRevertReason_fuel m lib (Some b) False = decodeRevertReason_fuel (length d) lib (Some b) False"
    and ret: "decodeRevertReason_fuel m lib (Some b) False \<noteq> None"
    if "length b < length d" for b
    using less.hyps [OF that, of m False] less.hyps [OF that, of "length d" False] that n(2)
    by (meson order_less_le_trans | metis order_less_le_trans)+
  have "decode_data (\<lambda>b. decodeRevertReason_fuel m lib (Some b) False) lib d nn
      = decode_data (\<lambda>b. decodeRevertReason_fuel (length d) lib (Some b) False) lib d nn" for nn
    using nested same by (intro decode_data_cong) blast
  moreover have "decode_data (\<lambda>b. decodeRevertReason_fuel m lib (Some b) False) lib d nn \<noteq> None"
    "decode_data (\<lambda>b. decodeRevertReason_fuel m lib (Some b) False) lib d False \<noteq> Some None" for nn
    using nested ret by (intro decode_data_returns; blast)+
  ultimately show ?case by (simp add: n or_null_def)
qed

text \<open>
  Property C30. Decoding revert data returns: if the byte strings nested in every error the
  interface recognises are shorter than the error's encoding, the length of the data bounds the
  nesting; every larger amount of fuel gives the same answer, which is the one
  \<open>decodeRevertReason\<close> gives. Without \<open>nullIfNoMatch\<close> the answer is never null.
\<close>

theorem decode_revert_terminates:
  assumes "nested_shorter lib" and "length d < n"
  shows "decodeRevertReason_fuel n lib (Some d) nn = Some (decodeRevertReason lib (Some d) nn) \<and>
    decodeRevertReason lib (Some d) False \<noteq> None"
proof -
  have f: "decodeRevertReason_fuel n lib (Some d) nn' = Some (decodeRevertReason lib (Some d) nn')" for nn'
    using fuel_enough [OF assms, of nn'] unfolding decodeRevertReason_def option.case by (metis option.collapse)
  then have "decodeRevertReason lib (Some d) False \<noteq> None"
    using fuel_enough [OF assms, of False] by (metis option.inject)
  with f show ?thesis by blast
qed

section \<open>Validation results\<close>

record stake_struct =
  st_stake :: int
  st_unstakeDelaySec :: int

record simulate_validation_struct =
  sv_preOpGas :: int
  sv_prefund :: int
  sv_accountValidationData :: int
  sv_paymasterValidationData :: int
  sv_senderInfo :: stake_struct
  sv_factoryInfo :: stake_struct
  sv_paymasterInfo :: stake_struct
  sv_aggregator :: string
  sv_aggregatorStake :: stake_struct

definition fillEntity :: "string option \<Rightarrow> stake_struct \<Rightarrow> stake_info option" where
  "fillEntity addr info =
     (case addr of
        None \<Rightarrow> None
      | Some a \<Rightarrow> if a = ZeroAddress then None
          else Some \<lparr>si_addr = a, si_stake = st_stake info, si_unstakeDelaySec = st_unstakeDelaySec info\<rparr>)"

text \<open>
  A validation result with a flag that tells whether \<open>preOpGas\<close> and \<open>prefund\<close> are defined; when they
  are \<open>undefined\<close> the two fields hold 0. The sender is never the zero address.
\<close>

type_synonym sim_validation = "validation_result \<times> bool"

definition no_stake :: "string \<Rightarrow> stake_info" where
  "no_stake a = \<lparr>si_addr = a, si_stake = 0, si_unstakeDelaySec = 0\<rparr>"

definition parseSimulateValidationResult ::
  "hex_lib \<Rightarrow> user_operation \<Rightarrow> simulate_validation_struct \<Rightarrow> exn + sim_validation" where
  "parseSimulateValidationResult hx userOp res =
     bindX (mergeValidationDataValues hx (BN (sv_accountValidationData res)) (BN (sv_paymasterValidationData res)))
       (\<lambda>merged. Inr
         (\<lparr>vr_returnInfo = \<lparr>ri_preOpGas = sv_preOpGas res, ri_prefund = sv_prefund res,
             ri_sigFailed = (vd_aggregator merged \<noteq> ZeroAddress), ri_validAfter = vd_validAfter merged,
             ri_validUntil = Some (vd_validUntil merged)\<rparr>,
           vr_senderInfo = (case fillEntity (Some (sender userOp)) (sv_senderInfo res) of
             Some i \<Rightarrow> i | None \<Rightarrow> no_stake (sender userOp)),
           vr_factoryInfo = fillEntity (factory userOp) (sv_factoryInfo res),
           vr_paymasterInfo = fillEntity (paymaster userOp) (sv_paymasterInfo res),
           vr_paymasterContext = None,
           vr_aggregatorInfo = fillEntity (Some (sv_aggregator res)) (sv_aggregatorStake res)\<rparr>, True))"

section \<open>Reading a trace\<close>

definition invalidSignature :: "string \<Rightarrow> (rpc_error, 'a) either_x" where
  "invalidSignature m = LeftX (RpcError m InvalidSignature)"

definition EXPECTED_INNER_HANDLE_OP_FAILURES :: "string list" where
  "EXPECTED_INNER_HANDLE_OP_FAILURES =
     [''FailedOp(0,'' @ quote ''AA95 out of gas'' @ '')'', ''Error(AA90 invalid beneficiary)'']"

definition failed_op_0 :: "string \<Rightarrow> string" where
  "failed_op_0 code = ''FailedOp(0,'' @ CHR 0x22 # code"

definition classify_revert :: "string \<Rightarrow> 'a \<Rightarrow> (rpc_error, 'a) either_x" where
  "classify_revert reason res =
     (if startsWith reason (failed_op_0 ''AA24'') then invalidSignature ''AA24: Invalid UserOp signature''
      else if startsWith reason (failed_op_0 ''AA34'') then invalidSignature ''AA34: Invalid Paymaster signature''
      else if reason \<notin> set EXPECTED_INNER_HANDLE_OP_FAILURES
      then LeftX (RpcError reason SimulateValidation)
      else RightX res)"

definition parseTracerResultCallsForRevert ::
  "sim_lib \<Rightarrow> erc7562_call \<Rightarrow> (rpc_error, erc7562_call) either_x" where
  "parseTracerResultCallsForRevert lib tracerResult =
     (case c_output tracerResult of
        None \<Rightarrow> RightX tracerResult
      | Some out \<Rightarrow>
          (case decodeRevertReason lib (Some out) False of
             None \<Rightarrow> Inl (TypeErrorExn ''Cannot read properties of null (reading startsWith)'')
           | Some reason \<Rightarrow> classify_revert reason tracerResult))"

record validation_calls =
  vc_validationCall :: "erc7562_call option"
  vc_paymasterCall :: "erc7562_call option"
  vc_innerCall :: "erc7562_call option"

definition call_at :: "erc7562_call list \<Rightarrow> nat \<Rightarrow> erc7562_call option" where
  "call_at calls i = (if i < length calls then Some (calls ! i) else None)"

definition hasInitCall :: "user_operation \<Rightarrow> bool" where
  "hasInitCall op =
     (case factory op of None \<Rightarrow> False
      | Some f \<Rightarrow> f \<noteq> EIP_7702_MARKER_INIT_CODE \<or>
          (case factoryData op of None \<Rightarrow> False | Some d \<Rightarrow> length d > 0))"

definition getValidationCalls :: "user_operation \<Rightarrow> erc7562_call \<Rightarrow> exn + validation_calls" where
  "getValidationCalls op entryPointCall =
     (case c_calls entryPointCall of
        None \<Rightarrow> Inl (TypeErrorExn ''Cannot read properties of undefined'')
      | Some calls \<Rightarrow>
          let i = (if hasInitCall op then 1 else 0); j = (if paymaster op = None then i + 1 else i + 2)
          in Inr \<lparr>vc_validationCall = call_at calls i,
               vc_paymasterCall = (if paymaster op = None then None else call_at calls (i + 1)),
               vc_innerCall = call_at calls j\<rparr>)"

text \<open>\<open>get4bytes(call.input) !== methodSig\<close>, for a call and an input that may be missing.\<close>

definition requireMethod :: "sim_lib \<Rightarrow> string \<Rightarrow> erc7562_call option \<Rightarrow> exn + erc7562_call" where
  "requireMethod lib name call =
     (case call of
        None \<Rightarrow> Inl (TypeErrorExn ''Cannot read properties of undefined (reading input)'')
      | Some c \<Rightarrow>
          (case c_input c of
             None \<Rightarrow> Inl (TypeErrorExn ''Cannot read properties of undefined (reading slice)'')
           | Some inp \<Rightarrow> if get4bytes inp \<noteq> sl_selector lib name then Inl (ErrorExn (''Not a '' @ name)) else Inr c))"

definition requireOutput :: "string \<Rightarrow> erc7562_call \<Rightarrow> exn + string" where
  "requireOutput name c = (case c_output c of None \<Rightarrow> Inl (ErrorExn (name @ '': No output'')) | Some out \<Rightarrow> Inr out)"

definition decodeValidateUserOp :: "sim_lib \<Rightarrow> erc7562_call option \<Rightarrow> exn + validation_data" where
  "decodeValidateUserOp lib call =
     bindX (requireMethod lib ''validateUserOp'' call) (\<lambda>c.
     bindX (requireOutput ''validateUserOp'' c) (\<lambda>out. parseValidationData (sl_hex lib) (BS out)))"

definition decodeValidatePaymasterUserOp ::
  "sim_lib \<Rightarrow> erc7562_call option \<Rightarrow> exn + string \<times> validation_data" where
  "decodeValidatePaymasterUserOp lib call =
     bindX (requireMethod lib ''validatePaymasterUserOp'' call) (\<lambda>c.
     bindX (requireOutput ''validatePaymasterUserOp'' c) (\<lambda>out.
     bindX (sl_decode_validatePaymaster lib out) (\<lambda>(context, v).
     bindX (parseValidationData (sl_hex lib) (BN v)) (\<lambda>vd. Inr (context, vd)))))"

definition decodeInnerHandleOp :: "sim_lib \<Rightarrow> erc7562_call option \<Rightarrow> exn + int \<times> int" where
  "decodeInnerHandleOp lib call =
     bindX (requireMethod lib ''innerHandleOp'' call) (\<lambda>c. sl_decode_innerHandleOp lib (the (c_input c)))"

record stakes =
  sk_sender :: stake_info
  sk_paymaster :: "stake_info option"
  sk_factory :: "stake_info option"

definition depositInfo :: "sim_lib \<Rightarrow> string \<Rightarrow> exn + stake_info" where
  "depositInfo lib a = bindX (sl_getDepositInfo lib a)
     (\<lambda>(stake, delay). Inr \<lparr>si_addr = a, si_stake = stake, si_unstakeDelaySec = delay\<rparr>)"

definition optDepositInfo :: "sim_lib \<Rightarrow> string option \<Rightarrow> exn + stake_info option" where
  "optDepositInfo lib a =
     (case a of None \<Rightarrow> Inr None | Some x \<Rightarrow> bindX (depositInfo lib x) (\<lambda>i. Inr (Some i)))"

definition getStakes :: "sim_lib \<Rightarrow> string \<Rightarrow> string option \<Rightarrow> string option \<Rightarrow> exn + stakes" where
  "getStakes lib snd_adr pm fac =
     bindX (depositInfo lib snd_adr) (\<lambda>s.
     bindX (optDepositInfo lib pm) (\<lambda>p.
     bindX (optDepositInfo lib (if fac = Some EIP_7702_MARKER_INIT_CODE then None else fac)) (\<lambda>f.
       Inr \<lparr>sk_sender = s, sk_paymaster = p, sk_factory = f\<rparr>)))"

text \<open>The body of the \<open>try\<close> of \<open>generateValidationResult\<close>.\<close>

definition noPaymasterData :: validation_data where
  "noPaymasterData = \<lparr>vd_aggregator = ZeroAddress, vd_validAfter = 0, vd_validUntil = MAX_UNIT_48\<rparr>"

definition readTrace ::
  "sim_lib \<Rightarrow> user_operation \<Rightarrow> erc7562_call \<Rightarrow> stakes \<Rightarrow> exn + sim_validation \<times> erc7562_call" where
  "readTrace lib userOp tracerResult stakeResults =
     bindX (getValidationCalls userOp tracerResult) (\<lambda>calls.
     bindX (decodeValidateUserOp lib (vc_validationCall calls)) (\<lambda>validationData.
     bindX (case vc_paymasterCall calls of
              None \<Rightarrow> Inr (None, noPaymasterData)
            | Some c \<Rightarrow> bindX (decodeValidatePaymasterUserOp lib (Some c)) (\<lambda>(ctx, d). Inr (Some ctx, d)))
       (\<lambda>(paymasterContext, paymasterValidationData).
     bindX (case vc_innerCall calls of
              None \<Rightarrow> Inr None
            | Some c \<Rightarrow> bindX (decodeInnerHandleOp lib (Some c)) (\<lambda>r. Inr (Some r)))
       (\<lambda>inner. Inr
         ((\<lparr>vr_returnInfo = \<lparr>ri_preOpGas = (case inner of None \<Rightarrow> 0 | Some (g, _) \<Rightarrow> g),
              ri_prefund = (case inner of None \<Rightarrow> 0 | Some (_, p) \<Rightarrow> p), ri_sigFailed = False,
              ri_validAfter = max (vd_validAfter validationData) (vd_validAfter paymasterValidationData),
              ri_validUntil = Some (min (vd_validUntil validationData) (vd_validUntil paymasterValidationData))\<rparr>,
            vr_senderInfo = sk_sender stakeResults, vr_factoryInfo = sk_factory stakeResults,
            vr_paymasterInfo = sk_paymaster stakeResults,
            vr_paymasterContext = (if sk_paymaster stakeResults = None then None else paymasterContext),
            vr_aggregatorInfo = None\<rparr>, inner \<noteq> None), tracerResult)))))"

text \<open>The handler passes errors with a code on, and looks for revert data in the others.\<close>

definition generateValidationResult ::
  "sim_lib \<Rightarrow> user_operation \<Rightarrow> erc7562_call \<Rightarrow> stakes \<Rightarrow>
     (rpc_error, sim_validation \<times> erc7562_call) either_x" where
  "generateValidationResult lib userOp tracerResult stakeResults =
     (case readTrace lib userOp tracerResult stakeResults of
        Inr r \<Rightarrow> RightX r
      | Inl (RpcExn e) \<Rightarrow> LeftX (RpcErrorData (err_msg e) (err_code e) (err_data e))
      | Inl e \<Rightarrow> bindX (decodeErrorReason lib (Revert_error e)) (\<lambda>err.
          LeftX (RpcError (case err of Some (reason, _) \<Rightarrow> reason | None \<Rightarrow> ''unknown reason'') (-32000))))"

section \<open>The simulations\<close>

text \<open>
  What a simulation asks of the provider: encoding of the call, the two RPC requests, decoding of
  their results.
\<close>

record sim_io =
  io_encode :: "string \<Rightarrow> packed_user_operation list \<Rightarrow> js"
  io_decode_simulateValidation :: "js \<Rightarrow> exn + simulate_validation_struct"
  io_decode_simulateHandleOp :: "js \<Rightarrow> exn + execution_result_struct"
  io_decode_trace :: "js \<Rightarrow> erc7562_call"
  io_entryPoint :: string
  io_overrides :: js

definition eth_call_params :: "sim_io \<Rightarrow> js \<Rightarrow> js \<Rightarrow> js list" where
  "eth_call_params io data overrides =
     [Obj [(''to'', Str (io_entryPoint io)), (''data'', data)], Str ''latest'', overrides]"

definition revertDataOf :: "network \<Rightarrow> net_error \<Rightarrow> exn + string option" where
  "revertDataOf nw payload =
     (case ne_body payload of
        Some body \<Rightarrow> bindX (nw_parse_body nw body) (\<lambda>b.
          Inr (if truthy (eb_data b) \<and> eb_message b = ''execution reverted'' then eb_data b else None))
      | None \<Rightarrow> Inr (if truthy (ne_data payload) then ne_data payload else None))"

definition partialSimulateValidation ::
  "network \<Rightarrow> sim_lib \<Rightarrow> sim_io \<Rightarrow> user_operation \<Rightarrow> (rpc_error, sim_validation) either_x" where
  "partialSimulateValidation nw lib io userOp =
     bindX (packUserOp (sl_hex lib) userOp) (\<lambda>packed.
       case send nw ''eth_call'' (eth_call_params io (io_encode io ''simulateValidation'' [packed]) (io_overrides io)) of
         Left error \<Rightarrow> bindX (revertDataOf nw (nc_payload error)) (\<lambda>errorData.
           case decodeRevertReason lib errorData True of
             Some decodedError \<Rightarrow> LeftX (RpcError decodedError SimulateValidation)
           | None \<Rightarrow> LeftX (RpcErrorData ''Could not decode revert reason, unsupported errorSignature''
               SimulateValidation (case errorData of None \<Rightarrow> Undefined | Some d \<Rightarrow> Str d)))
       | Right simulationResult \<Rightarrow>
           bindX (io_decode_simulateValidation io simulationResult) (\<lambda>res.
           bindX (parseSimulateValidationResult (sl_hex lib) userOp res) (\<lambda>r. RightX r)))"

definition sum_big :: "int option list \<Rightarrow> int" where
  "sum_big args = foldl (\<lambda>acc cur. acc + nullish_or cur 0) 0 args"

text \<open>\<open>BigInt(x)\<close> of a number throws unless it is an integer.\<close>

definition BigInt_num :: "rat \<Rightarrow> exn + int" where
  "BigInt_num x = (if of_int \<lfloor>x\<rfloor> = x then Inr \<lfloor>x\<rfloor> else Inl (ErrorExn ''RangeError: not an integer''))"

definition simulationGas :: "gas_lib \<Rightarrow> gas_config \<Rightarrow> user_operation \<Rightarrow> exn + int" where
  "simulationGas gl gasConfig userOp =
     bindX (bindX (calculatePreVerificationGas gl gasConfig userOp no_options) BigInt_num) (\<lambda>prevg.
       Inr (sum_big [Some prevg, Some (verificationGasLimit userOp),
         Some (nullish_or (paymasterVerificationGasLimit userOp) 0)]))"

definition authorization_js :: "eip7702_authorization \<Rightarrow> js" where
  "authorization_js a = Obj [(''chainId'', BigNum (auth_chainId a)), (''address'', Str (auth_address a)),
     (''nonce'', BigNum (auth_nonce a)), (''yParity'', BigNum (auth_yParity a)),
     (''r'', BigNum (auth_r a)), (''s'', BigNum (auth_s a))]"

definition traceTx :: "sim_io \<Rightarrow> user_operation \<Rightarrow> packed_user_operation \<Rightarrow> int \<Rightarrow> js" where
  "traceTx io userOp packed gas =
     Obj [(''from'', Str ZeroAddress), (''to'', Str (io_entryPoint io)),
       (''data'', io_encode io ''handleOps'' [packed]), (''gasLimit'', Str (int_str gas)),
       (''authorizationList'', case eip7702Auth userOp of None \<Rightarrow> Null | Some a \<Rightarrow> Arr [authorization_js a])]"

definition runErc7562NativeTracer ::
  "network \<Rightarrow> sim_io \<Rightarrow> js \<Rightarrow> js \<Rightarrow> (rpc_error, erc7562_call) either_x" where
  "runErc7562NativeTracer nw io tx stateOverrides =
     bindX (debug_traceCall nw tx (Obj [(''tracer'', Str ''erc7562Tracer''), (''stateOverrides'', stateOverrides)]))
       (\<lambda>r. Inr (either_map (io_decode_trace io) r))"

text \<open>The stakes are read whether or not the trace succeeded.\<close>

definition fullSimulateValidation ::
  "network \<Rightarrow> sim_lib \<Rightarrow> sim_io \<Rightarrow> gas_lib \<Rightarrow> gas_config \<Rightarrow> user_operation \<Rightarrow> js \<Rightarrow>
     (rpc_error, sim_validation \<times> erc7562_call) either_x" where
  "fullSimulateValidation nw lib io gl gasConfig userOp stateOverride =
     bindX (simulationGas gl gasConfig userOp) (\<lambda>gas.
     bindX (packUserOp (sl_hex lib) userOp) (\<lambda>packed.
     bindX (runErc7562NativeTracer nw io (traceTx io userOp packed gas) stateOverride) (\<lambda>tracerResult.
     bindX (getStakes lib (sender userOp) (paymaster userOp) (factory userOp)) (\<lambda>stakeResults.
       flatMapX (flatMapX (Inr tracerResult) (parseTracerResultCallsForRevert lib))
         (\<lambda>parsed. generateValidationResult lib userOp parsed stakeResults)))))"

definition handleOpError :: "sim_lib \<Rightarrow> network_call_error \<Rightarrow> (rpc_error, 'a) either_x" where
  "handleOpError lib error =
     bindX (decodeRevertReason_error lib error) (\<lambda>decodedError.
       case decodedError of
         None \<Rightarrow> Inl (TypeErrorExn ''Cannot read properties of null (reading startsWith)'')
       | Some d \<Rightarrow>
           if startsWith d (failed_op_0 ''AA24'') then invalidSignature ''AA24: Invalid UserOp signature''
           else if startsWith d (failed_op_0 ''AA34'') then invalidSignature ''AA34: Invalid Paymaster signature''
           else LeftX (RpcError d SimulateValidation))"

definition merge_overrides :: "js \<Rightarrow> js \<Rightarrow> js" where
  "merge_overrides stateOverride defaults =
     Obj (case (stateOverride, defaults) of
        (Obj a, Obj b) \<Rightarrow> spread (spread [] a) b
      | (_, Obj b) \<Rightarrow> spread [] b | (Obj a, _) \<Rightarrow> spread [] a | _ \<Rightarrow> [])"

definition simulateHandleOp ::
  "network \<Rightarrow> sim_lib \<Rightarrow> sim_io \<Rightarrow> user_operation \<Rightarrow> js \<Rightarrow> (rpc_error, execution_result) either_x" where
  "simulateHandleOp nw lib io userOp stateOverride =
     bindX (packUserOp (sl_hex lib) userOp) (\<lambda>packed.
       case send nw ''eth_call'' (eth_call_params io (io_encode io ''simulateHandleOp'' [packed])
              (merge_overrides stateOverride (io_overrides io))) of
         Left error \<Rightarrow> handleOpError lib error
       | Right r \<Rightarrow> bindX (io_decode_simulateHandleOp io r) (\<lambda>res.
           bindX (parseExecutionResult (sl_hex lib) res) (\<lambda>x. RightX x)))"

definition supportsDebugTraceCallWithNativeTracer :: "network \<Rightarrow> string \<Rightarrow> exn + bool" where
  "supportsDebugTraceCallWithNativeTracer nw nativeTracer =
     bindX (debug_traceCall nw (Obj []) (Obj [(''tracer'', Str nativeTracer)]))
       (\<lambda>r. Inr (foldEither (\<lambda>_. False) (\<lambda>_. True) r))"

section \<open>Validation data read back\<close>

text \<open>The \<open>uint256\<close> a contract returns: signer or aggregator, valid until, valid after.\<close>

definition packValidationData :: "int \<Rightarrow> int \<Rightarrow> int \<Rightarrow> int" where
  "packValidationData aggregator validUntil validAfter =
     aggregator + validUntil * 2 ^ 160 + validAfter * 2 ^ 208"

definition vd_ok :: "int \<Rightarrow> int \<Rightarrow> int \<Rightarrow> bool" where
  "vd_ok a u t \<longleftrightarrow> 0 \<le> a \<and> a < 2 ^ 160 \<and> 0 \<le> u \<and> u < 2 ^ 48 \<and> 0 \<le> t \<and> t < 2 ^ 48"

definition until_of :: "int \<Rightarrow> int" where
  "until_of u = (if u = 0 then MAX_UNIT_48 else u)"

lemma parseInt_hex:
  assumes "hex_digits h" and "h \<noteq> []"
  shows "parseInt_x (''0x'' @ h) = Inr (int (digits_value 16 h))"
proof -
  have "takeWhile (\<lambda>c. digit_value c < 16) h = h"
    using assms(1) by (simp add: hex_digits_def list_all_iff)
  note tw = this
  show ?thesis
    unfolding parseInt_x_def parseInt_def using assms(2) by (simp add: tw Let_def)
qed

lemma hex64_slices:
  shows "drop 24 (hex_fixed 64 n) = hex_fixed 40 n"
    "take 12 (drop 12 (hex_fixed 64 n)) = hex_fixed 12 (n div 16 ^ 40)"
    "take 12 (hex_fixed 64 n) = hex_fixed 12 (n div 16 ^ 52)"
proof -
  have a: "hex_fixed 64 n = hex_fixed 24 (n div 16 ^ 40) @ hex_fixed 40 n"
    using hex_fixed_append [of 24 40 n] by simp
  have b: "hex_fixed 24 (n div 16 ^ 40) = hex_fixed 12 (n div 16 ^ 40 div 16 ^ 12) @ hex_fixed 12 (n div 16 ^ 40)"
    using hex_fixed_append [of 12 12 "n div 16 ^ 40"] by simp
  have c: "n div 16 ^ 40 div 16 ^ 12 = n div 16 ^ 52"
    by (simp only: div_mult2_eq [symmetric] power_add [symmetric]) simp
  show "drop 24 (hex_fixed 64 n) = hex_fixed 40 n" by (simp add: a)
  show "take 12 (drop 12 (hex_fixed 64 n)) = hex_fixed 12 (n div 16 ^ 40)" unfolding a b by simp
  show "take 12 (hex_fixed 64 n) = hex_fixed 12 (n div 16 ^ 52)" unfolding a b c by simp
qed

lemma vd_fields:
  assumes "vd_ok a u t"
  defines "n \<equiv> nat (packValidationData a u t)"
  shows "n < 16 ^ 64" "n mod 16 ^ 40 = nat a" "n div 16 ^ 40 mod 16 ^ 12 = nat u"
    "n div 16 ^ 52 mod 16 ^ 12 = nat t" "0 \<le> packValidationData a u t"
proof -
  have r: "0 \<le> a" "a < 2 ^ 160" "0 \<le> u" "u < 2 ^ 48" "0 \<le> t" "t < 2 ^ 48"
    using assms(1) by (simp_all add: vd_ok_def)
  show nn: "0 \<le> packValidationData a u t" using r by (simp add: packValidationData_def)
  let ?A = "nat a" and ?U = "nat u" and ?T = "nat t"
  have b: "?A < 16 ^ 40" "?U < 16 ^ 12" "?T < 16 ^ 12" using r by (simp_all add: nat_less_iff)
  have n: "n = ?A + 16 ^ 40 * (?U + 16 ^ 12 * ?T)"
    unfolding n_def packValidationData_def using r by (simp add: nat_add_distrib nat_mult_distrib algebra_simps)
  have low: "(x + c * k) mod c = x" "(x + c * k) div c = k" if "x < c" for x c k :: nat
    using that by simp_all
  show "n mod 16 ^ 40 = ?A" unfolding n by (rule low(1) [OF b(1)])
  have d: "n div 16 ^ 40 = ?U + 16 ^ 12 * ?T" unfolding n by (rule low(2) [OF b(1)])
  show "n div 16 ^ 40 mod 16 ^ 12 = ?U" unfolding d by (rule low(1) [OF b(2)])
  have "n div 16 ^ 52 = n div 16 ^ 40 div 16 ^ 12"
    by (simp only: div_mult2_eq [symmetric] power_add [symmetric]) simp
  also have "\<dots> = ?T" unfolding d by (rule low(2) [OF b(2)])
  finally show "n div 16 ^ 52 mod 16 ^ 12 = ?T" using b(3) by (simp only: mod_less)
  have "packValidationData a u t < 16 ^ 64" using r unfolding packValidationData_def by simp
  then show "n < 16 ^ 64" unfolding n_def using nn by (simp add: nat_less_iff)
qed

lemma parseValidationData_ok:
  assumes "ethers_hex hx" and "vd_ok a u t"
  shows "parseValidationData hx (BN (packValidationData a u t)) = Inr
    \<lparr>vd_aggregator = ''0x'' @ hex_fixed 40 (nat a), vd_validAfter = t, vd_validUntil = until_of u\<rparr>"
proof -
  define n where "n = nat (packValidationData a u t)"
  note f = vd_fields [OF assms(2), folded n_def]
  have r: "0 \<le> u" "0 \<le> t" using assms(2) by (simp_all add: vd_ok_def)
  have pad: "bindX (hl_toBeHex hx (packValidationData a u t)) (\<lambda>h. hl_zeroPadValue hx h 32)
      = Inr (''0x'' @ hex_fixed 64 n)"
    using ethers_hex.padded [OF assms(1), of "packValidationData a u t" 32] f(1,5)
    by (simp add: n_def nat_less_iff)
  have hd: "hex_data (hex_fixed 64 n)" by (simp add: hex_data_def)
  have ag: "hl_dataSlice hx (''0x'' @ hex_fixed 64 n) 12 None = Inr (''0x'' @ hex_fixed 40 (nat a))"
    using ethers_hex.dataSlice_rest [OF assms(1) hd, of 12] f(2) hex_fixed_mod [of 40 n]
    by (simp add: hex64_slices)
  have un: "hl_dataSlice hx (''0x'' @ hex_fixed 64 n) 6 (Some 12) = Inr (''0x'' @ hex_fixed 12 (n div 16 ^ 40))"
    using ethers_hex.dataSlice [OF assms(1) hd, of 6 12] by (simp add: hex64_slices)
  have af: "hl_dataSlice hx (''0x'' @ hex_fixed 64 n) 0 (Some 6) = Inr (''0x'' @ hex_fixed 12 (n div 16 ^ 52))"
    using ethers_hex.dataSlice [OF assms(1) hd, of 0 6] by (simp add: hex64_slices)
  have ne: "hex_fixed 12 k \<noteq> []" for k by (simp flip: length_0_conv)
  have "parseInt_x (''0x'' @ hex_fixed 12 (n div 16 ^ 40)) = Inr u"
    "parseInt_x (''0x'' @ hex_fixed 12 (n div 16 ^ 52)) = Inr t"
    using f(3,4) r by (simp_all only: parseInt_hex [OF hex_digits_fixed ne] digits_value_fixed) simp_all
  then show ?thesis
    unfolding parseValidationData_def BigInt_of.simps bindX_simps pad
    using ag un af by (simp add: until_of_def)
qed

lemma address_zero_iff:
  assumes "0 \<le> a" and "a < 2 ^ 160"
  shows "''0x'' @ hex_fixed 40 (nat a) = ZeroAddress \<longleftrightarrow> a = 0"
proof
  assume "''0x'' @ hex_fixed 40 (nat a) = ZeroAddress"
  then have "hex_fixed 40 (nat a) = hex_fixed 40 0" by (simp add: ZeroAddress_digits hex_fixed_zero)
  then have "nat a mod 16 ^ 40 = 0 mod 16 ^ 40" by (metis digits_value_fixed)
  moreover have "nat a < 16 ^ 40" using assms by (simp add: nat_less_iff)
  ultimately show "a = 0" using assms(1) by simp
qed (simp add: ZeroAddress_digits hex_fixed_zero)

lemma sig_failed_address:
  assumes "ethers_hex hx"
  obtains f where "hl_zeroPadValue hx ''0x01'' 20 = Inr f" and "f \<noteq> ZeroAddress"
proof -
  have "hex_data ''01''" "toLowerCase ''01'' = ''01''" by code_simp+
  then have "hl_zeroPadValue hx ''0x01'' 20 = Inr (''0x'' @ replicate 38 CHR ''0'' @ ''01'')"
    using ethers_hex.zeroPadValue [OF assms, of "''01''" 20] by simp
  moreover have "''0x'' @ replicate 38 CHR ''0'' @ ''01'' \<noteq> ZeroAddress" by code_simp
  ultimately show thesis using that by blast
qed

lemma merge_ok:
  assumes "ethers_hex hx" and "vd_ok a u t" and "vd_ok a' u' t'"
  obtains m where "mergeValidationDataValues hx (BN (packValidationData a u t))
      (BN (packValidationData a' u' t')) = Inr m"
    and "vd_validAfter m = max t t'" and "vd_validUntil m = min (until_of u) (until_of u')"
    and "vd_aggregator m \<noteq> ZeroAddress \<longleftrightarrow> a \<noteq> 0 \<or> a' \<noteq> 0"
proof -
  obtain f where f: "hl_zeroPadValue hx ''0x01'' 20 = Inr f" "f \<noteq> ZeroAddress"
    using sig_failed_address [OF assms(1)] by blast
  have z: "''0x'' @ hex_fixed 40 (nat a) = ZeroAddress \<longleftrightarrow> a = 0"
    "''0x'' @ hex_fixed 40 (nat a') = ZeroAddress \<longleftrightarrow> a' = 0"
    using assms(2,3) by (simp_all only: vd_ok_def address_zero_iff)
  show thesis
    by (rule that [of "\<lparr>vd_aggregator = (if a' \<noteq> 0 then f else ''0x'' @ hex_fixed 40 (nat a)),
        vd_validAfter = max t t', vd_validUntil = min (until_of u) (until_of u')\<rparr>"])
      (use z f(2) in \<open>simp_all add: mergeValidationDataValues_def mergeValidationData_def f(1)
        parseValidationData_ok [OF assms(1,2)] parseValidationData_ok [OF assms(1,3)]\<close>)
qed

text \<open>
  Property C29. What the account and the paymaster return from validation is read as they mean it:
  the signature failed exactly if one of them returned a signer other than zero, and a time lies in
  the operation's window exactly if it lies in both of their windows, where an end of zero means no
  end.
\<close>

theorem validation_window:
  assumes "ethers_hex hx" and "vd_ok a u t" and "vd_ok a' u' t'"
    and "sv_accountValidationData res = packValidationData a u t"
    and "sv_paymasterValidationData res = packValidationData a' u' t'"
  shows "\<exists>vr before. parseSimulateValidationResult hx op res = Inr (vr, True) \<and>
    ri_validUntil (vr_returnInfo vr) = Some before \<and>
    (ri_sigFailed (vr_returnInfo vr) \<longleftrightarrow> a \<noteq> 0 \<or> a' \<noteq> 0) \<and>
    (\<forall>now. ri_validAfter (vr_returnInfo vr) \<le> now \<and> now \<le> before \<longleftrightarrow>
      (t \<le> now \<and> now \<le> until_of u) \<and> (t' \<le> now \<and> now \<le> until_of u'))"
proof -
  obtain m where m: "mergeValidationDataValues hx (BN (packValidationData a u t))
      (BN (packValidationData a' u' t')) = Inr m"
    "vd_validAfter m = max t t'" "vd_validUntil m = min (until_of u) (until_of u')"
    "vd_aggregator m \<noteq> ZeroAddress \<longleftrightarrow> a \<noteq> 0 \<or> a' \<noteq> 0"
    using merge_ok [OF assms(1-3)] by blast
  then show ?thesis by (auto simp: parseSimulateValidationResult_def assms(4,5))
qed

definition demo_sim_struct :: simulate_validation_struct where
  "demo_sim_struct = \<lparr>sv_preOpGas = 100, sv_prefund = 200,
     sv_accountValidationData = packValidationData 0 90 10,
     sv_paymasterValidationData = packValidationData 1 0 20,
     sv_senderInfo = \<lparr>st_stake = 0, st_unstakeDelaySec = 0\<rparr>,
     sv_factoryInfo = \<lparr>st_stake = 0, st_unstakeDelaySec = 0\<rparr>,
     sv_paymasterInfo = \<lparr>st_stake = 7, st_unstakeDelaySec = 8\<rparr>, sv_aggregator = ZeroAddress,
     sv_aggregatorStake = \<lparr>st_stake = 0, st_unstakeDelaySec = 0\<rparr>\<rparr>"

theorem validation_window_witness:
  "\<exists>vr. parseSimulateValidationResult hex_reference (demo_op ''0xa'' 0 (Some ''0xb'') 1) demo_sim_struct = Inr (vr, True) \<and>
     ri_sigFailed (vr_returnInfo vr) \<and> \<not> ri_validAfter (vr_returnInfo vr) \<le> 15"
proof -
  have "vd_ok 0 90 10" "vd_ok 1 0 20" by (simp_all add: vd_ok_def)
  moreover have "sv_accountValidationData demo_sim_struct = packValidationData 0 90 10"
    "sv_paymasterValidationData demo_sim_struct = packValidationData 1 0 20"
    by (simp_all add: demo_sim_struct_def)
  ultimately obtain vr before where vr:
    "parseSimulateValidationResult hex_reference (demo_op ''0xa'' 0 (Some ''0xb'') 1) demo_sim_struct = Inr (vr, True)"
    "ri_sigFailed (vr_returnInfo vr)" and
    w: "\<And>now. ri_validAfter (vr_returnInfo vr) \<le> now \<and> now \<le> before \<longleftrightarrow>
      (10 \<le> now \<and> now \<le> until_of 90) \<and> (20 \<le> now \<and> now \<le> until_of 0)"
    using validation_window [OF reference.ethers_hex_axioms, of 0 90 10 1 0 20 demo_sim_struct
        "demo_op ''0xa'' 0 (Some ''0xb'') 1"] by auto
  have "\<not> ri_validAfter (vr_returnInfo vr) \<le> 15"
    using w [of 15] w [of 20] by (simp add: until_of_def MAX_UNIT_48_def)
  with vr show ?thesis by blast
qed

section \<open>Errors\<close>

text \<open>
  A trace whose validation call is missing, is not \<open>validateUserOp\<close> or has no output
  makes \<open>generateValidationResult\<close> throw a \<open>TypeError\<close> instead of returning an error: the handler
  reads \<open>err.error.data\<close> of an error that has neither \<open>data\<close> nor \<open>error\<close>, so the answer "unknown
  reason" is never given.
\<close>

theorem malformed_trace_is_thrown:
  assumes "c_calls trace = Some calls"
    and "case call_at calls (if hasInitCall op then 1 else 0) of
      None \<Rightarrow> True
    | Some c \<Rightarrow> (\<exists>inp. c_input c = Some inp \<and> (get4bytes inp \<noteq> sl_selector lib ''validateUserOp'' \<or> c_output c = None))"
  shows "generateValidationResult lib op trace stakeResults
      = Inl (TypeErrorExn ''Cannot read properties of undefined (reading data)'')"
proof -
  have "\<exists>e. decodeValidateUserOp lib (call_at calls (if hasInitCall op then 1 else 0)) = Inl e \<and> (\<forall>r. e \<noteq> RpcExn r)"
    using assms(2) by (auto simp: decodeValidateUserOp_def requireMethod_def requireOutput_def split: option.splits)
  then obtain e where "decodeValidateUserOp lib (call_at calls (if hasInitCall op then 1 else 0)) = Inl e"
    and e: "\<And>r. e \<noteq> RpcExn r" by blast
  then have "readTrace lib op trace stakeResults = Inl e"
    by (simp add: readTrace_def getValidationCalls_def assms(1) Let_def)
  moreover have "revert_data_of (Revert_error e) = Inl (TypeErrorExn ''Cannot read properties of undefined (reading data)'')"
    using e by (cases e) auto
  ultimately show ?thesis
  proof (cases e)
    case (RpcExn r)
    with e show ?thesis by blast
  qed (simp_all add: generateValidationResult_def decodeErrorReason_def)
qed

definition demo_sim_lib :: sim_lib where
  "demo_sim_lib = \<lparr>sl_hex = hex_reference, sl_signature_hash = id,
     sl_selector = (\<lambda>_. ''0x19822f7c''), sl_decode_string = (\<lambda>_. Inr ''AA23 reverted''),
     sl_decode_uint = (\<lambda>_. Inr 0x11), sl_decode_uint_string = (\<lambda>_. Inr (0, [])),
     sl_parseError = (\<lambda>d. Inr (if length d > 20 then Some \<lparr>pe_name = ''FailedOpWithRevert'',
       pe_args = [Arg_other ''0'', Arg_string ''AA24'', Arg_bytes ''0x08c379a0'']\<rparr> else None)),
     sl_decode_validatePaymaster = (\<lambda>_. Inr ([], 0)), sl_decode_innerHandleOp = (\<lambda>_. Inr (0, 0)),
     sl_getDepositInfo = (\<lambda>_. Inr (0, 0))\<rparr>"

definition demo_revert_data :: string where
  "demo_revert_data = ''0x65c8fd4d'' @ replicate 14 CHR ''0''"

theorem decode_revert_terminates_witness:
  "decodeRevertReason demo_sim_lib (Some demo_revert_data) False
     = Some (''FailedOpWithRevert(0,'' @ quote ''AA24'' @ '',Error(AA23 reverted))'')"
proof -
  have "nested_shorter demo_sim_lib" by (auto simp: nested_shorter_def demo_sim_lib_def)
  then have "decodeRevertReason_fuel 30 demo_sim_lib (Some demo_revert_data) False
      = Some (decodeRevertReason demo_sim_lib (Some demo_revert_data) False)"
    using decode_revert_terminates [of demo_sim_lib demo_revert_data 30 False]
    by (simp add: demo_revert_data_def)
  moreover have "decodeRevertReason_fuel 30 demo_sim_lib (Some demo_revert_data) False
      = Some (Some (''FailedOpWithRevert(0,'' @ quote ''AA24'' @ '',Error(AA23 reverted))''))"
    by code_simp
  ultimately show ?thesis by simp
qed

definition demo_bad_trace :: erc7562_call where
  "demo_bad_trace = demo_frame ZeroAddress ''0xe'' CALL [] [ERC7562Call
     \<lparr>as_reads = None, as_transientReads = None, as_transientWrites = None, as_writes = None\<rparr>
     [] [] ''0xe'' (Some ''0x12345678'') False None ''0xab'' CALL [] None None None]"

definition demo_stakes :: stakes where
  "demo_stakes = \<lparr>sk_sender = no_stake ''0xab'', sk_paymaster = None, sk_factory = None\<rparr>"

theorem malformed_trace_is_thrown_witness:
  "generateValidationResult demo_sim_lib (demo_op ''0xab'' 0 None 1) demo_bad_trace demo_stakes
     = Inl (TypeErrorExn ''Cannot read properties of undefined (reading data)'')"
  by (rule malformed_trace_is_thrown [of _ "the (c_calls demo_bad_trace)"])
    (simp_all add: demo_bad_trace_def demo_frame_def hasInitCall_def call_at_def get4bytes_def demo_sim_lib_def)

end
