(* ===== verification/Validation.thy ===== *)
theory Validation
  imports Simulation Bundle_Helpers
begin

text \<open>
  The validation service (\<open>src/validation/validation-service.ts\<close>, \<open>validation.helper.ts\<close>): static
  checks of the parameters of a request, and validation of an operation by simulation. Operations
  arrive as JSON objects; \<open>to_user_operation\<close> reads one with \<open>BigInt\<close>. The network, the libraries
  and the clock are parameters.
\<close>

section \<open>The outcome of a simulation\<close>

text \<open>
  \<open>checkValidationResult\<close>. Its last three conditions (expiry within 30 seconds, aggregator, 2000 gas
  of slack) create an \<open>Either\<close> without returning it; all that is left of them is that \<open>BigInt\<close> of
  an undefined \<open>preOpGas\<close> throws.
\<close>

definition checkValidationResult ::
  "int \<Rightarrow> validate_user_op_result \<Rightarrow> bool \<Rightarrow> (rpc_error, validate_user_op_result) either_x" where
  "checkValidationResult now res gasKnown =
     (let info = vr_returnInfo res in
      if ri_sigFailed info then LeftX (RpcError ''Invalid UserOp signature'' InvalidSignature)
      else if \<not> ri_validAfter info \<le> now
      then LeftX (RpcError (''time-range in the future time '' @ int_str (ri_validAfter info) @ '', now='' @ int_str now)
             NotInTimeRange)
      else if \<not> (case ri_validUntil info of None \<Rightarrow> True | Some u \<Rightarrow> u \<ge> now)
      then LeftX (RpcError ''already expired'' NotInTimeRange)
      else if \<not> gasKnown then Inl (TypeErrorExn ''Cannot convert undefined to a BigInt'')
      else RightX res)"

text \<open>
  The script that hashes the code of a list of contracts: its deployment transaction, and the field
  \<open>hash\<close> of the arguments it reverts with. A script that does not revert returns nothing, and
  reading \<open>hash\<close> of it throws.
\<close>

record code_hash_lib =
  ch_deployTx :: "string list \<Rightarrow> string"
  ch_hash :: "js list \<Rightarrow> string"

definition codeHashes :: "network \<Rightarrow> code_hash_lib \<Rightarrow> string list \<Rightarrow> exn + string" where
  "codeHashes nw ch adrs = bindX (runContractScript nw (ch_deployTx ch adrs)) (\<lambda>r.
     case r of None \<Rightarrow> Inl (TypeErrorExn ''Cannot destructure property hash of undefined'')
             | Some args \<Rightarrow> Inr (ch_hash ch args))"

definition with_trace :: "validation_result \<Rightarrow> referenced_code_hashes \<Rightarrow> storage_map \<Rightarrow> validate_user_op_result" where
  "with_trace vr rc sm = validation_result.extend vr (validate_user_op_result.fields rc sm)"

definition fullValResultSafeParse ::
  "network \<Rightarrow> code_hash_lib \<Rightarrow> parser_config \<Rightarrow> sim_validation \<times> erc7562_call \<Rightarrow> user_operation \<Rightarrow>
     referenced_code_hashes option \<Rightarrow> (rpc_error, validate_user_op_result) either_x" where
  "fullValResultSafeParse nw ch pcfg res userOp previousCodeHashes =
     bindX (parseTracerResult pcfg userOp (snd res) (fst (fst res))) (foldEither
       (\<lambda>err. LeftX err)
       (\<lambda>tracerRes. bindX
          (case previousCodeHashes of
             None \<Rightarrow> bindX (codeHashes nw ch (rs_contractAddresses tracerRes))
               (\<lambda>h. Inr \<lparr>rc_addresses = rs_contractAddresses tracerRes, rc_hash = h\<rparr>)
           | Some _ \<Rightarrow> Inr \<lparr>rc_addresses = [], rc_hash = []\<rparr>)
          (\<lambda>codeHashes. RightX (with_trace (fst (fst res)) codeHashes (rs_storageMap tracerRes)))))"

section \<open>Validating an operation\<close>

definition requireX :: "bool \<Rightarrow> string \<Rightarrow> int \<Rightarrow> exn + unit" where
  "requireX cond msg code = (if \<not> cond then Inl (RpcExn (RpcError msg code)) else Inr ())"

record validation_config =
  vl_network :: network
  vl_codeHash :: code_hash_lib
  vl_sim :: sim_lib
  vl_io :: sim_io
  vl_gas :: gas_lib
  vl_parser :: parser_config
  vl_isUnsafeMode :: bool
  vl_signer_of :: "eip7702_authorization \<Rightarrow> exn + string"
  vl_showNumber :: "rat \<Rightarrow> string"

definition checkCodeHashes :: "validation_config \<Rightarrow> referenced_code_hashes option \<Rightarrow> exn + unit" where
  "checkCodeHashes cfg previousCodeHashes =
     (case previousCodeHashes of
        None \<Rightarrow> Inr ()
      | Some p \<Rightarrow>
          if length (rc_addresses p) > 0
          then bindX (codeHashes (vl_network cfg) (vl_codeHash cfg) (rc_addresses p)) (\<lambda>h.
                 requireX (h = rc_hash p) ''modified code after first validation'' OpcodeValidation)
          else Inr ())"

text \<open>The loop takes the signer of the first authorization for every element.\<close>

fun checkAuthorizations ::
  "validation_config \<Rightarrow> user_operation \<Rightarrow> eip7702_authorization \<Rightarrow> eip7702_authorization list \<Rightarrow> exn + unit" where
  "checkAuthorizations cfg userOp first [] = Inr ()"
| "checkAuthorizations cfg userOp first (authorization # rest) =
     bindX (requireX (auth_chainId authorization = 0 \<or> auth_chainId authorization = nw_chainId (vl_network cfg))
       ''Invalid chainId in authorization'' InvalidFields) (\<lambda>_.
     bindX (vl_signer_of cfg first) (\<lambda>signer.
     bindX (requireX (toLowerCase signer = toLowerCase (sender userOp))
       ''Authorization signer is not sender'' InvalidFields) (\<lambda>_.
     checkAuthorizations cfg userOp first rest)))"

definition checkAuthorizationList :: "validation_config \<Rightarrow> user_operation \<Rightarrow> exn + unit" where
  "checkAuthorizationList cfg userOp =
     (case getAuthorizationList userOp of
        [] \<Rightarrow> Inr ()
      | a # as \<Rightarrow> checkAuthorizations cfg userOp a (a # as))"

definition simulateSafe ::
  "validation_config \<Rightarrow> gas_config \<Rightarrow> user_operation \<Rightarrow> referenced_code_hashes option \<Rightarrow>
     (rpc_error, validate_user_op_result \<times> bool) either_x" where
  "simulateSafe cfg gasConfig userOp previousCodeHashes =
     bindX (fullSimulateValidation (vl_network cfg) (vl_sim cfg) (vl_io cfg) (vl_gas cfg) gasConfig userOp (Obj []))
       (foldEither (\<lambda>e. LeftX e) (\<lambda>result.
          bindX (fullValResultSafeParse (vl_network cfg) (vl_codeHash cfg) (vl_parser cfg) result userOp
              previousCodeHashes)
            (\<lambda>r. Inr (either_map (\<lambda>v. (v, snd (fst result))) r))))"

definition simulateUnsafe ::
  "validation_config \<Rightarrow> user_operation \<Rightarrow> (rpc_error, validate_user_op_result \<times> bool) either_x" where
  "simulateUnsafe cfg userOp =
     bindX (partialSimulateValidation (vl_network cfg) (vl_sim cfg) (vl_io cfg) userOp)
       (foldEither (\<lambda>e. LeftX e) (\<lambda>(vr, gasKnown).
          RightX (with_trace vr \<lparr>rc_addresses = [], rc_hash = []\<rparr> [], gasKnown)))"

text \<open>The parameter \<open>checkStakes\<close> of the method is never read.\<close>

definition validateUserOp ::
  "validation_config \<Rightarrow> gas_config \<Rightarrow> int \<Rightarrow> user_operation \<Rightarrow> referenced_code_hashes option \<Rightarrow>
     (rpc_error, validate_user_op_result) either_x" where
  "validateUserOp cfg gasConfig now userOp previousCodeHashes =
     bindX (checkCodeHashes cfg previousCodeHashes) (\<lambda>_.
     bindX (checkAuthorizationList cfg userOp) (\<lambda>_.
     flatMapX (if \<not> vl_isUnsafeMode cfg then simulateSafe cfg gasConfig userOp previousCodeHashes
               else simulateUnsafe cfg userOp)
       (\<lambda>(res, gasKnown). checkValidationResult now res gasKnown)))"

text \<open>
  The outcome of a simulation is accepted exactly if the signature did not fail, the
  time is in the operation's window and the gas before execution is known. The conditions on an
  expiry within 30 seconds, on an aggregator and on 2000 gas of slack are evaluated and forgotten:
  they reject nothing.
\<close>

theorem check_result_accepts_iff:
  "checkValidationResult now res gasKnown = RightX res' \<longleftrightarrow>
     res' = res \<and> \<not> ri_sigFailed (vr_returnInfo res) \<and> ri_validAfter (vr_returnInfo res) \<le> now \<and>
     (case ri_validUntil (vr_returnInfo res) of None \<Rightarrow> True | Some u \<Rightarrow> now \<le> u) \<and> gasKnown"
  by (auto simp: checkValidationResult_def Let_def split: option.split)

definition authorization_ok :: "validation_config \<Rightarrow> user_operation \<Rightarrow> eip7702_authorization \<Rightarrow> bool" where
  "authorization_ok cfg op a \<longleftrightarrow>
     (auth_chainId a = 0 \<or> auth_chainId a = nw_chainId (vl_network cfg)) \<and>
     (case vl_signer_of cfg a of Inl _ \<Rightarrow> False | Inr s \<Rightarrow> toLowerCase s = toLowerCase (sender op))"

definition code_unchanged :: "validation_config \<Rightarrow> referenced_code_hashes \<Rightarrow> bool" where
  "code_unchanged cfg p \<longleftrightarrow> rc_addresses p = [] \<or>
     codeHashes (vl_network cfg) (vl_codeHash cfg) (rc_addresses p) = Inr (rc_hash p)"

lemma requireX_Inr [simp]: "requireX c m e = Inr u \<longleftrightarrow> c"
  by (simp add: requireX_def)

lemma checkAuthorizationList_ok:
  "checkAuthorizationList cfg op = Inr () \<longleftrightarrow>
     (case eip7702Auth op of None \<Rightarrow> True | Some a \<Rightarrow> authorization_ok cfg op a)"
  by (auto simp: checkAuthorizationList_def getAuthorizationList_def authorization_ok_def bindX_def requireX_def
      split: option.split sum.split)

lemma checkCodeHashes_ok:
  "checkCodeHashes cfg prev = Inr () \<longleftrightarrow> (case prev of None \<Rightarrow> True | Some p \<Rightarrow> code_unchanged cfg p)"
  by (auto simp: checkCodeHashes_def code_unchanged_def bindX_def requireX_def split: option.split sum.split)

lemma fold_RightE:
  assumes "bindX m (foldEither (\<lambda>e. LeftX e) f) = RightX v"
  obtains x where "m = RightX x" and "f x = RightX v"
proof -
  obtain r where r: "m = Inr r" "foldEither (\<lambda>e. LeftX e) f r = RightX v"
    using assms by (rule bindX_InrE)
  then show thesis using that by (cases r) simp_all
qed

lemma with_trace_fields [simp]:
  "vr_returnInfo (with_trace vr rc sm) = vr_returnInfo vr" "vr_referencedContracts (with_trace vr rc sm) = rc"
  "vr_storageMap (with_trace vr rc sm) = sm"
  by (simp_all add: with_trace_def validation_result.defs validate_user_op_result.defs)

lemma safeParse_RightE:
  assumes "fullValResultSafeParse nw ch pcfg res op prev = RightX v"
  obtains tr where "parseTracerResult pcfg op (snd res) (fst (fst res)) = RightX tr"
    and "vr_returnInfo v = vr_returnInfo (fst (fst res))" and "vr_storageMap v = rs_storageMap tr"
    and "prev = None \<longrightarrow> rc_addresses (vr_referencedContracts v) = rs_contractAddresses tr"
proof -
  obtain tr where tr: "parseTracerResult pcfg op (snd res) (fst (fst res)) = RightX tr"
    "bindX (case prev of
             None \<Rightarrow> bindX (codeHashes nw ch (rs_contractAddresses tr))
               (\<lambda>h. Inr \<lparr>rc_addresses = rs_contractAddresses tr, rc_hash = h\<rparr>)
           | Some _ \<Rightarrow> Inr \<lparr>rc_addresses = [], rc_hash = []\<rparr>)
          (\<lambda>codeHashes. RightX (with_trace (fst (fst res)) codeHashes (rs_storageMap tr)))
      = (RightX v :: (rpc_error, validate_user_op_result) either_x)"
    using assms unfolding fullValResultSafeParse_def by (rule fold_RightE)
  then show thesis
    by (intro that [of tr]) (auto elim!: bindX_InrE split: option.splits)
qed

lemma simulateSafe_RightE:
  assumes "simulateSafe cfg gc op prev = RightX (v, known)"
  obtains sim trace where
    "fullSimulateValidation (vl_network cfg) (vl_sim cfg) (vl_io cfg) (vl_gas cfg) gc op (Obj []) = RightX (sim, trace)"
    and "fullValResultSafeParse (vl_network cfg) (vl_codeHash cfg) (vl_parser cfg) (sim, trace) op prev = RightX v"
proof -
  obtain x where x: "fullSimulateValidation (vl_network cfg) (vl_sim cfg) (vl_io cfg) (vl_gas cfg) gc op (Obj []) = RightX x"
    "bindX (fullValResultSafeParse (vl_network cfg) (vl_codeHash cfg) (vl_parser cfg) x op prev)
       (\<lambda>r. Inr (either_map (\<lambda>v. (v, snd (fst x))) r)) = RightX (v, known)"
    using assms unfolding simulateSafe_def by (rule fold_RightE)
  then obtain r where r: "fullValResultSafeParse (vl_network cfg) (vl_codeHash cfg) (vl_parser cfg) x op prev = Inr r"
    "either_map (\<lambda>v. (v, snd (fst x))) r = Right (v, known)"
    by (auto elim: bindX_InrE)
  then have "r = Right v" by (cases r) auto
  with r x show thesis by (intro that [of "fst x" "snd x"]) simp_all
qed

lemma safe_validation:
  assumes "\<not> vl_isUnsafeMode cfg" and "validateUserOp cfg gasConfig now op prev = RightX res"
  shows "\<exists>sim trace tr.
     fullSimulateValidation (vl_network cfg) (vl_sim cfg) (vl_io cfg) (vl_gas cfg) gasConfig op (Obj []) = RightX (sim, trace) \<and>
     subcalls trace \<noteq> [] \<and>
     (\<forall>st. reached (vl_parser cfg) (initState op trace (fst sim)) st \<longrightarrow> frame_ok (vl_parser cfg) st) \<and>
     parseTracerResult (vl_parser cfg) op trace (fst sim) = RightX tr \<and>
     vr_storageMap res = rs_storageMap tr \<and>
     (prev = None \<longrightarrow> rc_addresses (vr_referencedContracts res) = rs_contractAddresses tr) \<and>
     \<not> ri_sigFailed (vr_returnInfo res) \<and> ri_validAfter (vr_returnInfo res) \<le> now \<and>
     (case ri_validUntil (vr_returnInfo res) of None \<Rightarrow> True | Some u \<Rightarrow> now \<le> u) \<and>
     (case eip7702Auth op of None \<Rightarrow> True | Some a \<Rightarrow> authorization_ok cfg op a) \<and>
     (case prev of None \<Rightarrow> True | Some p \<Rightarrow> code_unchanged cfg p)"
proof -
  have steps: "checkCodeHashes cfg prev = Inr ()" "checkAuthorizationList cfg op = Inr ()"
    and sim: "flatMapX (simulateSafe cfg gasConfig op prev)
       (\<lambda>(res, gasKnown). checkValidationResult now res gasKnown) = RightX res"
    using assms by (auto simp: validateUserOp_def elim!: bindX_InrE)
  from sim obtain v known where v: "simulateSafe cfg gasConfig op prev = RightX (v, known)"
    "checkValidationResult now v known = RightX res"
    by (auto elim!: flatMapX_RightE)
  have chk: "res = v" "\<not> ri_sigFailed (vr_returnInfo v)" "ri_validAfter (vr_returnInfo v) \<le> now"
    "case ri_validUntil (vr_returnInfo v) of None \<Rightarrow> True | Some u \<Rightarrow> now \<le> u"
    using v(2) by (auto simp: checkValidationResult_def Let_def split: if_splits option.splits)
  obtain sim trace where st: "fullSimulateValidation (vl_network cfg) (vl_sim cfg) (vl_io cfg) (vl_gas cfg) gasConfig op (Obj []) = RightX (sim, trace)"
    "fullValResultSafeParse (vl_network cfg) (vl_codeHash cfg) (vl_parser cfg) (sim, trace) op prev = RightX v"
    using v(1) by (rule simulateSafe_RightE)
  from st(2) obtain tr where tr: "parseTracerResult (vl_parser cfg) op trace (fst sim) = RightX tr"
    "vr_storageMap v = rs_storageMap tr"
    "prev = None \<longrightarrow> rc_addresses (vr_referencedContracts v) = rs_contractAddresses tr"
    by (rule safeParse_RightE) simp
  have "subcalls trace \<noteq> [] \<and>
     (\<forall>st. reached (vl_parser cfg) (initState op trace (fst sim)) st \<longrightarrow> frame_ok (vl_parser cfg) st)"
    using tr(1) by (auto simp: parse_iff Ball_def set_preorder)
  with st(1) tr chk steps show ?thesis
    unfolding checkAuthorizationList_ok checkCodeHashes_ok by blast
qed


definition demo_call :: "string option \<Rightarrow> string option \<Rightarrow> string \<Rightarrow> erc7562_call list \<Rightarrow> erc7562_call" where
  "demo_call inp out to cs = ERC7562Call
     \<lparr>as_reads = None, as_transientReads = None, as_transientWrites = None, as_writes = Some []\<rparr>
     [] [] (if to = ''0xe'' \<and> cs \<noteq> [] then ZeroAddress else ''0xe'') inp False out to CALL [] None None (Some cs)"

definition demo_valid_trace :: erc7562_call where
  "demo_valid_trace = demo_call None None ''0xe''
     [demo_call (Some ''0x19822f7c'') (Some ''0x00'') ''0xab'' [],
      demo_call (Some ''0x19822f7c'') None ''0xe'' []]"

definition demo_network :: network where
  "demo_network = \<lparr>nw_send = (\<lambda>_ _. Inr (Obj [])), nw_getCode = (\<lambda>_. ''0x''), nw_chainId = 1,
     nw_blockNumber = 0, nw_parse_body = (\<lambda>_. Inr \<lparr>eb_message = [], eb_data = None\<rparr>),
     nw_call = (\<lambda>_. Inl \<lparr>ne_message = [], ne_body = None, ne_data = Some ''0x'', ne_error_data = None\<rparr>),
     nw_parse_script_error = (\<lambda>_. Inr (Some [Str ''0xhash''])), nw_hexlify = Inr,
     nw_toBeHex = (\<lambda>_. Inr []), nw_flashbots = (\<lambda>_ _. Inr Null)\<rparr>"

definition demo_validator :: validation_config where
  "demo_validator = \<lparr>vl_network = demo_network,
     vl_codeHash = \<lparr>ch_deployTx = (\<lambda>_. []), ch_hash = (\<lambda>_. ''0xhash'')\<rparr>, vl_sim = demo_sim_lib,
     vl_io = \<lparr>io_encode = (\<lambda>_ _. Null), io_decode_simulateValidation = (\<lambda>_. Inr demo_sim_struct),
       io_decode_simulateHandleOp = (\<lambda>_. Inl (ErrorExn [])), io_decode_trace = (\<lambda>_. demo_valid_trace),
       io_entryPoint = ''0xe'', io_overrides = Obj []\<rparr>,
     vl_gas = demo_gas_lib, vl_parser = demo_parser, vl_isUnsafeMode = False,
     vl_signer_of = (\<lambda>a. Inr ''0xAB''), vl_showNumber = (\<lambda>_. [])\<rparr>"

lemma demo_trace_steps:
  "getStakes demo_sim_lib ''0xab'' None None = Inr demo_stakes"
  "parseTracerResultCallsForRevert demo_sim_lib demo_valid_trace = RightX demo_valid_trace"
  "generateValidationResult demo_sim_lib (demo_op ''0xab'' 0 None 1) demo_valid_trace demo_stakes
     = RightX ((demo_vr\<lparr>vr_returnInfo := (vr_returnInfo demo_vr)\<lparr>ri_validUntil := Some MAX_UNIT_48\<rparr>\<rparr>, True),
         demo_valid_trace)"
  by code_simp+

lemma demo_simulation:
  "fullSimulateValidation demo_network demo_sim_lib (vl_io demo_validator) demo_gas_lib MAINNET_CONFIG
     (demo_op ''0xab'' 0 None 1) (Obj [])
   = RightX ((demo_vr\<lparr>vr_returnInfo := (vr_returnInfo demo_vr)\<lparr>ri_validUntil := Some MAX_UNIT_48\<rparr>\<rparr>, True),
         demo_valid_trace)"
proof -
  have u: "uint128 0" "uint128 1" by (simp_all add: uint128_def)
  have "BigInt_num 38110 = Inr 38110" by (simp add: BigInt_num_def)
  moreover have "\<exists>p. packUserOp hex_reference (demo_op ''0xab'' 0 None 1) = Inr p"
    using packUint_ok [OF reference.ethers_hex_axioms u(1,2)] packUint_ok [OF reference.ethers_hex_axioms u(2,2)]
    by (simp add: packUserOp_def packPaymasterAndData_def packInitCode_def demo_op_def)
  then obtain p where "packUserOp hex_reference (demo_op ''0xab'' 0 None 1) = Inr p" by blast
  moreover have "factory (demo_op ''0xab'' 0 None 1) = None" "sl_hex demo_sim_lib = hex_reference"
    by (simp_all add: demo_op_def demo_sim_lib_def)
  moreover have "debug_traceCall demo_network tx opts = RightX (Obj [])" for tx opts
    by (simp add: debug_traceCall_def demo_network_def)
  moreover have "io_decode_trace (vl_io demo_validator) r = demo_valid_trace" for r
    by (simp add: demo_validator_def)
  ultimately show ?thesis
    by (simp add: fullSimulateValidation_def simulationGas_def demo_gas runErc7562NativeTracer_def demo_trace_steps)
qed

lemma demo_validates:
  "\<exists>res. validateUserOp demo_validator MAINNET_CONFIG 1000 (demo_op ''0xab'' 0 None 1) None = RightX res"
proof -
  let ?sim = "(demo_vr\<lparr>vr_returnInfo := (vr_returnInfo demo_vr)\<lparr>ri_validUntil := Some MAX_UNIT_48\<rparr>\<rparr>, True)"
  have "case fullValResultSafeParse demo_network (vl_codeHash demo_validator) demo_parser
      (?sim, demo_valid_trace) (demo_op ''0xab'' 0 None 1) None of
      Inr (Right v) \<Rightarrow> vr_returnInfo v = vr_returnInfo (fst ?sim) | _ \<Rightarrow> False"
    by code_simp
  then obtain v where "fullValResultSafeParse demo_network (vl_codeHash demo_validator) demo_parser
      (?sim, demo_valid_trace) (demo_op ''0xab'' 0 None 1) None = RightX v" "vr_returnInfo v = vr_returnInfo (fst ?sim)"
    by (auto split: sum.splits either.splits)
  moreover have "vl_network demo_validator = demo_network" "vl_sim demo_validator = demo_sim_lib"
    "vl_gas demo_validator = demo_gas_lib" "vl_parser demo_validator = demo_parser"
    "\<not> vl_isUnsafeMode demo_validator"
    by (simp_all add: demo_validator_def)
  ultimately show ?thesis
    by (simp add: validateUserOp_def checkCodeHashes_def checkAuthorizationList_def getAuthorizationList_def
        simulateSafe_def demo_simulation checkValidationResult_def demo_vr_def MAX_UNIT_48_def)
qed


end
