(* ===== verification/Input_Validation.thy ===== *)
theory Input_Validation
  imports Validation
begin

text \<open>
  Static validation of the parameters of a request (\<open>validateInputParameters\<close> of
  \<open>src/validation/validation-service.ts\<close>, \<open>requireAddressAndFields\<close> of \<open>validation.helper.ts\<close>).
  An operation is the JSON object of the request; the gas calculator is called on the operation
  that \<open>BigInt\<close> of its fields gives.
\<close>

section \<open>JSON values\<close>

fun js_truthy :: "js \<Rightarrow> bool" where
  "js_truthy Undefined = False"
| "js_truthy Null = False"
| "js_truthy (Bool b) = b"
| "js_truthy (Num n) = (n \<noteq> 0)"
| "js_truthy (BigNum n) = (n \<noteq> 0)"
| "js_truthy (Str s) = (s \<noteq> [])"
| "js_truthy _ = True"

definition nullish :: "js \<Rightarrow> bool" where
  "nullish v \<longleftrightarrow> v = Undefined \<or> v = Null"

text \<open>\<open>v.toString()\<close>; elements of an array that are null or undefined are empty.\<close>

fun js_str :: "js \<Rightarrow> string" where
  "js_str Undefined = ''undefined''"
| "js_str Null = ''null''"
| "js_str (Bool b) = (if b then ''true'' else ''false'')"
| "js_str (Num n) = int_str n"
| "js_str (BigNum n) = int_str n"
| "js_str (Str s) = s"
| "js_str (Arr xs) = join '','' (map (\<lambda>x. if nullish x then [] else js_str x) xs)"
| "js_str _ = ''[object Object]''"

definition field :: "js js_object \<Rightarrow> string \<Rightarrow> js" where
  "field op k = (case map_of op k of None \<Rightarrow> Undefined | Some v \<Rightarrow> v)"

text \<open>\<open>/^0x[a-fA-F\d]*$/i\<close>, and the address pattern \<open>/^0x[a-f0-9]{10,40}$/i\<close>.\<close>

definition matches_HEX_REGEX :: "string \<Rightarrow> bool" where
  "matches_HEX_REGEX s = (case strip_0x s of None \<Rightarrow> False | Some h \<Rightarrow> hex_digits h)"

definition matches_address :: "string \<Rightarrow> bool" where
  "matches_address s = (case strip_0x s of None \<Rightarrow> False
     | Some h \<Rightarrow> hex_digits h \<and> 10 \<le> length h \<and> length h \<le> 40)"

section \<open>Fields that belong together\<close>

definition requireAddressAndFields ::
  "js js_object \<Rightarrow> string \<Rightarrow> string list \<Rightarrow> string list \<Rightarrow> exn + unit" where
  "requireAddressAndFields op addrField mustFields optionalFields =
     (let addr = field op addrField in
      if nullish addr
      then let unexpected = filter (\<lambda>(name, value). \<not> nullish value \<and>
                 (name \<in> set mustFields \<or> name \<in> set optionalFields)) op
           in requireX (length unexpected = 0)
                (''no '' @ addrField @ '' but got '' @
                   join '','' (map (\<lambda>(name, value). name @ '','' @ js_str value) unexpected)) InvalidFields
      else case addr of
          Str a \<Rightarrow>
            bindX (requireX (matches_address a) (''invalid '' @ addrField) InvalidFields) (\<lambda>_.
            let missing = filter (\<lambda>name. nullish (field op name)) mustFields
            in requireX (length missing = 0)
                 (''got '' @ addrField @ '' but missing '' @ join '','' missing) InvalidFields)
        | _ \<Rightarrow> Inl (TypeErrorExn ''addr.match is not a function''))"

section \<open>The parameters of a request\<close>

record input_params =
  ip_userOpInput :: js
  ip_entryPointInput :: string
  ip_entryPointAddress :: string
  ip_eip7702Support :: bool

definition requiredFields :: "bool \<Rightarrow> bool \<Rightarrow> string list" where
  "requiredFields requireSignature requireGasParams =
     [''sender'', ''nonce'', ''callData''] @ (if requireSignature then [''signature''] else []) @
     (if requireGasParams then [''preVerificationGas'', ''verificationGasLimit'', ''callGasLimit'',
        ''maxFeePerGas'', ''maxPriorityFeePerGas''] else [])"

fun checkFields :: "js js_object \<Rightarrow> string list \<Rightarrow> (rpc_error, js js_object) either" where
  "checkFields userOp [] = Right userOp"
| "checkFields userOp (key # keys) =
     (if \<not> js_truthy (field userOp key)
      then Left (RpcError (''Missing userOp field: '' @ key) InvalidFields)
      else if \<not> matches_HEX_REGEX (js_str (field userOp key))
      then Left (RpcError (''Invalid hex value for property '' @ key @ '' in UserOp'') InvalidFields)
      else checkFields userOp keys)"

text \<open>\<open>BigInt(v)\<close>\<close>

fun BigInt_js :: "js \<Rightarrow> exn + int" where
  "BigInt_js (Num n) = Inr n"
| "BigInt_js (BigNum n) = Inr n"
| "BigInt_js (Bool b) = Inr (if b then 1 else 0)"
| "BigInt_js (Str s) = BigInt_x s"
| "BigInt_js (Arr xs) = BigInt_x (js_str (Arr xs))"
| "BigInt_js Undefined = Inl (TypeErrorExn ''Cannot convert undefined to a BigInt'')"
| "BigInt_js Null = Inl (TypeErrorExn ''Cannot convert null to a BigInt'')"
| "BigInt_js _ = Inl (SyntaxErrorExn ''Cannot convert [object Object] to a BigInt'')"

definition opt_BigInt :: "js \<Rightarrow> exn + int option" where
  "opt_BigInt v = (if nullish v then Inr None else bindX (BigInt_js v) (\<lambda>n. Inr (Some n)))"

definition opt_str :: "js \<Rightarrow> string option" where
  "opt_str v = (if nullish v then None else Some (js_str v))"

definition obj_fields :: "js \<Rightarrow> js js_object" where
  "obj_fields v = (case v of Obj fs \<Rightarrow> fs | _ \<Rightarrow> [])"

definition to_authorization :: "js \<Rightarrow> exn + eip7702_authorization option" where
  "to_authorization v =
     (if nullish v then Inr None
      else let a = obj_fields v in
        bindX (BigInt_js (field a ''chainId'')) (\<lambda>chainId.
        bindX (BigInt_js (field a ''nonce'')) (\<lambda>n.
        bindX (BigInt_js (field a ''yParity'')) (\<lambda>y.
        bindX (BigInt_js (field a ''r'')) (\<lambda>r.
        bindX (BigInt_js (field a ''s'')) (\<lambda>s. Inr (Some
          \<lparr>auth_chainId = chainId, auth_address = js_str (field a ''address''), auth_nonce = n,
           auth_yParity = y, auth_r = r, auth_s = s\<rparr>)))))))"

definition to_user_operation :: "js js_object \<Rightarrow> exn + user_operation" where
  "to_user_operation op =
     bindX (BigInt_js (field op ''nonce'')) (\<lambda>n.
     bindX (BigInt_js (field op ''callGasLimit'')) (\<lambda>cgl.
     bindX (BigInt_js (field op ''verificationGasLimit'')) (\<lambda>vgl.
     bindX (BigInt_js (field op ''preVerificationGas'')) (\<lambda>pvg.
     bindX (BigInt_js (field op ''maxFeePerGas'')) (\<lambda>mf.
     bindX (BigInt_js (field op ''maxPriorityFeePerGas'')) (\<lambda>mp.
     bindX (opt_BigInt (field op ''paymasterVerificationGasLimit'')) (\<lambda>pv.
     bindX (opt_BigInt (field op ''paymasterPostOpGasLimit'')) (\<lambda>pp.
     bindX (to_authorization (field op ''eip7702Auth'')) (\<lambda>auth. Inr
       \<lparr>sender = js_str (field op ''sender''), nonce = n, factory = opt_str (field op ''factory''),
        factoryData = opt_str (field op ''factoryData''), callData = js_str (field op ''callData''),
        callGasLimit = cgl, verificationGasLimit = vgl, preVerificationGas = pvg, maxFeePerGas = mf,
        maxPriorityFeePerGas = mp, paymaster = opt_str (field op ''paymaster''),
        paymasterVerificationGasLimit = pv, paymasterPostOpGasLimit = pp,
        paymasterData = opt_str (field op ''paymasterData''), signature = js_str (field op ''signature''),
        eip7702Auth = auth\<rparr>)))))))))"

text \<open>Of the authorization the gas calculator only asks whether it is there.\<close>

definition some_authorization :: eip7702_authorization where
  "some_authorization = \<lparr>auth_chainId = 0, auth_address = ZeroAddress, auth_nonce = 0, auth_yParity = 0,
     auth_r = 0, auth_s = 0\<rparr>"

definition gas_operation :: "js js_object \<Rightarrow> exn + user_operation" where
  "gas_operation op =
     bindX (to_user_operation (AList.delete ''eip7702Auth'' op)) (\<lambda>u. Inr (u\<lparr>eip7702Auth :=
       (if nullish (field op ''eip7702Auth'') then None else Some some_authorization)\<rparr>))"

text \<open>The estimate is computed first; it can only throw.\<close>

definition checkPreVerificationGas ::
  "validation_config \<Rightarrow> gas_config \<Rightarrow> js js_object \<Rightarrow> exn + unit" where
  "checkPreVerificationGas cfg gasConfig userOp =
     bindX (gas_operation userOp) (\<lambda>op.
     bindX (estimatePreVerificationGas (vl_gas cfg) gasConfig op (Some (preVerificationGas op))
              (Some (signature op)) no_options) (\<lambda>_.
     bindX (validatePreVerificationGas (vl_gas cfg) gasConfig op no_options) (\<lambda>(isValid, minRequired).
       requireX isValid (''preVerificationGas too low: expected at least '' @ vl_showNumber cfg minRequired
         @ '', provided only '' @ int_str (Number_of (preVerificationGas op)) @ '')'') InvalidFields)))"

definition checkDependentFields :: "js js_object \<Rightarrow> exn + unit" where
  "checkDependentFields userOp =
     bindX (requireAddressAndFields userOp ''paymaster''
       [''paymasterPostOpGasLimit'', ''paymasterVerificationGasLimit''] [''paymasterData'']) (\<lambda>_.
     if field userOp ''factory'' \<noteq> Str EIP_7702_MARKER_INIT_CODE
     then requireAddressAndFields userOp ''factory'' [''factoryData''] []
     else Inr ())"

text \<open>
  \<open>resolveProperties\<close> leaves a JSON object as it is. The \<open>Left\<close> for an unsupported EIP-7702
  authorization is created and not returned; what remains is that reading \<open>eip7702Auth\<close> of a
  missing operation throws when EIP-7702 is not supported.
\<close>

definition validateInputParameters ::
  "validation_config \<Rightarrow> gas_config \<Rightarrow> input_params \<Rightarrow> bool \<Rightarrow> bool \<Rightarrow> bool \<Rightarrow> (rpc_error, js js_object) either_x" where
  "validateInputParameters cfg gasConfig params requireSignature requireGasParams preVerificationGasCheck =
     (if ip_entryPointInput params = [] then LeftX (RpcError ''No entryPoint param'' InvalidFields)
      else if \<not> ip_eip7702Support params \<and> nullish (ip_userOpInput params)
      then Inl (TypeErrorExn ''Cannot read properties of undefined (reading eip7702Auth)'')
      else if toLowerCase (ip_entryPointInput params) \<noteq> toLowerCase (ip_entryPointAddress params)
      then LeftX (RpcError (''The EntryPoint at '' @ quote (ip_entryPointInput params) @
             '' is not supported. This bundler uses '' @ ip_entryPointAddress params) InvalidFields)
      else if \<not> js_truthy (ip_userOpInput params)
      then LeftX (RpcError ''No UserOperation param'' InvalidFields)
      else let userOp = obj_fields (ip_userOpInput params) in
        flatMapX (Inr (checkFields userOp (requiredFields requireSignature requireGasParams))) (\<lambda>_.
        bindX (checkDependentFields userOp) (\<lambda>_.
        bindX (if preVerificationGasCheck then checkPreVerificationGas cfg gasConfig userOp else Inr ()) (\<lambda>_.
          RightX userOp))))"

section \<open>What is accepted\<close>

lemma checkFields_iff:
  "checkFields userOp keys = Right r \<longleftrightarrow> r = userOp \<and>
     (\<forall>k \<in> set keys. js_truthy (field userOp k) \<and> matches_HEX_REGEX (js_str (field userOp k)))"
  by (induction keys) auto

text \<open>The fields of an entity come together with its address, or not at all.\<close>

definition entity_ok :: "js js_object \<Rightarrow> string \<Rightarrow> string list \<Rightarrow> string list \<Rightarrow> bool" where
  "entity_ok op addrField must optional \<longleftrightarrow>
     (if nullish (field op addrField)
      then list_all (\<lambda>(name, value). nullish value \<or> name \<notin> set (must @ optional)) op
      else (\<exists>a. field op addrField = Str a \<and> matches_address a) \<and>
        list_all (\<lambda>name. \<not> nullish (field op name)) must)"

lemma requireAddressAndFields_iff:
  "requireAddressAndFields op addrField must optional = Inr () \<longleftrightarrow> entity_ok op addrField must optional"
proof (cases "nullish (field op addrField)")
  case True
  then show ?thesis
    by (auto simp: requireAddressAndFields_def entity_ok_def Let_def list_all_iff filter_empty_conv)
next
  case False
  then show ?thesis
    by (cases "field op addrField")
      (auto simp: requireAddressAndFields_def entity_ok_def Let_def list_all_iff filter_empty_conv
        bindX_def requireX_def split: if_splits)
qed

lemma checkDependentFields_iff:
  "checkDependentFields op = Inr () \<longleftrightarrow>
     entity_ok op ''paymaster'' [''paymasterPostOpGasLimit'', ''paymasterVerificationGasLimit''] [''paymasterData''] \<and>
     (field op ''factory'' = Str EIP_7702_MARKER_INIT_CODE \<or> entity_ok op ''factory'' [''factoryData''] [])"
  by (auto simp: checkDependentFields_def bindX_def requireAddressAndFields_iff [symmetric]
      split: sum.split)

text \<open>
  Property C32. The parameters of a request are accepted exactly if the entry point is the
  bundler's, up to case, the operation is there and every required field is a non-empty hex
  string, the fields of the paymaster and of the factory come together with a well-formed address
  or not at all, and, where it is checked, the pre-verification gas suffices; the accepted
  operation is the one of the request. An EIP-7702 authorization is accepted also where EIP-7702
  is not supported: the error for it is created and not returned.
\<close>

theorem input_accepted_iff:
  "validateInputParameters cfg gasConfig \<lparr>ip_userOpInput = Obj op, ip_entryPointInput = ep,
       ip_entryPointAddress = supported, ip_eip7702Support = eip7702\<rparr> sig gas check = RightX r \<longleftrightarrow>
     r = op \<and> ep \<noteq> [] \<and> toLowerCase ep = toLowerCase supported \<and>
     list_all (\<lambda>k. js_truthy (field op k) \<and> matches_HEX_REGEX (js_str (field op k))) (requiredFields sig gas) \<and>
     entity_ok op ''paymaster'' [''paymasterPostOpGasLimit'', ''paymasterVerificationGasLimit''] [''paymasterData''] \<and>
     (field op ''factory'' = Str EIP_7702_MARKER_INIT_CODE \<or> entity_ok op ''factory'' [''factoryData''] []) \<and>
     (if check then checkPreVerificationGas cfg gasConfig op = Inr () else True)"
proof -
  let ?keys = "requiredFields sig gas"
  have "flatMapX (Inr (checkFields op ?keys)) f = RightX r \<longleftrightarrow>
      (\<forall>k \<in> set ?keys. js_truthy (field op k) \<and> matches_HEX_REGEX (js_str (field op k))) \<and> f op = RightX r"
    for f :: "js js_object \<Rightarrow> (rpc_error, js js_object) either_x"
  proof (cases "checkFields op ?keys")
    case (Right x)
    with checkFields_iff [of op ?keys x] show ?thesis by auto
  next
    case (Left e)
    with checkFields_iff [of op ?keys op] show ?thesis by auto
  qed
  moreover have "bindX m (\<lambda>_. f) = RightX r \<longleftrightarrow> m = Inr () \<and> f = RightX r"
    for m :: "exn + unit" and f :: "(rpc_error, js js_object) either_x"
    by (cases m) auto
  ultimately show ?thesis
    by (auto simp: validateInputParameters_def Let_def checkDependentFields_iff list_all_iff nullish_def
        obj_fields_def)
qed

end
