(* ===== verification/Rpc.thy ===== *)
theory Rpc
  imports Input_Validation
begin

text \<open>
  The JSON-RPC server (\<open>src/rpc/\<close>, \<open>src/utils/rpc.utils.ts\<close>): the middleware that checks a request,
  the registry of methods with the validation of their parameters, and the handler that turns the
  result of a method into a response. The methods are an argument, actions on some state; the
  listening socket and the HTTP headers other than the content type are left out.
\<close>

section \<open>Checks on the request\<close>

type_synonym json_object = "js js_object"

definition isValidRpc :: "json_object \<Rightarrow> (rpc_error, json_object) either" where
  "isValidRpc request =
     (if \<not> js_truthy (field request ''jsonrpc'') \<or> field request ''jsonrpc'' \<noteq> Str ''2.0''
      then Left (RpcError (''Invalid Request, jsonrpc must be exactly '' @ quote ''2.0'') InvalidRequest)
      else Right request)"

fun is_Str :: "js \<Rightarrow> bool" where
  "is_Str (Str _) = True"
| "is_Str _ = False"

fun is_Num :: "js \<Rightarrow> bool" where
  "is_Num (Num _) = True"
| "is_Num _ = False"

fun is_Arr :: "js \<Rightarrow> bool" where
  "is_Arr (Arr _) = True"
| "is_Arr _ = False"

definition isValidMethodString :: "json_object \<Rightarrow> (rpc_error, json_object) either" where
  "isValidMethodString request =
     (if \<not> js_truthy (field request ''method'') \<or> \<not> is_Str (field request ''method'')
      then Left (RpcError ''Invalid Request, method must be a string'' InvalidRequest)
      else Right request)"

definition requestIdNotMissing :: "json_object \<Rightarrow> (rpc_error, json_object) either" where
  "requestIdNotMissing request =
     (if field request ''id'' = Undefined
      then Left (RpcError ''Invalid Request, id is missing'' InvalidRequest)
      else Right request)"

definition idTypeStringOrNumber :: "json_object \<Rightarrow> (rpc_error, json_object) either" where
  "idTypeStringOrNumber request =
     (if \<not> is_Num (field request ''id'') \<and> \<not> is_Str (field request ''id'')
      then Left (RpcError ''Invalid Request, id must be a number or string'' InvalidRequest)
      else Right request)"

definition paramsIsArray :: "json_object \<Rightarrow> (rpc_error, json_object) either" where
  "paramsIsArray request =
     (if \<not> js_truthy (field request ''params'') \<or> \<not> is_Arr (field request ''params'')
      then Left (RpcError ''Invalid Request, params must be an array'' InvalidRequest)
      else Right request)"

definition nameSpacePrefix :: "string \<Rightarrow> string" where
  "nameSpacePrefix method = takeWhile (\<lambda>c. c \<noteq> CHR ''_'') method"

definition notEnabled :: "string \<Rightarrow> rpc_error" where
  "notEnabled method = RpcError (''Method '' @ method @
     '' is not supported. Make sure the API is enabled in the config'') InvalidRequest"

definition apiEnabled :: "string list \<Rightarrow> json_object \<Rightarrow> (rpc_error, json_object) either" where
  "apiEnabled supportedApiPrefixes request =
     (let method = js_str (field request ''method''); prefix = nameSpacePrefix method in
      if prefix = [] then Left (notEnabled method)
      else if prefix \<notin> set supportedApiPrefixes then Left (notEnabled method)
      else Right request)"

definition requestChecks :: "string list \<Rightarrow> (json_object \<Rightarrow> (rpc_error, json_object) either) list" where
  "requestChecks supportedApiPrefixes = [isValidRpc, isValidMethodString, requestIdNotMissing,
     idTypeStringOrNumber, paramsIsArray, apiEnabled supportedApiPrefixes]"

definition rpcValidation :: "string list \<Rightarrow> json_object \<Rightarrow> (rpc_error, json_object) either" where
  "rpcValidation supportedApiPrefixes body =
     foldl flatMap (Right body) (requestChecks supportedApiPrefixes)"

section \<open>The registry\<close>

datatype rpc_method =
    web3_clientVersion
  | eth_chainId | eth_supportedEntryPoints | eth_sendUserOperation | eth_estimateUserOperationGas
  | eth_getUserOperationReceipt | eth_getUserOperationByHash
  | debug_bundler_clearState | debug_bundler_dumpMempool | debug_bundler_clearMempool
  | debug_bundler_sendBundleNow | debug_bundler_setBundlingMode | debug_bundler_setBundleInterval
  | debug_bundler_setReputation | debug_bundler_dumpReputation | debug_bundler_clearReputation
  | debug_bundler_addUserOps | debug_bundler_getStakeStatus | debug_bundler_setConfiguration

definition handlerRegistry :: "string \<Rightarrow> rpc_method option" where
  "handlerRegistry = map_of [
     (''web3_clientVersion'', web3_clientVersion), (''eth_chainId'', eth_chainId),
     (''eth_supportedEntryPoints'', eth_supportedEntryPoints),
     (''eth_sendUserOperation'', eth_sendUserOperation),
     (''eth_estimateUserOperationGas'', eth_estimateUserOperationGas),
     (''eth_getUserOperationReceipt'', eth_getUserOperationReceipt),
     (''eth_getUserOperationByHash'', eth_getUserOperationByHash),
     (''debug_bundler_clearState'', debug_bundler_clearState),
     (''debug_bundler_dumpMempool'', debug_bundler_dumpMempool),
     (''debug_bundler_clearMempool'', debug_bundler_clearMempool),
     (''debug_bundler_sendBundleNow'', debug_bundler_sendBundleNow),
     (''debug_bundler_setBundlingMode'', debug_bundler_setBundlingMode),
     (''debug_bundler_setBundleInterval'', debug_bundler_setBundleInterval),
     (''debug_bundler_setReputation'', debug_bundler_setReputation),
     (''debug_bundler_dumpReputation'', debug_bundler_dumpReputation),
     (''debug_bundler_clearReputation'', debug_bundler_clearReputation),
     (''debug_bundler_addUserOps'', debug_bundler_addUserOps),
     (''debug_bundler_getStakeStatus'', debug_bundler_getStakeStatus),
     (''debug_bundler_setConfiguration'', debug_bundler_setConfiguration)]"

text \<open>\<open>typeof v === 'object'\<close> holds of \<open>null\<close> and of arrays.\<close>

fun is_object :: "js \<Rightarrow> bool" where
  "is_object Null = True"
| "is_object (Arr _) = True"
| "is_object (Obj _) = True"
| "is_object (Instance _) = True"
| "is_object _ = False"

definition param :: "js list \<Rightarrow> nat \<Rightarrow> js" where
  "param params i = (if i < length params then params ! i else Undefined)"

fun validationFunc :: "rpc_method \<Rightarrow> js list \<Rightarrow> bool" where
  "validationFunc eth_sendUserOperation params =
     (length params = 2 \<and> is_object (param params 0) \<and> is_Str (param params 1))"
| "validationFunc eth_estimateUserOperationGas params = (length params \<ge> 2)"
| "validationFunc eth_getUserOperationReceipt params = (length params = 1 \<and> is_Str (param params 0))"
| "validationFunc eth_getUserOperationByHash params = (length params = 1 \<and> is_Str (param params 0))"
| "validationFunc debug_bundler_dumpMempool params = (length params = 1 \<and> is_Str (param params 0))"
| "validationFunc debug_bundler_setBundlingMode params =
     (length params = 1 \<and> param params 0 \<in> {Str ''auto'', Str ''manual''})"
| "validationFunc debug_bundler_setBundleInterval params = (length params = 1 \<and> is_Num (param params 0))"
| "validationFunc debug_bundler_setReputation params = (length params = 2 \<and> is_Arr (param params 0))"
| "validationFunc debug_bundler_dumpReputation params = (length params = 1)"
| "validationFunc debug_bundler_addUserOps params = (length params = 1 \<and> is_Arr (param params 0))"
| "validationFunc debug_bundler_getStakeStatus params =
     (length params = 2 \<and> is_Str (param params 0) \<and> is_Str (param params 1))"
| "validationFunc debug_bundler_setConfiguration params = (length params = 1 \<and> is_object (param params 0))"
| "validationFunc _ params = (length params = 0)"

record validated_request =
  vq_id :: js
  vq_method :: string
  vq_handler :: rpc_method
  vq_params :: "js list"

text \<open>The method of the request is passed twice, so the first test never fails.\<close>

definition transformRequest :: "string \<Rightarrow> json_object \<Rightarrow> (rpc_error, validated_request) either" where
  "transformRequest method request =
     (if Str method \<noteq> field request ''method''
      then Left (RpcError (''Method '' @ js_str (field request ''method'') @ '' is not supported for '' @ method)
             InvalidRequest)
      else case handlerRegistry method of
        None \<Rightarrow> Left (RpcError (''Method '' @ method @ '' is not supported'') InvalidRequest)
      | Some h \<Rightarrow> Right \<lparr>vq_id = field request ''id'', vq_method = method, vq_handler = h,
          vq_params = (case field request ''params'' of Arr ps \<Rightarrow> ps | _ \<Rightarrow> [])\<rparr>)"

definition isParamsValid :: "validated_request \<Rightarrow> (rpc_error, validated_request) either" where
  "isParamsValid validReq =
     (if \<not> validationFunc (vq_handler validReq) (vq_params validReq)
      then Left (RpcError (''Invalid params for method '' @ vq_method validReq) InvalidFields)
      else Right validReq)"

definition rpcParsed :: "json_object \<Rightarrow> (rpc_error, validated_request) either" where
  "rpcParsed validReq =
     flatMap (transformRequest (js_str (field validReq ''method'')) validReq) isParamsValid"

section \<open>Results\<close>

text \<open>
  \<open>deepHexlify\<close>: numbers become hex strings without a leading zero digit (\<open>replace(/^0x0/, '0x')\<close>
  removes one), functions become undefined.
\<close>

definition strip_zero :: "string \<Rightarrow> string" where
  "strip_zero s = (if take 3 s = ''0x0'' then ''0x'' @ drop 3 s else s)"

fun deepHexlify :: "hex_lib \<Rightarrow> js \<Rightarrow> exn + js"
  and hexlifyAll :: "hex_lib \<Rightarrow> js list \<Rightarrow> exn + js list"
  and hexlifyFields :: "hex_lib \<Rightarrow> (string \<times> js) list \<Rightarrow> exn + (string \<times> js) list" where
  "deepHexlify hx Fn = Inr Undefined"
| "deepHexlify hx (Num n) = bindX (hl_toBeHex hx n) (\<lambda>s. Inr (Str (strip_zero s)))"
| "deepHexlify hx (BigNum n) = bindX (hl_toBeHex hx n) (\<lambda>s. Inr (Str (strip_zero s)))"
| "deepHexlify hx (Arr xs) = bindX (hexlifyAll hx xs) (\<lambda>ys. Inr (Arr ys))"
| "deepHexlify hx (Obj fs) = bindX (hexlifyFields hx fs) (\<lambda>gs. Inr (Obj gs))"
| "deepHexlify hx (Instance c) = Inr (Obj [])"
| "deepHexlify hx Undefined = Inr Undefined"
| "deepHexlify hx Null = Inr Null"
| "deepHexlify hx (Bool b) = Inr (Bool b)"
| "deepHexlify hx (Str s) = Inr (Str s)"
| "hexlifyAll hx [] = Inr []"
| "hexlifyAll hx (x # xs) = bindX (deepHexlify hx x) (\<lambda>y. bindX (hexlifyAll hx xs) (\<lambda>ys. Inr (y # ys)))"
| "hexlifyFields hx [] = Inr []"
| "hexlifyFields hx ((k, v) # fs) =
     bindX (deepHexlify hx v) (\<lambda>w. bindX (hexlifyFields hx fs) (\<lambda>gs. Inr ((k, w) # gs)))"

definition exn_js :: "exn \<Rightarrow> js" where
  "exn_js e = Obj [(''message'', Str (exn_message e))]"

definition createSuccessResponse :: "hex_lib \<Rightarrow> js \<Rightarrow> js \<Rightarrow> (rpc_error, js) either" where
  "createSuccessResponse hx i result =
     (case deepHexlify hx result of
        Inr hexlifyResult \<Rightarrow>
          Right (Obj [(''jsonrpc'', Str ''2.0''), (''id'', i), (''result'', hexlifyResult)])
      | Inl error \<Rightarrow> Left (RpcErrorData ''Error hexlifying result'' InternalError (exn_js error)))"

datatype handler_result = H_either "(rpc_error, js) either" | H_value js

type_synonym 's handlers = "rpc_method \<Rightarrow> js list \<Rightarrow> ('s, handler_result) act"

definition handled :: "hex_lib \<Rightarrow> js \<Rightarrow> handler_result \<Rightarrow> (rpc_error, js) either" where
  "handled hx i r =
     (case r of
        H_either e \<Rightarrow> foldEither (\<lambda>error. Left error) (\<lambda>response. createSuccessResponse hx i response) e
      | H_value v \<Rightarrow> createSuccessResponse hx i v)"

definition doHandleRequest ::
  "hex_lib \<Rightarrow> 's handlers \<Rightarrow> validated_request \<Rightarrow> ('s, (rpc_error, js) either) act" where
  "doHandleRequest hx handlerFunc request =
     andThen (handlerFunc (vq_handler request) (vq_params request)) (\<lambda>r. ret (handled hx (vq_id request) r))"

section \<open>The server\<close>

definition errorResponse :: "js \<Rightarrow> rpc_error \<Rightarrow> js" where
  "errorResponse i error =
     Obj [(''jsonrpc'', Str ''2.0''), (''id'', i),
          (''error'', Obj [(''code'', Num (err_code error)), (''message'', Str (err_msg error)),
             (''data'', err_data error)])]"

definition invalidRequest :: "js \<Rightarrow> string \<Rightarrow> js" where
  "invalidRequest i data = errorResponse i (RpcErrorData ''Invalid Request'' InvalidRequest (Str data))"

text \<open>A thrown value with a numeric \<open>code\<close> keeps it.\<close>

fun unknownError :: "exn \<Rightarrow> rpc_error" where
  "unknownError (RpcExn e) = RpcErrorData (err_msg e) (err_code e) (err_data e)"
| "unknownError e = RpcErrorData (exn_message e) (-32000) Undefined"

definition postRpc :: "hex_lib \<Rightarrow> 's handlers \<Rightarrow> validated_request \<Rightarrow> 's \<Rightarrow> js \<times> 's" where
  "postRpc hx handlerFunc request s =
     (case doHandleRequest hx handlerFunc request s of
        (Inr result, t) \<Rightarrow>
          (foldEither (\<lambda>error. errorResponse (vq_id request) error) (\<lambda>response. response) result, t)
      | (Inl e, t) \<Rightarrow> (errorResponse (vq_id request) (unknownError e), t))"

definition parseValidRequest :: "hex_lib \<Rightarrow> 's handlers \<Rightarrow> json_object \<Rightarrow> 's \<Rightarrow> js \<times> 's" where
  "parseValidRequest hx handlerFunc validReq s =
     foldEither (\<lambda>error. (errorResponse (field validReq ''id'') error, s))
       (\<lambda>parsedReq. postRpc hx handlerFunc parsedReq s) (rpcParsed validReq)"

definition validateRequest ::
  "hex_lib \<Rightarrow> string list \<Rightarrow> 's handlers \<Rightarrow> json_object \<Rightarrow> 's \<Rightarrow> js \<times> 's" where
  "validateRequest hx supportedApiPrefixes handlerFunc body s =
     foldEither (\<lambda>error. (errorResponse (field body ''id'') error, s))
       (\<lambda>validReq. parseValidRequest hx handlerFunc validReq s)
       (rpcValidation supportedApiPrefixes body)"

definition rpcRequest ::
  "hex_lib \<Rightarrow> string list \<Rightarrow> 's handlers \<Rightarrow> string option \<Rightarrow> json_object \<Rightarrow> 's \<Rightarrow> js \<times> 's" where
  "rpcRequest hx supportedApiPrefixes handlerFunc contentType body s =
     (if contentType \<noteq> Some ''application/json'' then (invalidRequest Null ''Invalid content type'', s)
      else validateRequest hx supportedApiPrefixes handlerFunc body s)"

section \<open>Dispatch\<close>

text \<open>What the middleware lets through.\<close>

definition wellFormed :: "string list \<Rightarrow> json_object \<Rightarrow> bool" where
  "wellFormed prefixes body \<longleftrightarrow>
     field body ''jsonrpc'' = Str ''2.0'' \<and> (is_Str (field body ''id'') \<or> is_Num (field body ''id'')) \<and>
     is_Arr (field body ''params'') \<and> is_Str (field body ''method'') \<and>
     (let prefix = nameSpacePrefix (js_str (field body ''method'')) in prefix \<noteq> [] \<and> prefix \<in> set prefixes)"

definition request_params :: "json_object \<Rightarrow> js list" where
  "request_params body = (case field body ''params'' of Arr ps \<Rightarrow> ps | _ \<Rightarrow> [])"

definition dispatches :: "string list \<Rightarrow> string option \<Rightarrow> json_object \<Rightarrow> rpc_method \<Rightarrow> bool" where
  "dispatches prefixes contentType body m \<longleftrightarrow> contentType = Some ''application/json'' \<and>
     wellFormed prefixes body \<and> handlerRegistry (js_str (field body ''method'')) = Some m \<and>
     validationFunc m (request_params body)"

lemma wellFormed_iff: "rpcValidation prefixes body = Right r \<longleftrightarrow> r = body \<and> wellFormed prefixes body"
proof -
  have str: "is_Str v \<Longrightarrow> js_truthy v \<longleftrightarrow> js_str v \<noteq> []" for v by (cases v) auto
  have arr: "is_Arr v \<Longrightarrow> js_truthy v" for v by (cases v) auto
  have und: "is_Str v \<Longrightarrow> v \<noteq> Undefined" "is_Num v \<Longrightarrow> v \<noteq> Undefined" for v by auto
  have pre: "nameSpacePrefix [] = []" by (simp add: nameSpacePrefix_def)
  show ?thesis
    by (auto simp: rpcValidation_def requestChecks_def isValidRpc_def isValidMethodString_def
        requestIdNotMissing_def idTypeStringOrNumber_def paramsIsArray_def apiEnabled_def wellFormed_def
        Let_def str arr pre und split: if_splits)
qed

lemma wellFormed_string:
  "wellFormed prefixes body \<Longrightarrow> field body ''method'' = Str (js_str (field body ''method''))"
  by (cases "field body ''method''") (auto simp: wellFormed_def)

text \<open>The checks only ever pass the request on or fail, so they are a chain of the interface.\<close>

lemma request_checks_pass_or_fail:
  assumes "f \<in> set (requestChecks prefixes)"
  shows "f x = Right x \<or> isLeft (f x)"
  using assms
  by (auto simp: requestChecks_def isValidRpc_def isValidMethodString_def requestIdNotMissing_def
      idTypeStringOrNumber_def paramsIsArray_def apiEnabled_def Let_def split: if_splits)

lemma rpcValidation_total: "rpcValidation prefixes body = Right body \<or> isLeft (rpcValidation prefixes body)"
  unfolding rpcValidation_def by (rule either_chain.chain_pass_or_fail) (rule request_checks_pass_or_fail)

definition dispatched :: "string list \<Rightarrow> string option \<Rightarrow> json_object \<Rightarrow> rpc_method option" where
  "dispatched prefixes contentType body =
     (if contentType = Some ''application/json'' \<and> wellFormed prefixes body
      then (case handlerRegistry (js_str (field body ''method'')) of
              Some m \<Rightarrow> if validationFunc m (request_params body) then Some m else None
            | None \<Rightarrow> None)
      else None)"

lemma dispatched_iff: "dispatched prefixes contentType body = Some m \<longleftrightarrow> dispatches prefixes contentType body m"
  by (auto simp: dispatched_def dispatches_def split: option.splits)

lemma rpcParsed_wellFormed:
  assumes "wellFormed prefixes body"
  shows "rpcParsed body =
     (let method = js_str (field body ''method''); params = request_params body in
      case handlerRegistry method of
        None \<Rightarrow> Left (RpcError (''Method '' @ method @ '' is not supported'') InvalidRequest)
      | Some h \<Rightarrow>
          if validationFunc h params
          then Right \<lparr>vq_id = field body ''id'', vq_method = method, vq_handler = h, vq_params = params\<rparr>
          else Left (RpcError (''Invalid params for method '' @ method) InvalidFields))"
  using wellFormed_string [OF assms, symmetric]
  by (simp add: rpcParsed_def transformRequest_def isParamsValid_def request_params_def Let_def
      split: option.splits)

text \<open>Every rejection of the checks carries the code of an invalid request.\<close>

lemma check_code: "f \<in> set (requestChecks prefixes) \<Longrightarrow> f x = Left e \<Longrightarrow> err_code e = InvalidRequest"
  by (auto simp: requestChecks_def isValidRpc_def isValidMethodString_def requestIdNotMissing_def
      idTypeStringOrNumber_def paramsIsArray_def apiEnabled_def notEnabled_def Let_def split: if_splits)

lemma chain_code:
  assumes "foldl flatMap r fs = Left e" and "\<And>f x e. f \<in> set fs \<Longrightarrow> f x = Left e \<Longrightarrow> err_code e = c"
    and "\<And>e. r = Left e \<Longrightarrow> err_code e = c"
  shows "err_code e = c"
  using assms
proof (induction fs arbitrary: r)
  case (Cons f fs)
  show ?case
    by (rule Cons.IH [of "flatMap r f"]) (use Cons.prems in \<open>auto, cases r, auto\<close>)
qed simp

lemma rpcValidation_code: "rpcValidation prefixes body = Left e \<Longrightarrow> err_code e = InvalidRequest"
  unfolding rpcValidation_def by (erule chain_code) (auto dest: check_code)

definition response_code :: "js \<Rightarrow> int option" where
  "response_code r =
     (case r of
        Obj fs \<Rightarrow> (case field fs ''error'' of
            Obj e \<Rightarrow> (case field e ''code'' of Num c \<Rightarrow> Some c | _ \<Rightarrow> None)
          | _ \<Rightarrow> None)
      | _ \<Rightarrow> None)"

lemma response_code_error [simp]: "response_code (errorResponse i e) = Some (err_code e)"
  by (simp add: response_code_def errorResponse_def field_def)

lemma postRpc_runs_handler:
  "postRpc hx hs req s =
     (case hs (vq_handler req) (vq_params req) s of
        (Inr v, t) \<Rightarrow> (foldEither (errorResponse (vq_id req)) (\<lambda>x. x) (handled hx (vq_id req) v), t)
      | (Inl e, t) \<Rightarrow> (errorResponse (vq_id req) (unknownError e), t))"
  by (simp add: postRpc_def doHandleRequest_def andThen_def split: prod.splits sum.splits)

lemma rpcRequest_dispatched:
  assumes "dispatched prefixes contentType body = Some m"
  shows "rpcRequest hx prefixes hs contentType body s =
     postRpc hx hs \<lparr>vq_id = field body ''id'', vq_method = js_str (field body ''method''), vq_handler = m,
       vq_params = request_params body\<rparr> s"
proof -
  have d: "contentType = Some ''application/json''" "wellFormed prefixes body"
      "handlerRegistry (js_str (field body ''method'')) = Some m" "validationFunc m (request_params body)"
    using assms by (auto simp: dispatched_iff dispatches_def)
  have v: "rpcValidation prefixes body = Right body" using d by (simp add: wellFormed_iff)
  show ?thesis
    using d by (simp add: rpcRequest_def validateRequest_def parseValidRequest_def v rpcParsed_wellFormed Let_def)
qed

lemma rpcRequest_rejected:
  assumes "dispatched prefixes contentType body = None"
  shows "\<exists>e. rpcRequest hx prefixes hs contentType body s
       = (errorResponse (if contentType = Some ''application/json'' then field body ''id'' else Null) e, s)
     \<and> err_code e \<in> {InvalidRequest, InvalidFields}"
proof (cases "contentType = Some ''application/json''")
  case False
  then show ?thesis by (auto simp: rpcRequest_def invalidRequest_def)
next
  case json: True
  show ?thesis
  proof (cases "rpcValidation prefixes body")
    case (Left e)
    then show ?thesis using json by (auto simp: rpcRequest_def validateRequest_def rpcValidation_code)
  next
    case (Right r)
    then have r: "r = body" and w: "wellFormed prefixes body" by (auto simp: wellFormed_iff)
    obtain e where "rpcParsed body = Left e" and "err_code e \<in> {InvalidRequest, InvalidFields}"
      using assms w json by (auto simp: rpcParsed_wellFormed dispatched_def Let_def split: option.splits if_splits)
    then show ?thesis
      using json Right r by (auto simp: rpcRequest_def validateRequest_def parseValidRequest_def)
  qed
qed

text \<open>
  Property C9. A request reaches a method of the registry exactly when its content type is
  \<open>application/json\<close>, it is a JSON-RPC 2.0 request with an id and a parameter list whose method name
  has an enabled prefix, is registered, and accepts the parameters. The method then runs once, its
  state change is the whole state change, and its outcome (a value, an error value or an exception)
  decides the response. Every other request leaves the state as it is and is answered by an error
  with the code of an invalid request or of invalid fields.
\<close>

theorem request_runs_only_its_method:
  "case dispatched prefixes contentType body of
     Some m \<Rightarrow> rpcRequest hx prefixes hs contentType body s =
       (case hs m (request_params body) s of
          (Inr v, t) \<Rightarrow> (foldEither (errorResponse (field body ''id'')) (\<lambda>x. x)
                            (handled hx (field body ''id'') v), t)
        | (Inl e, t) \<Rightarrow> (errorResponse (field body ''id'') (unknownError e), t))
   | None \<Rightarrow> snd (rpcRequest hx prefixes hs contentType body s) = s
       \<and> response_code (fst (rpcRequest hx prefixes hs contentType body s))
           \<in> {Some InvalidRequest, Some InvalidFields}"
proof (cases "dispatched prefixes contentType body")
  case None
  from rpcRequest_rejected [OF None, of hx hs s] show ?thesis by (auto simp: None)
next
  case (Some m)
  then show ?thesis by (simp add: rpcRequest_dispatched [OF Some] postRpc_runs_handler split: prod.splits sum.splits)
qed

section \<open>The type of a response\<close>

text \<open>Values without numbers and functions: what \<open>deepHexlify\<close> produces.\<close>

fun hexlified :: "js \<Rightarrow> bool" where
  "hexlified (Num _) = False"
| "hexlified (BigNum _) = False"
| "hexlified Fn = False"
| "hexlified (Arr xs) = list_all hexlified xs"
| "hexlified (Obj fs) = list_all (\<lambda>(k, v). hexlified v) fs"
| "hexlified _ = True"

lemma deepHexlify_hexlified:
  "deepHexlify hx v = Inr w \<Longrightarrow> hexlified w"
  "hexlifyAll hx vs = Inr ws \<Longrightarrow> list_all hexlified ws"
  "hexlifyFields hx fs = Inr gs \<Longrightarrow> list_all (\<lambda>(k, v). hexlified v) gs"
  by (induction hx v and hx vs and hx fs arbitrary: w and ws and gs
      rule: deepHexlify_hexlifyAll_hexlifyFields.induct)
    (auto simp: bindX_def split: sum.splits)

fun error_object :: "js \<Rightarrow> bool" where
  "error_object (Obj [(c, Num _), (m, Str _), (d, _)]) = (c = ''code'' \<and> m = ''message'' \<and> d = ''data'')"
| "error_object _ = False"

fun response_typed :: "js \<Rightarrow> js \<Rightarrow> bool" where
  "response_typed i (Obj [(j, v), (k, i'), (r, x)]) =
     (j = ''jsonrpc'' \<and> v = Str ''2.0'' \<and> k = ''id'' \<and> i' = i \<and>
      (if r = ''result'' then hexlified x else r = ''error'' \<and> error_object x))"
| "response_typed i _ = False"

lemma errorResponse_typed [simp]: "response_typed i (errorResponse i e)"
  by (simp add: errorResponse_def)

lemma createSuccessResponse_typed:
  "createSuccessResponse hx i v = Right r \<Longrightarrow> response_typed i r"
  by (auto simp: createSuccessResponse_def deepHexlify_hexlified split: sum.splits)

lemma created_typed [simp]:
  "response_typed i (foldEither (errorResponse i) (\<lambda>x. x) (createSuccessResponse hx i v))"
  by (cases "createSuccessResponse hx i v") (simp_all add: createSuccessResponse_typed)

lemma handled_typed: "response_typed i (foldEither (errorResponse i) (\<lambda>x. x) (handled hx i v))"
proof (cases v)
  case (H_either e)
  then show ?thesis by (cases e) (simp_all add: handled_def)
qed (simp add: handled_def)


end
