(* ===== verification/Eth_Api.thy ===== *)
theory Eth_Api
  imports Mempool_Rules Bundle_Manager Audit_Queue Rpc
begin

text \<open>
  The methods of the \<open>eth\<close> namespace (\<open>src/apis/eth/eth-api.ts\<close>, \<open>eth-api.helpers.ts\<close>) as actions on
  the state of the node: the state of the bundle manager with the gas configuration and the audit
  queue. The chain (events, transactions, receipts), the ABI of the entry point and the clock are
  parameters. The fields of a request's operation are read with \<open>BigInt\<close> where the code first
  packs or compares them. A request that awaits a parameter is one action; its parts are separate
  definitions.
\<close>

section \<open>Configuration\<close>

record node_state = manager_state +
  node_gasConfig :: gas_config
  node_audit :: "audit_event audit_queue"

text \<open>A log of a receipt, and what the code reads of a transaction's receipt.\<close>

type_synonym receipt_log = "log_topics \<times> js"

record tx_receipt =
  rp_to :: js
  rp_from :: js
  rp_contractAddress :: js
  rp_index :: js
  rp_root :: js
  rp_gasUsed :: js
  rp_logsBloom :: js
  rp_blockHash :: js
  rp_hash :: js
  rp_logs :: "receipt_log list"
  rp_blockNumber :: js
  rp_confirmations :: js
  rp_cumulativeGasUsed :: js
  rp_gasPrice :: js
  rp_type :: js
  rp_status :: js

record chain_tx =
  ct_to :: "string option"
  ct_hash :: string
  ct_blockHash :: "string option"
  ct_blockNumber :: "int option"
  ct_ops :: "packed_user_operation list option"

text \<open>
  A \<open>UserOperationEvent\<close> with its arguments; \<open>oe_receipt\<close> and \<open>oe_transaction\<close> are what
  \<open>getTransactionReceipt\<close> and \<open>getTransaction\<close> return, or throw. \<open>ct_ops\<close> is \<open>args.ops\<close> of the
  transaction's parsed call data.
\<close>

record op_event =
  oe_topics :: log_topics
  oe_sender :: string
  oe_nonce :: int
  oe_actualGasCost :: int
  oe_actualGasUsed :: int
  oe_success :: bool
  oe_receipt :: "exn + tx_receipt"
  oe_transaction :: "exn + chain_tx"

record eth_config =
  ea_validation :: validation_config
  ea_mempool :: mempool_config
  ea_audit :: audit_logger_deps
  ea_entryPoint :: string
  ea_chainId :: int
  ea_eip7702Support :: bool
  ea_encode_getUserOpHash :: "packed_user_operation \<Rightarrow> exn + js"
  ea_now :: int
  ea_timestamp :: string
  ea_queryUserOperationEvent :: "string \<Rightarrow> op_event chain_log list"
  ea_beforeExecution :: "string option"
  ea_number_of :: "js \<Rightarrow> int"

abbreviation ea_network :: "eth_config \<Rightarrow> network" where
  "ea_network cfg \<equiv> vl_network (ea_validation cfg)"

abbreviation ea_hex :: "eth_config \<Rightarrow> hex_lib" where
  "ea_hex cfg \<equiv> sl_hex (vl_sim (ea_validation cfg))"

section \<open>Helpers\<close>

text \<open>The \<open>preVerificationGas\<close> of an estimate is a double.\<close>

record gas_estimate =
  ge_preVerificationGas :: rat
  ge_verificationGasLimit :: int
  ge_callGasLimit :: int
  ge_validAfter :: "int option"
  ge_validUntil :: "int option"

definition extractVerificationGasLimit ::
  "gas_estimate \<Rightarrow> (rpc_error, execution_result) either \<Rightarrow> (rpc_error, gas_estimate) either" where
  "extractVerificationGasLimit estimate executionResult =
     foldEither (\<lambda>error. Left error)
       (\<lambda>res. Right (estimate\<lparr>ge_validAfter := Some (er_validAfter res),
          ge_validUntil := Some (er_validUntil res), ge_verificationGasLimit := er_preOpGas res\<rparr>))
       executionResult"

definition extractCallGasLimit ::
  "gas_estimate \<Rightarrow> (rpc_error, int) either \<Rightarrow> (rpc_error, gas_estimate) either" where
  "extractCallGasLimit estimate callGasResult =
     foldEither (\<lambda>error. Left error)
       (\<lambda>callGasLimit. Right (estimate\<lparr>ge_callGasLimit := callGasLimit - 21000\<rparr>)) callGasResult"

definition EIP_7702_MARKER_CODE :: string where
  "EIP_7702_MARKER_CODE = ''0xef0100''"

text \<open>
  The hash is computed by the entry point; where the operation has an authorization, the sender's
  code is overridden by the marker followed by the delegate.
\<close>

definition hashOverride :: "hex_lib \<Rightarrow> json_object \<Rightarrow> exn + js" where
  "hashOverride hx userOp =
     (let auth = field userOp ''eip7702Auth'' in
      if nullish auth then Inr Null
      else bindX (hexConcat hx [EIP_7702_MARKER_CODE, js_str (field (obj_fields auth) ''address'')])
        (\<lambda>deployedDelegateCode.
          Inr (Obj [(js_str (field userOp ''sender''), Obj [(''code'', Str deployedDelegateCode)])])))"

definition getUserOpHashWithCode ::
  "eth_config \<Rightarrow> json_object \<Rightarrow> (network_call_error, string) either_x" where
  "getUserOpHashWithCode cfg userOp =
     bindX (hashOverride (ea_hex cfg) userOp) (\<lambda>stateOverride.
     bindX (gas_operation userOp) (\<lambda>op.
     bindX (packUserOp (ea_hex cfg) op) (\<lambda>packed.
     bindX (ea_encode_getUserOpHash cfg packed) (\<lambda>data.
       Inr (either_map js_str (send (ea_network cfg) ''eth_call''
         [Obj [(''to'', Str (ea_entryPoint cfg)), (''data'', data)], Str ''latest'', stateOverride]))))))"

section \<open>Estimating gas\<close>

text \<open>\<open>{ maxFeePerGas: 0, ..., ...userOpInput }\<close>\<close>

definition estimateInput :: "js \<Rightarrow> js" where
  "estimateInput userOpInput = Obj (spread [(''maxFeePerGas'', Num 0), (''maxPriorityFeePerGas'', Num 0),
     (''preVerificationGas'', Num 21000), (''callGasLimit'', Num 10000000),
     (''verificationGasLimit'', Num 10000000)] (obj_fields userOpInput))"

definition authorization_list :: "json_object \<Rightarrow> js list" where
  "authorization_list userOp =
     (let a = field userOp ''eip7702Auth'' in if nullish a then [] else [a])"

definition no_estimate :: gas_estimate where
  "no_estimate = \<lparr>ge_preVerificationGas = 0, ge_verificationGasLimit = 0, ge_callGasLimit = 0,
     ge_validAfter = None, ge_validUntil = None\<rparr>"

definition estimateReady ::
  "eth_config \<Rightarrow> gas_config \<Rightarrow> js \<Rightarrow> json_object \<Rightarrow> (rpc_error, gas_estimate) either_x" where
  "estimateReady cfg gasConfig stateOverride userOp =
     bindX (gas_operation userOp) (\<lambda>op.
     bindX (simulateHandleOp (ea_network cfg) (vl_sim (ea_validation cfg)) (vl_io (ea_validation cfg)) op
              stateOverride) (\<lambda>executionResult.
     let callGasLimit = estimateGas (ea_network cfg) (ea_number_of cfg) (ea_entryPoint cfg)
           (js_str (field userOp ''sender'')) (field userOp ''callData'') (authorization_list userOp)
     in bindX (estimatePreVerificationGas (vl_gas (ea_validation cfg)) gasConfig op
                 (Some (preVerificationGas op)) None no_options) (\<lambda>pvg.
        Inr (flatMap (flatMap (Right (no_estimate\<lparr>ge_preVerificationGas := pvg\<rparr>))
               (\<lambda>estimate. extractCallGasLimit estimate callGasLimit))
             (\<lambda>estimate. extractVerificationGasLimit estimate executionResult)))))"

definition estimateUserOperationGas ::
  "eth_config \<Rightarrow> js \<Rightarrow> string \<Rightarrow> js \<Rightarrow> ('z node_state_scheme, (rpc_error, gas_estimate) either) act" where
  "estimateUserOperationGas cfg userOpInput entryPointInput stateOverride =
     (\<lambda>s. (bindX (deepHexlify (ea_hex cfg) (estimateInput userOpInput)) (\<lambda>input.
           flatMapX (validateInputParameters (ea_validation cfg) (node_gasConfig s)
               \<lparr>ip_userOpInput = input, ip_entryPointInput = entryPointInput,
                ip_entryPointAddress = ea_entryPoint cfg, ip_eip7702Support = ea_eip7702Support cfg\<rparr>
               True True False)
             (estimateReady cfg (node_gasConfig s) stateOverride)), s))"

section \<open>Sending an operation\<close>

definition lifecycle_logged ::
  "eth_config \<Rightarrow> lifecycle_stage \<Rightarrow> string \<Rightarrow> js \<Rightarrow> js \<Rightarrow> audit_event audit_queue \<Rightarrow> audit_event audit_queue" where
  "lifecycle_logged cfg stage userOpHash userOpInput details = logUserOpLifecycleEvent (ea_audit cfg) (ea_timestamp cfg)
     \<lparr>ai_lifecycleStage = stage, ai_chainId = ea_chainId cfg, ai_userOp = userOpInput,
      ai_userOpHash = userOpHash, ai_entryPoint = ea_entryPoint cfg, ai_details = details\<rparr>"

definition logLifecycle ::
  "eth_config \<Rightarrow> lifecycle_stage \<Rightarrow> string \<Rightarrow> js \<Rightarrow> js \<Rightarrow> ('z node_state_scheme, unit) act" where
  "logLifecycle cfg stage userOpHash userOpInput details =
     (\<lambda>s. (Inr (), s\<lparr>node_audit := lifecycle_logged cfg stage userOpHash userOpInput details (node_audit s)\<rparr>))"

definition rejectOp ::
  "eth_config \<Rightarrow> string \<Rightarrow> js \<Rightarrow> rpc_error \<Rightarrow> ('z node_state_scheme, (rpc_error, string) either) act" where
  "rejectOp cfg userOpHash userOpInput error =
     andThen (logLifecycle cfg userOpRejected userOpHash userOpInput (Obj [(''reason'', Str (err_msg error))]))
       (\<lambda>_. ret (Left error))"

definition sendInput ::
  "eth_config \<Rightarrow> js \<Rightarrow> string \<Rightarrow> ('z node_state_scheme, (rpc_error, json_object) either) act" where
  "sendInput cfg userOpInput entryPointInput =
     (\<lambda>s. (validateInputParameters (ea_validation cfg) (node_gasConfig s)
        \<lparr>ip_userOpInput = userOpInput, ip_entryPointInput = entryPointInput,
         ip_entryPointAddress = ea_entryPoint cfg, ip_eip7702Support = ea_eip7702Support cfg\<rparr> True True True, s))"

definition sendValidated ::
  "eth_config \<Rightarrow> json_object \<Rightarrow> ('z node_state_scheme, (rpc_error, user_operation \<times> validate_user_op_result) either) act" where
  "sendValidated cfg userOp =
     (\<lambda>s. (bindX (to_user_operation userOp) (\<lambda>op.
        bindX (validateUserOp (ea_validation cfg) (node_gasConfig s) (ea_now cfg) op None)
          (\<lambda>r. Inr (either_map (\<lambda>res. (op, res)) r))), s))"

definition relayParam :: "user_operation \<Rightarrow> string \<Rightarrow> validate_user_op_result \<Rightarrow> relay_user_op_param" where
  "relayParam userOp userOpHash res = \<lparr>rl_userOp = userOp, rl_userOpHash = userOpHash,
     rl_prefund = ri_prefund (vr_returnInfo res),
     rl_referencedContracts = Some (vr_referencedContracts res), rl_senderInfo = Some (vr_senderInfo res),
     rl_paymasterInfo = vr_paymasterInfo res, rl_factoryInfo = vr_factoryInfo res,
     rl_aggregatorInfo = vr_aggregatorInfo res\<rparr>"

definition relayOp ::
  "eth_config \<Rightarrow> string \<Rightarrow> js \<Rightarrow> relay_user_op_param \<Rightarrow> ('z node_state_scheme, (rpc_error, string) either) act" where
  "relayOp cfg userOpHash userOpInput relayUserOpParam =
     andThen (addUserOp (ea_mempool cfg) relayUserOpParam)
       (foldAsync (\<lambda>error. rejectOp cfg userOpHash userOpInput error)
         (\<lambda>hash. andThen (logLifecycle cfg userOpIncludedInMempool userOpHash userOpInput Undefined)
           (\<lambda>_. ret (Right hash))))"

definition sendUserOperation ::
  "eth_config \<Rightarrow> js \<Rightarrow> string \<Rightarrow> ('z node_state_scheme, (rpc_error, string) either) act" where
  "sendUserOperation cfg userOpInput entryPointInput =
     andThen (logLifecycle cfg userOpReceived ''0x0'' userOpInput Undefined)
     (\<lambda>_. andThen (sendInput cfg userOpInput entryPointInput) (foldAsync
       (\<lambda>error. rejectOp cfg ''0x0'' userOpInput error)
       (\<lambda>userOp. andThen (liftE (getUserOpHashWithCode cfg userOp)) (foldAsync
         (\<lambda>error. rejectOp cfg ''0x0'' userOpInput (RpcError (nc_message error) InternalError))
         (\<lambda>userOpHash. andThen (sendValidated cfg userOp) (foldAsync
           (\<lambda>error. rejectOp cfg userOpHash userOpInput error)
           (\<lambda>(op, res). relayOp cfg userOpHash userOpInput (relayParam op userOpHash res))))))))"

section \<open>Looking up operations\<close>

definition invalidHash :: rpc_error where
  "invalidHash = RpcError ''Missing/invalid userOpHash'' InvalidFields"

text \<open>The fields of the receipt as the response names them.\<close>

definition receipt_js :: "tx_receipt \<Rightarrow> js" where
  "receipt_js r = Obj [(''to'', rp_to r), (''from'', rp_from r), (''contractAddress'', rp_contractAddress r),
     (''transactionIndex'', rp_index r), (''root'', rp_root r), (''gasUsed'', rp_gasUsed r),
     (''logsBloom'', rp_logsBloom r), (''blockHash'', rp_blockHash r), (''transactionHash'', rp_hash r),
     (''logs'', Arr (map snd (rp_logs r))), (''blockNumber'', rp_blockNumber r),
     (''confirmations'', rp_confirmations r), (''cumulativeGasUsed'', rp_cumulativeGasUsed r),
     (''effectiveGasPrice'', rp_gasPrice r), (''type'', rp_type r), (''status'', rp_status r)]"

definition user_operation_receipt :: "string \<Rightarrow> op_event \<Rightarrow> tx_receipt \<Rightarrow> receipt_log list \<Rightarrow> js" where
  "user_operation_receipt userOpHash event receipt logs = Obj [(''userOpHash'', Str userOpHash),
     (''sender'', Str (oe_sender event)), (''nonce'', BigNum (oe_nonce event)),
     (''actualGasCost'', BigNum (oe_actualGasCost event)), (''actualGasUsed'', BigNum (oe_actualGasUsed event)),
     (''success'', Bool (oe_success event)), (''logs'', Arr (map snd logs)), (''receipt'', receipt_js receipt)]"

definition getUserOperationReceipt :: "eth_config \<Rightarrow> string \<Rightarrow> (rpc_error, js) either_x" where
  "getUserOperationReceipt cfg userOpHash =
     (if \<not> matches_HEX_REGEX userOpHash then LeftX invalidHash
      else case getUserOperationEvent (ea_queryUserOperationEvent cfg) userOpHash of
        None \<Rightarrow> RightX Null
      | Some event \<Rightarrow> bindX (oe_receipt event) (\<lambda>receipt.
          foldEither (\<lambda>error. LeftX (RpcError error (-32000)))
            (\<lambda>logs. RightX (user_operation_receipt userOpHash event receipt logs))
            (filterLogsBy fst (ea_beforeExecution cfg) (oe_topics event) (rp_logs receipt))))"

record by_hash_response =
  bh_userOperation :: user_operation
  bh_entryPoint :: string
  bh_transactionHash :: string
  bh_blockHash :: string
  bh_blockNumber :: int

definition cannotParse :: rpc_error where
  "cannotParse = RpcError ''unable to parse transaction'' (-32000)"

definition getUserOperationByHash ::
  "eth_config \<Rightarrow> string \<Rightarrow> (rpc_error, by_hash_response option) either_x" where
  "getUserOperationByHash cfg userOpHash =
     (if \<not> matches_HEX_REGEX userOpHash then LeftX invalidHash
      else case getUserOperationEvent (ea_queryUserOperationEvent cfg) userOpHash of
        None \<Rightarrow> RightX None
      | Some event \<Rightarrow> bindX (oe_transaction event) (\<lambda>tx.
          if ct_to tx \<noteq> Some (ea_entryPoint cfg) then LeftX cannotParse
          else case ct_ops tx of
            None \<Rightarrow> LeftX cannotParse
          | Some ops \<Rightarrow>
              case List.find (\<lambda>op. pk_sender op = oe_sender event \<and> pk_nonce op = oe_nonce event) ops of
                None \<Rightarrow> LeftX (RpcError ''unable to find userOp in transaction'' (-32000))
              | Some op \<Rightarrow> bindX (unpackUserOp (ea_hex cfg) op) (\<lambda>userOperation.
                  RightX (Some \<lparr>bh_userOperation = userOperation, bh_entryPoint = ea_entryPoint cfg,
                    bh_transactionHash = ct_hash tx, bh_blockHash = (case ct_blockHash tx of None \<Rightarrow> [] | Some h \<Rightarrow> h),
                    bh_blockNumber = (case ct_blockNumber tx of None \<Rightarrow> 0 | Some n \<Rightarrow> n)\<rparr>))))"

definition getChainId :: "eth_config \<Rightarrow> int" where
  "getChainId cfg = nw_chainId (ea_network cfg)"

definition getSupportedEntryPoints :: "eth_config \<Rightarrow> string list" where
  "getSupportedEntryPoints cfg = [ea_entryPoint cfg]"

section \<open>What sending an operation does\<close>

lemma add_keeps:
  fixes P :: "'z State_scheme \<Rightarrow> bool"
  assumes pool: "\<And>s po co. P s \<Longrightarrow> P (s\<lparr>standardPool := po, mempoolEntryCount := co\<rparr>)"
    and seen: "\<And>rep a act. keeps P (updateSeenStatus rep a act)"
  shows "keeps P (addUserOp cfg r)"
proof -
  have "keeps P (updateSeenStatusOp ag op rep si act)" for ag op rep si act
    by (rule keeps_updateSeenStatusOp) (rule seen)
  then have "keeps P (addUserOp_commit cfg r res)" for res
    by (cases res)
      (auto simp: addUserOp_commit_def split: option.split
        intro!: keeps_andThen keeps_updatePoolAndCount pool)
  then show ?thesis unfolding addUserOp_def by (intro keeps_andThen) auto
qed

lemma add_keeps_frame:
  fixes P :: "'z State_scheme \<Rightarrow> bool"
  assumes "\<And>s po co. P s \<Longrightarrow> P (s\<lparr>standardPool := po, mempoolEntryCount := co\<rparr>)"
    and "\<And>s es. P s \<Longrightarrow> P (s\<lparr>reputationEntries := es\<rparr>)"
  shows "keeps P (addUserOp cfg r)"
  by (rule add_keeps) (simp_all add: assms reputation_actions_keep_pool(1))

lemma add_keeps_audit [simp]: "node_audit (snd (addUserOp cfg r s)) = node_audit s"
  using keepsD [OF add_keeps_frame [where P = "\<lambda>t. node_audit t = node_audit s"], of s cfg r] by simp

lemma rejectOp_run:
  "rejectOp cfg h input e s = (Inr (Left e), s\<lparr>node_audit :=
     lifecycle_logged cfg userOpRejected h input (Obj [(''reason'', Str (err_msg e))]) (node_audit s)\<rparr>)"
  by (simp add: rejectOp_def logLifecycle_def andThen_def)

lemma relayOp_run:
  "relayOp cfg h input r s =
     (case addUserOp (ea_mempool cfg) r s of
        (Inl e, t) \<Rightarrow> (Inl e, t)
      | (Inr (Left e), t) \<Rightarrow> rejectOp cfg h input e t
      | (Inr (Right h'), t) \<Rightarrow> (Inr (Right h'), t\<lparr>node_audit :=
          lifecycle_logged cfg userOpIncludedInMempool h input Undefined (node_audit t)\<rparr>))"
  by (simp add: relayOp_def andThen_def logLifecycle_def split: prod.split sum.split either.split)

text \<open>The stages of a request, each on the state after the first event.\<close>

definition received :: "eth_config \<Rightarrow> js \<Rightarrow> 'z node_state_scheme \<Rightarrow> 'z node_state_scheme" where
  "received cfg input s =
     s\<lparr>node_audit := lifecycle_logged cfg userOpReceived ''0x0'' input Undefined (node_audit s)\<rparr>"

lemma received_simps [simp]:
  "node_gasConfig (received cfg input s) = node_gasConfig s" "standardPool (received cfg input s) = standardPool s"
  "node_audit (received cfg input s) = lifecycle_logged cfg userOpReceived ''0x0'' input Undefined (node_audit s)"
  by (simp_all add: received_def)

lemma sendUserOperation_run:
  "let s1 = received cfg input s in sendUserOperation cfg input ep s =
     (case fst (sendInput cfg input ep s1) of
        Inl e \<Rightarrow> (Inl e, s1)
      | Inr (Left e) \<Rightarrow> rejectOp cfg ''0x0'' input e s1
      | Inr (Right userOp) \<Rightarrow>
          (case getUserOpHashWithCode cfg userOp of
             Inl e \<Rightarrow> (Inl e, s1)
           | Inr (Left e) \<Rightarrow> rejectOp cfg ''0x0'' input (RpcError (nc_message e) InternalError) s1
           | Inr (Right h) \<Rightarrow>
               (case fst (sendValidated cfg userOp s1) of
                  Inl e \<Rightarrow> (Inl e, s1)
                | Inr (Left e) \<Rightarrow> rejectOp cfg h input e s1
                | Inr (Right (op, res)) \<Rightarrow> relayOp cfg h input (relayParam op h res) s1)))"
  by (simp add: Let_def received_def sendUserOperation_def andThen_def logLifecycle_def sendInput_def sendValidated_def
      liftE_def split: prod.split sum.split either.split)

lemma relayParam_simps [simp]:
  "rl_userOp (relayParam op h res) = op" "rl_userOpHash (relayParam op h res) = h"
  by (simp_all add: relayParam_def)

lemma either_map_Right_iff: "either_map f x = Right y \<longleftrightarrow> (\<exists>v. x = Right v \<and> y = f v)"
  by (cases x) auto

lemma addUserOp_hash: "fst (addUserOp cfg r s) = Inr (Right h) \<Longrightarrow> h = rl_userOpHash r"
  by (auto simp: addUserOp_run addUserOp_commit_def andThen_def split: sum.splits either.splits prod.splits)

lemma addUserOp_refused:
  assumes "mp_verify cfg (mp_stateCapability cfg)"
    and "rm_verify (mp_reputation cfg) (rm_stateCapability (mp_reputation cfg))"
    and "addUserOp cfg r s = (x, t)" and "\<And>h. x \<noteq> Inr (Right h)"
  shows "t = s"
  using addUserOp_effect [OF assms(1,2), of r s] assms(3,4) by (auto split: sum.splits either.splits)

text \<open>What an accepted operation went through, and where it is stored.\<close>

definition accepted_as ::
  "eth_config \<Rightarrow> gas_config \<Rightarrow> js \<Rightarrow> string \<Rightarrow> string \<Rightarrow> user_operation \<Rightarrow> validate_user_op_result \<Rightarrow> bool" where
  "accepted_as cfg gasConfig input ep h op res \<longleftrightarrow> (\<exists>userOp.
     validateInputParameters (ea_validation cfg) gasConfig
       \<lparr>ip_userOpInput = input, ip_entryPointInput = ep, ip_entryPointAddress = ea_entryPoint cfg,
        ip_eip7702Support = ea_eip7702Support cfg\<rparr> True True True = RightX userOp \<and>
     getUserOpHashWithCode cfg userOp = RightX h \<and> to_user_operation userOp = Inr op \<and>
     validateUserOp (ea_validation cfg) gasConfig (ea_now cfg) op None = RightX res)"

definition storedEntry :: "user_operation \<Rightarrow> string \<Rightarrow> validate_user_op_result \<Rightarrow> mempool_entry" where
  "storedEntry op h res = \<lparr>me_userOp = op, me_userOpHash = h, me_prefund = ri_prefund (vr_returnInfo res),
     me_referencedContracts = Some (vr_referencedContracts res), me_status = pending,
     me_aggregator = map_option si_addr (vr_aggregatorInfo res)\<rparr>"

definition replacing :: "user_operation \<Rightarrow> standard_pool \<Rightarrow> standard_pool" where
  "replacing op po = (case findBySenderNonce (sender op) (nonce op) po of
     None \<Rightarrow> po | Some old \<Rightarrow> AList.delete (me_userOpHash old) po)"

lemma send_accepts:
  assumes "mp_verify (ea_mempool cfg) (mp_stateCapability (ea_mempool cfg))"
    and "rm_verify (mp_reputation (ea_mempool cfg)) (rm_stateCapability (mp_reputation (ea_mempool cfg)))"
    and "sendUserOperation cfg input ep s = (Inr (Right h), t)"
  shows "\<exists>op res. accepted_as cfg (node_gasConfig s) input ep h op res \<and>
     standardPool t = AList.update h (storedEntry op h res) (replacing op (standardPool s))"
proof -
  let ?s = "received cfg input s"
  from assms(3) sendUserOperation_run [of cfg input s ep] obtain userOp op res h' where
    i: "fst (sendInput cfg input ep ?s) = Inr (Right userOp)" "getUserOpHashWithCode cfg userOp = RightX h'"
      "fst (sendValidated cfg userOp ?s) = Inr (Right (op, res))"
      "relayOp cfg h' input (relayParam op h' res) ?s = (Inr (Right h), t)"
    by (auto simp: Let_def rejectOp_run split: sum.splits either.splits)
  from i(4) obtain t' where t': "addUserOp (ea_mempool cfg) (relayParam op h' res) ?s = (Inr (Right h), t')"
    "standardPool t = standardPool t'"
    by (auto simp: relayOp_run rejectOp_run split: prod.splits sum.splits either.splits)
  from t'(1) have h: "h = h'"
    using addUserOp_hash [of "ea_mempool cfg" "relayParam op h' res" ?s h] by simp
  from i(3) have "to_user_operation userOp = Inr op"
    "validateUserOp (ea_validation cfg) (node_gasConfig s) (ea_now cfg) op None = RightX res"
    by (auto simp: sendValidated_def either_map_Right_iff elim!: bindX_InrE)
  moreover have "standardPool t = AList.update h (fst (incomingEntry (relayParam op h' res)))
       (case findBySenderNonce (sender op) (nonce op) (standardPool s) of
          None \<Rightarrow> standardPool s
        | Some old \<Rightarrow> AList.delete (me_userOpHash old) (standardPool s))"
    using addUserOp_effect [OF assms(1,2), of "relayParam op h' res" ?s] t' by (simp cong: option.case_cong)
  ultimately show ?thesis
    using i(1,2) h
    by (auto simp: accepted_as_def storedEntry_def replacing_def sendInput_def incomingEntry_def relayParam_def)
qed

text \<open>
  An operation that \<open>eth_sendUserOperation\<close> accepts passed the validation of its
  parameters, the simulation and the checks of its result; what is stored is exactly this operation
  under the hash the entry point computed, pending, with what validation found, in place of the
  pool's entry of the same sender and nonce if there is one. In safe mode this makes every
  operation that enters the pool through the API one that validation accepted.
\<close>

theorem sent_operation_was_validated:
  assumes "mp_verify (ea_mempool cfg) (mp_stateCapability (ea_mempool cfg))"
    and "rm_verify (mp_reputation (ea_mempool cfg)) (rm_stateCapability (mp_reputation (ea_mempool cfg)))"
    and "sendUserOperation cfg input ep s = (Inr (Right h), t)"
  shows "\<exists>op res. accepted_as cfg (node_gasConfig s) input ep h op res \<and>
     standardPool t = AList.update h (storedEntry op h res) (replacing op (standardPool s))"
  using assms by (rule send_accepts)

text \<open>A request throws, is rejected, or is relayed, always on the state after its first event.\<close>

lemma send_outcomes:
  obtains (thrown) e where "sendUserOperation cfg input ep s = (Inl e, received cfg input s)"
  | (rejected) h e where "sendUserOperation cfg input ep s = rejectOp cfg h input e (received cfg input s)"
  | (relayed) h op res where "sendUserOperation cfg input ep s
      = relayOp cfg h input (relayParam op h res) (received cfg input s)"
  using sendUserOperation_run [of cfg input s ep, unfolded Let_def]
  by (simp split: sum.splits either.splits prod.splits)

lemma relayOp_audit:
  "relayOp cfg h input r s = (x, t) \<Longrightarrow> rl_userOpHash r = h \<Longrightarrow> node_audit t = (case x of
     Inl e \<Rightarrow> node_audit s
   | Inr (Left e) \<Rightarrow> lifecycle_logged cfg userOpRejected h input (Obj [(''reason'', Str (err_msg e))]) (node_audit s)
   | Inr (Right h') \<Rightarrow> lifecycle_logged cfg userOpIncludedInMempool h' input Undefined (node_audit s))"
  using add_keeps_audit [of "ea_mempool cfg" r s] addUserOp_hash [of "ea_mempool cfg" r s]
  by (auto simp: relayOp_run rejectOp_run split: prod.splits sum.splits either.splits simp del: add_keeps_audit)

lemma relayOp_refused:
  assumes "mp_verify (ea_mempool cfg) (mp_stateCapability (ea_mempool cfg))"
    and "rm_verify (mp_reputation (ea_mempool cfg)) (rm_stateCapability (mp_reputation (ea_mempool cfg)))"
    and "relayOp cfg h input r s = (x, t)" and "\<And>h. x \<noteq> Inr (Right h)"
  shows "\<exists>q. t = s\<lparr>node_audit := q\<rparr>"
proof -
  obtain y t' where a: "addUserOp (ea_mempool cfg) r s = (y, t')" by fastforce
  have same: "t' = s" if "\<And>h. y \<noteq> Inr (Right h)" by (rule addUserOp_refused [OF assms(1,2) a that])
  show ?thesis
  proof (cases y)
    case (Inl e)
    with assms(3) a same have "t = s\<lparr>node_audit := node_audit s\<rparr>" by (simp add: relayOp_run)
    then show ?thesis ..
  next
    case (Inr z)
    with assms(3,4) a same show ?thesis by (cases z) (auto simp: relayOp_run rejectOp_run)
  qed
qed


section \<open>A request that is accepted\<close>

definition demo_request :: json_object where
  "demo_request = [(''sender'', Str ''0xab''), (''nonce'', Str ''0x0''), (''callData'', Str ''0x''),
     (''callGasLimit'', Str ''0x1''), (''verificationGasLimit'', Str ''0x0''),
     (''preVerificationGas'', Str ''0xc350''), (''maxFeePerGas'', Str ''0x1''),
     (''maxPriorityFeePerGas'', Str ''0x1''), (''signature'', Str ''0x'')]"

definition demo_sent :: user_operation where
  "demo_sent = (demo_op ''0xab'' 0 None 1)\<lparr>preVerificationGas := 50000\<rparr>"

definition demo_unsafe :: validation_config where
  "demo_unsafe = demo_validator\<lparr>vl_isUnsafeMode := True,
     vl_network := demo_network\<lparr>nw_send := (\<lambda>_ _. Inr (Str ''0x01''))\<rparr>, vl_io := (vl_io demo_validator)
     \<lparr>io_decode_simulateValidation := (\<lambda>_. Inr (demo_sim_struct
        \<lparr>sv_accountValidationData := 0, sv_paymasterValidationData := 0\<rparr>))\<rparr>\<rparr>"

lemma demo_digits:
  "BigInt_x ''0xc350'' = Inr 50000" "BigInt_x ''0x0'' = Inr 0" "BigInt_x ''0x1'' = Inr 1"
proof -
  have "hex_digits ''c350''" "hex_digits ''0''" "hex_digits ''1''" by code_simp+
  moreover have "digit_value CHR ''c'' = 12" "digit_value CHR ''3'' = 3" "digit_value CHR ''5'' = 5"
    "digit_value CHR ''0'' = 0" "digit_value CHR ''1'' = 1" by code_simp+
  ultimately show "BigInt_x ''0xc350'' = Inr 50000" "BigInt_x ''0x0'' = Inr 0" "BigInt_x ''0x1'' = Inr 1"
    using BigInt_hex [of "''c350''"] BigInt_hex [of "''0''"] BigInt_hex [of "''1''"]
    by (simp_all add: digits_value_def)
qed

lemma demo_reads: "to_user_operation demo_request = Inr demo_sent" "gas_operation demo_request = Inr demo_sent"
  by (simp_all add: to_user_operation_def gas_operation_def demo_request_def field_def demo_digits opt_BigInt_def opt_str_def nullish_def
    to_authorization_def demo_sent_def demo_op_def)

definition demo_result :: validate_user_op_result where
  "demo_result = with_trace \<lparr>vr_returnInfo = \<lparr>ri_preOpGas = 100, ri_prefund = 200, ri_sigFailed = False,
       ri_validAfter = 0, ri_validUntil = Some MAX_UNIT_48\<rparr>,
     vr_senderInfo = no_stake ''0xab'', vr_factoryInfo = None, vr_paymasterInfo = None,
     vr_paymasterContext = None, vr_aggregatorInfo = None\<rparr> \<lparr>rc_addresses = [], rc_hash = []\<rparr> []"

lemma demo_sent_gas:
  assumes "op = demo_sent \<or> op = demo_sent\<lparr>paymasterData := Some ''0x''\<rparr>"
  shows "calculate demo_gas_lib MAINNET_CONFIG op no_options = Inr 38110"
proof -
  have u: "uint128 0" "uint128 1" by (simp_all add: uint128_def)
  have "encodeUserOp (gl_hex demo_gas_lib) (gl_abi demo_gas_lib) (Unpacked op) False = Inr ''0x0001''"
    using assms packUint_ok [OF reference.ethers_hex_axioms u] packUint_ok [OF reference.ethers_hex_axioms u(2,2)]
    by (auto simp: encodeUserOp_def encodePacked_def demo_gas_lib_def packUserOp_def
        packPaymasterAndData_def packInitCode_def demo_op_def demo_sent_def)
  moreover have "gl_getBytes demo_gas_lib ''0x0001'' = Inr [0, 1]" "gl_getBytes demo_gas_lib (callData op) = Inr []"
    "opGasUsed op = 0" "authGas op = 0" "callGasLimit op = 1" "paymasterPostOpGasLimit op = None"
    using assms by (auto simp: demo_gas_lib_def demo_op_def demo_sent_def opGasUsed_def authGas_def nullish_or_def)
  moreover have "mainnet_formula (tokens [0, 1]) (words []) 0 0 = 38110" by code_simp
  ultimately show ?thesis
    using mainnet_calculation [of demo_gas_lib op "''0x0001''" "[0, 1]" "[]"]
    by (simp add: nullish_or_def EXECUTE_USEROP_METHOD_SIG_def)
qed

definition demo_eth :: eth_config where
  "demo_eth = \<lparr>ea_validation = demo_unsafe, ea_mempool = demo_mempool 5,
     ea_audit = \<lparr>ad_clientVersion = ''1'', ad_nodeCommitHash = ''c'', ad_environment = ''production'',
       ad_auditTrailEnabled = False\<rparr>,
     ea_entryPoint = ''0xe'', ea_chainId = 1, ea_eip7702Support = True,
     ea_encode_getUserOpHash = (\<lambda>_. Inr Null), ea_now = 50, ea_timestamp = ''t'',
     ea_queryUserOperationEvent = (\<lambda>_. []), ea_beforeExecution = None, ea_number_of = (\<lambda>_. 0)\<rparr>"

definition demo_node :: node_state where
  "demo_node = event_state.extend (demo_event_state\<lparr>reputationEntries := []\<rparr>)
     \<lparr>bundleMode = manual_mode, bundleInterval = None, node_gasConfig = MAINNET_CONFIG,
      node_audit = createAuditLogQueue 4\<rparr>"

lemma demo_checkGas: "checkPreVerificationGas demo_unsafe MAINNET_CONFIG demo_request = Inr ()"
proof -
  have gas: "vl_gas demo_unsafe = demo_gas_lib"
    by (simp add: demo_unsafe_def demo_validator_def)
  have "fillUserOpWithDummyData demo_gas_lib MAINNET_CONFIG demo_sent (Some (preVerificationGas demo_sent))
      (Some (signature demo_sent)) = demo_sent\<lparr>paymasterData := Some ''0x''\<rparr>"
    by (simp add: fillUserOpWithDummyData_def demo_gas_lib_def demo_sent_def nullish_or_def demo_op_def)
  then have "estimatePreVerificationGas demo_gas_lib MAINNET_CONFIG demo_sent (Some (preVerificationGas demo_sent))
      (Some (signature demo_sent)) no_options = Inr 38110"
    by (simp only: estimatePreVerificationGas_def) (rule demo_sent_gas, simp)
  moreover have "validatePreVerificationGas demo_gas_lib MAINNET_CONFIG demo_sent no_options = Inr (True, 38110)"
  proof -
    have "Number_of (preVerificationGas demo_sent) = 50000"
      by (simp add: demo_sent_def Number_of_exact)
    with demo_sent_gas [of demo_sent] show ?thesis by (simp add: validatePreVerificationGas_def)
  qed
  ultimately show ?thesis
    by (simp add: checkPreVerificationGas_def gas demo_reads)
qed

lemma demo_validInput:
  "validateInputParameters demo_unsafe MAINNET_CONFIG \<lparr>ip_userOpInput = Obj demo_request, ip_entryPointInput = ''0xE'',
     ip_entryPointAddress = ''0xe'', ip_eip7702Support = True\<rparr> True True True = RightX demo_request"
proof -
  have "checkFields demo_request (requiredFields True True) = Right demo_request"
    "checkDependentFields demo_request = Inr ()" "toLowerCase ''0xE'' = toLowerCase ''0xe''"
    by code_simp+
  then show ?thesis
    by (simp add: validateInputParameters_def obj_fields_def nullish_def demo_checkGas)
qed

lemma demo_sent_packs: "\<exists>p. packUserOp hex_reference demo_sent = Inr p"
proof -
  have u: "uint128 0" "uint128 1" by (simp_all add: uint128_def)
  then show ?thesis
    using packUint_ok [OF reference.ethers_hex_axioms u] packUint_ok [OF reference.ethers_hex_axioms u(2,2)]
    by (simp add: packUserOp_def packPaymasterAndData_def packInitCode_def demo_op_def demo_sent_def)
qed

lemma demo_sent_validated: "validateUserOp demo_unsafe MAINNET_CONFIG 50 demo_sent None = RightX demo_result"
proof -
  have "case parseSimulateValidationResult hex_reference demo_sent (demo_sim_struct
      \<lparr>sv_accountValidationData := 0, sv_paymasterValidationData := 0\<rparr>) of
      Inl _ \<Rightarrow> False | Inr (vr, known) \<Rightarrow> known \<and> with_trace vr \<lparr>rc_addresses = [], rc_hash = []\<rparr> [] = demo_result"
    by code_simp
  moreover have "checkValidationResult 50 demo_result True = RightX demo_result" by code_simp
  moreover have "vl_isUnsafeMode demo_unsafe" "eip7702Auth demo_sent = None"
    "vl_sim demo_unsafe = demo_sim_lib" "sl_hex demo_sim_lib = hex_reference"
    "send (vl_network demo_unsafe) m ps = Right (Str ''0x01'')"
    "io_decode_simulateValidation (vl_io demo_unsafe) r = Inr (demo_sim_struct
       \<lparr>sv_accountValidationData := 0, sv_paymasterValidationData := 0\<rparr>)" for m ps r
    by (simp_all add: demo_unsafe_def demo_validator_def demo_sent_def demo_sim_lib_def send_def)
  moreover obtain p where "packUserOp hex_reference demo_sent = Inr p" using demo_sent_packs ..
  ultimately show ?thesis
    by (auto simp: validateUserOp_def checkCodeHashes_def checkAuthorizationList_def getAuthorizationList_def
        simulateUnsafe_def partialSimulateValidation_def split: sum.splits)
qed

lemma demo_sent_hash: "getUserOpHashWithCode demo_eth demo_request = RightX ''0x01''"
proof -
  have "hashOverride (ea_hex demo_eth) demo_request = Inr Null" by code_simp
  moreover have "ea_hex demo_eth = hex_reference" "ea_encode_getUserOpHash demo_eth p = Inr Null"
    "send (ea_network demo_eth) m ps = Right (Str ''0x01'')" for p m ps
    by (simp_all add: demo_eth_def demo_unsafe_def demo_validator_def demo_sim_lib_def send_def)
  ultimately show ?thesis
    using demo_sent_packs by (auto simp: getUserOpHashWithCode_def demo_reads)
qed

lemma demo_sent_added:
  assumes "standardPool s = []" and "mempoolEntryCount s = []" and "reputationEntries s = []"
    and "whiteList s = []" and "blackList s = []"
  shows "\<exists>t. addUserOp (demo_mempool 5) (relayParam demo_sent ''0x01'' demo_result) s = (Inr (Right ''0x01''), t)"
proof -
  let ?r = "relayParam demo_sent ''0x01'' demo_result"
  have "fst (addUserOp_checks (demo_mempool 5) ?r s) = Inr (Right (incomingEntry ?r))"
    by (simp add: checks_eval assms relayParam_def demo_result_def with_trace_def validation_result.defs
      validate_user_op_result.defs demo_sent_def no_stake_def)
  with addUserOp_commit_run [where cfg = "demo_mempool 5" and r = ?r and em = "incomingEntry ?r" and s = s]
  show ?thesis by (auto simp: addUserOp_run)
qed

lemma demo_node_empty [simp]:
  "standardPool demo_node = []" "mempoolEntryCount demo_node = []" "reputationEntries demo_node = []"
  "whiteList demo_node = []" "blackList demo_node = []" "node_gasConfig demo_node = MAINNET_CONFIG"
  "node_audit demo_node = createAuditLogQueue 4"
  by (simp_all add: demo_node_def demo_event_state_def demo_cron_state_def
    demo_state_def initialState_def State.defs reputation_state.defs event_state.defs)

lemma demo_send: "\<exists>t. sendUserOperation demo_eth (Obj demo_request) ''0xE'' demo_node = (Inr (Right ''0x01''), t)"
proof -
  have cfg: "ea_validation demo_eth = demo_unsafe" "ea_mempool demo_eth = demo_mempool 5" "ea_now demo_eth = 50"
    "ea_entryPoint demo_eth = ''0xe''" "ea_eip7702Support demo_eth"
    by (simp_all add: demo_eth_def)
  have "fst (sendInput demo_eth (Obj demo_request) ''0xE'' s) = RightX demo_request"
    "fst (sendValidated demo_eth demo_request s) = Inr (Right (demo_sent, demo_result))"
    if "node_gasConfig s = MAINNET_CONFIG" for s :: node_state
    using that demo_validInput demo_sent_validated
    by (simp_all add: sendInput_def sendValidated_def demo_reads cfg)
  moreover have "\<exists>t. addUserOp (demo_mempool 5) (relayParam demo_sent ''0x01'' demo_result)
      (received demo_eth (Obj demo_request) demo_node) = (Inr (Right ''0x01''), t)"
    by (rule demo_sent_added) (simp_all add: received_def)
  ultimately show ?thesis
    using cfg demo_sent_hash sendUserOperation_run [of demo_eth "Obj demo_request" demo_node "''0xE''"]
    by (auto simp: Let_def relayOp_run)
qed

theorem sent_operation_was_validated_witness:
  "\<exists>t e. sendUserOperation demo_eth (Obj demo_request) ''0xE'' demo_node = (Inr (Right ''0x01''), t) \<and>
     standardPool t = [(''0x01'', e)] \<and> me_status e = pending"
proof -
  obtain t where t: "sendUserOperation demo_eth (Obj demo_request) ''0xE'' demo_node = (Inr (Right ''0x01''), t)"
    using demo_send by blast
  have "ea_mempool demo_eth = demo_mempool 5" by (simp add: demo_eth_def)
  with sent_operation_was_validated [OF _ _ t] t show ?thesis
    by (auto simp: findBySenderNonce_def replacing_def storedEntry_def)
qed


section \<open>Looking up what was sent\<close>

lemma packUserOp_key: "packUserOp hx op = Inr p \<Longrightarrow> pk_sender p = sender op \<and> pk_nonce p = nonce op"
  by (auto simp: packUserOp_def elim!: bindX_InrE)

lemma find_packed:
  assumes "packUserOps hx ops = Inr ps" and "List.find (\<lambda>op. sender op = a \<and> nonce op = n) ops = Some op"
  shows "\<exists>p. List.find (\<lambda>p. pk_sender p = a \<and> pk_nonce p = n) ps = Some p \<and> packUserOp hx op = Inr p"
  using assms
  by (induction ops arbitrary: ps) (auto elim!: bindX_InrE dest: packUserOp_key split: if_splits)

text \<open>
  Property C34. \<open>eth_getUserOperationByHash\<close> answers with the operation that was sent: if the
  transaction of the event called the entry point with the packed operations of a bundle, the
  answer is the first of them with the sender and nonce of the event, up to what packing cannot
  carry (case, absent data, the EIP-7702 authorization), with the transaction's hash and block.
\<close>

theorem by_hash_returns_the_sent_operation:
  assumes "ethers_hex (ea_hex cfg)" and "matches_HEX_REGEX h"
    and "ea_queryUserOperationEvent cfg h = Decoded event # evs"
    and "oe_transaction event = Inr tx" and "ct_to tx = Some (ea_entryPoint cfg)"
    and "packUserOps (ea_hex cfg) ops = Inr packed" and "ct_ops tx = Some packed"
    and "List.find (\<lambda>op. sender op = oe_sender event \<and> nonce op = oe_nonce event) ops = Some op"
    and "packable op"
  shows "getUserOperationByHash cfg h = RightX (Some \<lparr>bh_userOperation = canonicalOp op,
     bh_entryPoint = ea_entryPoint cfg, bh_transactionHash = ct_hash tx,
     bh_blockHash = (case ct_blockHash tx of None \<Rightarrow> [] | Some b \<Rightarrow> b),
     bh_blockNumber = (case ct_blockNumber tx of None \<Rightarrow> 0 | Some n \<Rightarrow> n)\<rparr>)"
proof -
  from find_packed [OF assms(6,8)] obtain p where
    p: "List.find (\<lambda>p. pk_sender p = oe_sender event \<and> pk_nonce p = oe_nonce event) packed = Some p"
      "packUserOp (ea_hex cfg) op = Inr p" by blast
  from unpackUserOp_ok [OF assms(1,9) p(2)] p(1) assms(2-5,7) show ?thesis
    by (simp add: getUserOperationByHash_def getUserOperationEvent_def)
qed

definition demo_op_event :: op_event where
  "demo_op_event = \<lparr>oe_topics = [], oe_sender = sender demo_packed_op, oe_nonce = 7, oe_actualGasCost = 1,
     oe_actualGasUsed = 1, oe_success = True, oe_receipt = Inl (ErrorExn []),
     oe_transaction = Inr \<lparr>ct_to = Some ''0xe'', ct_hash = ''0x02'', ct_blockHash = None, ct_blockNumber = Some 9,
       ct_ops = (case packUserOps hex_reference [demo_packed_op] of Inr ps \<Rightarrow> Some ps | _ \<Rightarrow> None)\<rparr>\<rparr>"

theorem by_hash_returns_the_sent_operation_witness:
  "getUserOperationByHash (demo_eth\<lparr>ea_queryUserOperationEvent := (\<lambda>_. [Decoded demo_op_event])\<rparr>) ''0xaa''
     = RightX (Some \<lparr>bh_userOperation = canonicalOp demo_packed_op, bh_entryPoint = ''0xe'',
         bh_transactionHash = ''0x02'', bh_blockHash = [], bh_blockNumber = 9\<rparr>)"
proof -
  let ?cfg = "demo_eth\<lparr>ea_queryUserOperationEvent := (\<lambda>_. [Decoded demo_op_event])\<rparr>"
  have ok: "packable demo_packed_op" "matches_HEX_REGEX ''0xaa''" by code_simp+
  have hx: "ea_hex ?cfg = hex_reference" "ea_entryPoint ?cfg = ''0xe''"
    by (simp_all add: demo_eth_def demo_unsafe_def demo_validator_def demo_sim_lib_def)
  obtain p where p: "packUserOps hex_reference [demo_packed_op] = Inr [p]"
    using packUserOp_ok [OF reference.ethers_hex_axioms ok(1)] by auto
  let ?tx = "\<lparr>ct_to = Some ''0xe'', ct_hash = ''0x02'', ct_blockHash = None, ct_blockNumber = Some 9, ct_ops = Some [p]\<rparr>"
  have "oe_transaction demo_op_event = Inr ?tx" by (simp add: demo_op_event_def p del: packUserOps.simps)
  moreover have "nonce demo_packed_op = 7" "oe_nonce demo_op_event = 7"
    "oe_sender demo_op_event = sender demo_packed_op"
    by (simp_all add: demo_packed_op_def demo_op_event_def)
  ultimately show ?thesis
    using by_hash_returns_the_sent_operation [of ?cfg "''0xaa''" demo_op_event "[]" ?tx "[demo_packed_op]" "[p]"
        demo_packed_op] reference.ethers_hex_axioms ok hx p by simp
qed

end
