(* ===== verification/Debug_Api.thy ===== *)
theory Debug_Api
  imports Eth_Api
begin

text \<open>
  The \<open>debug\<close> and \<open>web3\<close> namespaces (\<open>src/apis/debug-api.ts\<close>, \<open>web3-api.ts\<close>) and the handlers of the
  registry (\<open>handlerFunc\<close> in \<open>src/rpc/bundler-handler-registry.ts\<close>): every method of the server as an
  action on the state of the node, with its parameters read from the request and its result as a
  JSON value.
\<close>

section \<open>The debug API\<close>

record debug_config =
  dc_manager :: manager_config
  dc_reputation :: reputation_config
  dc_mempool :: mempool_config
  dc_hex :: hex_lib
  dc_getUserOpHash :: "packed_user_operation \<Rightarrow> exn + string"

definition ok :: string where "ok = ''ok''"

definition setBundleInterval :: "('z node_state_scheme, string) act" where
  "setBundleInterval = ret ok"

definition debug_clearState :: "debug_config \<Rightarrow> ('z node_state_scheme, string) act" where
  "debug_clearState cfg =
     andThen (mp_clearState (dc_mempool cfg)) (\<lambda>_. andThen (rep_clearState (dc_reputation cfg)) (\<lambda>_. ret ok))"

definition dumpMempool :: "debug_config \<Rightarrow> ('z node_state_scheme, user_operation list) act" where
  "dumpMempool cfg = mp_dump (dc_mempool cfg)"

definition clearMempool :: "debug_config \<Rightarrow> ('z node_state_scheme, string) act" where
  "clearMempool cfg = andThen (mp_clearState (dc_mempool cfg)) (\<lambda>_. ret ok)"

definition debug_setBundlingMode :: "debug_config \<Rightarrow> bundle_mode \<Rightarrow> ('z node_state_scheme, string) act" where
  "debug_setBundlingMode cfg mode = andThen (setBundlingMode (dc_manager cfg) mode) (\<lambda>_. ret ok)"

definition sendBundleNow :: "debug_config \<Rightarrow> ('z node_state_scheme, bundle_return) act" where
  "sendBundleNow cfg =
     andThen (doAttemptBundle (dc_manager cfg) True)
       (\<lambda>result. andThen (handlePastEvents (bm_events (dc_manager cfg))) (\<lambda>_. ret result))"

definition debug_setReputation ::
  "debug_config \<Rightarrow> reputation_entry list \<Rightarrow> ('z node_state_scheme, string) act" where
  "debug_setReputation cfg reputations =
     andThen (setReputation (dc_reputation cfg) reputations) (\<lambda>_. ret ok)"

text \<open>
  \<open>addUserOps\<close> passes null for the information on the sender and for the referenced contracts; the
  result of \<open>addUserOp\<close>, an \<open>Either\<close>, is not looked at.
\<close>

definition debugParam :: "user_operation \<Rightarrow> string \<Rightarrow> relay_user_op_param" where
  "debugParam userOp userOpHash = \<lparr>rl_userOp = userOp, rl_userOpHash = userOpHash, rl_prefund = 0,
     rl_referencedContracts = None, rl_senderInfo = None, rl_paymasterInfo = None, rl_factoryInfo = None,
     rl_aggregatorInfo = None\<rparr>"

definition addOne :: "debug_config \<Rightarrow> json_object \<Rightarrow> ('z node_state_scheme, unit) act" where
  "addOne cfg userOp =
     andThen (liftE (bindX (gas_operation userOp) (\<lambda>op.
                bindX (packUserOp (dc_hex cfg) op) (\<lambda>packed.
                bindX (dc_getUserOpHash cfg packed) (\<lambda>userOpHash.
                bindX (to_user_operation userOp) (\<lambda>userOp. Inr (userOp, userOpHash)))))))
       (\<lambda>(userOp, userOpHash). andThen (addUserOp (dc_mempool cfg) (debugParam userOp userOpHash)) (\<lambda>_. ret ()))"

definition addUserOps :: "debug_config \<Rightarrow> json_object list \<Rightarrow> ('z node_state_scheme, string) act" where
  "addUserOps cfg userOps = andThen (for_each userOps (addOne cfg)) (\<lambda>_. ret ok)"

definition dumpReputation :: "debug_config \<Rightarrow> ('z node_state_scheme, reputation_entry list) act" where
  "dumpReputation cfg = dump (dc_reputation cfg)"

definition clearReputation :: "debug_config \<Rightarrow> ('z node_state_scheme, string) act" where
  "clearReputation cfg = andThen (rep_clearState (dc_reputation cfg)) (\<lambda>_. ret ok)"

definition debug_getStakeStatus :: "debug_config \<Rightarrow> string \<Rightarrow> string \<Rightarrow> stake_info \<times> bool" where
  "debug_getStakeStatus cfg address entryPointAddress = getStakeStatus (dc_reputation cfg) address"

definition setGasConfig :: "partial_gas_config \<Rightarrow> ('z node_state_scheme, string) act" where
  "setGasConfig config =
     andThen (\<lambda>s. (Inr (), s\<lparr>node_gasConfig := updateGasConfig config (node_gasConfig s)\<rparr>)) (\<lambda>_. ret ok)"

definition clientVersion :: "string \<Rightarrow> string" where
  "clientVersion version = ''transeptor/'' @ version"

section \<open>Parameters and results as JSON\<close>

definition str_param :: "js list \<Rightarrow> nat \<Rightarrow> string" where
  "str_param params i = (if js_truthy (param params i) then js_str (param params i) else [])"

definition array_param :: "js list \<Rightarrow> nat \<Rightarrow> js list" where
  "array_param params i = (case param params i of Arr xs \<Rightarrow> xs | _ \<Rightarrow> [])"

definition opt_js :: "('a \<Rightarrow> js) \<Rightarrow> 'a option \<Rightarrow> js" where
  "opt_js f x = (case x of None \<Rightarrow> Undefined | Some v \<Rightarrow> f v)"

definition user_operation_js :: "user_operation \<Rightarrow> js" where
  "user_operation_js op = Obj [(''sender'', Str (sender op)), (''nonce'', BigNum (nonce op)),
     (''factory'', opt_js Str (factory op)), (''factoryData'', opt_js Str (factoryData op)),
     (''callData'', Str (callData op)), (''callGasLimit'', BigNum (callGasLimit op)),
     (''verificationGasLimit'', BigNum (verificationGasLimit op)),
     (''preVerificationGas'', BigNum (preVerificationGas op)),
     (''maxFeePerGas'', BigNum (maxFeePerGas op)), (''maxPriorityFeePerGas'', BigNum (maxPriorityFeePerGas op)),
     (''paymaster'', opt_js Str (paymaster op)),
     (''paymasterVerificationGasLimit'', opt_js BigNum (paymasterVerificationGasLimit op)),
     (''paymasterPostOpGasLimit'', opt_js BigNum (paymasterPostOpGasLimit op)),
     (''paymasterData'', opt_js Str (paymasterData op)), (''signature'', Str (signature op)),
     (''eip7702Auth'', opt_js authorization_js (eip7702Auth op))]"

definition by_hash_js :: "by_hash_response \<Rightarrow> js" where
  "by_hash_js r = Obj [(''userOperation'', user_operation_js (bh_userOperation r)),
     (''entryPoint'', Str (bh_entryPoint r)), (''transactionHash'', Str (bh_transactionHash r)),
     (''blockHash'', Str (bh_blockHash r)), (''blockNumber'', Num (bh_blockNumber r))]"

text \<open>
  \<open>toBeHex\<close> of a number with a fraction throws, which \<open>createSuccessResponse\<close> turns into an error;
  numbers of the model's JSON are integers, so that error is made here.
\<close>

definition estimate_js :: "gas_estimate \<Rightarrow> (rpc_error, js) either" where
  "estimate_js g =
     (if of_int \<lfloor>ge_preVerificationGas g\<rfloor> = ge_preVerificationGas g
      then Right (Obj [(''preVerificationGas'', Num \<lfloor>ge_preVerificationGas g\<rfloor>),
             (''verificationGasLimit'', BigNum (ge_verificationGasLimit g)),
             (''callGasLimit'', Num (ge_callGasLimit g)), (''validAfter'', opt_js Num (ge_validAfter g)),
             (''validUntil'', opt_js Num (ge_validUntil g))])
      else Left (RpcErrorData ''Error hexlifying result'' InternalError (exn_js (ErrorExn ''underflow''))))"

definition reputation_js :: "reputation_entry \<Rightarrow> js" where
  "reputation_js r = Obj [(''address'', Str (re_address r)), (''opsSeen'', Num (opsSeen r)),
     (''opsIncluded'', Num (opsIncluded r)), (''status'', opt_js (\<lambda>st. Num (int (status_number st))) (re_status r))]"

text \<open>The fields \<open>setReputation\<close> reads of an entry of the request.\<close>

definition read_reputation :: "js \<Rightarrow> exn + reputation_entry" where
  "read_reputation v =
     (case field (obj_fields v) ''address'' of
        Str a \<Rightarrow> bindX (BigInt_js (field (obj_fields v) ''opsSeen'')) (\<lambda>seen.
                 bindX (BigInt_js (field (obj_fields v) ''opsIncluded'')) (\<lambda>incl.
                   Inr \<lparr>re_address = a, opsSeen = seen, opsIncluded = incl, re_status = None\<rparr>))
      | _ \<Rightarrow> Inl (TypeErrorExn ''rep.address.toLowerCase is not a function''))"

fun read_reputations :: "js list \<Rightarrow> exn + reputation_entry list" where
  "read_reputations [] = Inr []"
| "read_reputations (v # vs) = bindX (read_reputation v) (\<lambda>r. bindX (read_reputations vs) (\<lambda>rs. Inr (r # rs)))"

definition stake_status_js :: "stake_info \<times> bool \<Rightarrow> js" where
  "stake_status_js r = (case r of (info, staked) \<Rightarrow>
     Obj [(''stakeInfo'', Obj [(''addr'', Str (si_addr info)), (''stake'', Str (int_str (si_stake info))),
            (''unstakeDelaySec'', Str (int_str (si_unstakeDelaySec info)))]),
          (''isStaked'', Bool staked)])"

definition bundle_return_js :: "bundle_return \<Rightarrow> js" where
  "bundle_return_js r = Obj [(''transactionHash'', Str (fst r)), (''userOpHashes'', Arr (map Str (snd r)))]"

text \<open>
  The configuration of \<open>setGasConfig\<close>: the numbers and the flag that are there; values of another
  type, which the code would store as they are, are left out.
\<close>

definition rat_field :: "json_object \<Rightarrow> string \<Rightarrow> rat option" where
  "rat_field c k = (case field c k of Num n \<Rightarrow> Some (of_int n) | _ \<Rightarrow> None)"

definition nat_field :: "json_object \<Rightarrow> string \<Rightarrow> nat option" where
  "nat_field c k = (case field c k of Num n \<Rightarrow> Some (nat n) | _ \<Rightarrow> None)"

definition read_gas_config :: "js \<Rightarrow> partial_gas_config" where
  "read_gas_config v = (let c = obj_fields v in
     \<lparr>pg_transactionGasStipend = rat_field c ''transactionGasStipend'',
      pg_fixedGasOverhead = rat_field c ''fixedGasOverhead'',
      pg_perUserOpGasOverhead = rat_field c ''perUserOpGasOverhead'',
      pg_perUserOpWordGasOverhead = rat_field c ''perUserOpWordGasOverhead'',
      pg_executeUserOpGasOverhead = rat_field c ''executeUserOpGasOverhead'',
      pg_executeUserOpPerWordGasOverhead = rat_field c ''executeUserOpPerWordGasOverhead'',
      pg_standardTokenGasCost = rat_field c ''standardTokenGasCost'',
      pg_useEip7623 = (case field c ''useEip7623'' of Bool b \<Rightarrow> Some b | _ \<Rightarrow> None),
      pg_floorPerTokenGasCost = rat_field c ''floorPerTokenGasCost'',
      pg_tokensPerNonzeroByte = rat_field c ''tokensPerNonzeroByte'',
      pg_eip7702AuthGas = rat_field c ''eip7702AuthGas'',
      pg_expectedBundleSize = rat_field c ''expectedBundleSize'',
      pg_estimationSignatureSize = nat_field c ''estimationSignatureSize'',
      pg_estimationPaymasterDataSize = nat_field c ''estimationPaymasterDataSize''\<rparr>)"

section \<open>The handlers\<close>

definition value_of :: "('a \<Rightarrow> js) \<Rightarrow> ('s, 'a) act \<Rightarrow> ('s, handler_result) act" where
  "value_of f m = andThen m (\<lambda>x. ret (H_value (f x)))"

definition either_of :: "('a \<Rightarrow> js) \<Rightarrow> ('s, (rpc_error, 'a) either) act \<Rightarrow> ('s, handler_result) act" where
  "either_of f m = andThen m (\<lambda>x. ret (H_either (either_map f x)))"

text \<open>The answer \<open>ok\<close> for an attempt that had nothing to send.\<close>

definition bundle_answer :: "bundle_return \<Rightarrow> js" where
  "bundle_answer r = (if fst r = [] \<and> snd r = [] then Str ok else bundle_return_js r)"

fun bundlerHandlers :: "eth_config \<Rightarrow> debug_config \<Rightarrow> string \<Rightarrow> 'z node_state_scheme handlers" where
  "bundlerHandlers eth debug version web3_clientVersion params =
     ret (H_value (Str (clientVersion version)))"
| "bundlerHandlers eth debug version eth_chainId params = ret (H_value (Num (getChainId eth)))"
| "bundlerHandlers eth debug version eth_supportedEntryPoints params =
     ret (H_value (Arr (map Str (getSupportedEntryPoints eth))))"
| "bundlerHandlers eth debug version eth_sendUserOperation params =
     either_of Str (sendUserOperation eth (param params 0) (str_param params 1))"
| "bundlerHandlers eth debug version eth_estimateUserOperationGas params =
     andThen (estimateUserOperationGas eth (param params 0) (str_param params 1)
         (if js_truthy (param params 2) then param params 2 else Undefined))
       (\<lambda>r. ret (H_either (flatMap r estimate_js)))"
| "bundlerHandlers eth debug version eth_getUserOperationReceipt params =
     either_of (\<lambda>v. v) (liftE (getUserOperationReceipt eth (str_param params 0)))"
| "bundlerHandlers eth debug version eth_getUserOperationByHash params =
     either_of (\<lambda>r. case r of None \<Rightarrow> Null | Some x \<Rightarrow> by_hash_js x)
       (liftE (getUserOperationByHash eth (str_param params 0)))"
| "bundlerHandlers eth debug version debug_bundler_clearState params = value_of Str (debug_clearState debug)"
| "bundlerHandlers eth debug version debug_bundler_dumpMempool params =
     value_of (\<lambda>ops. Arr (map user_operation_js ops)) (dumpMempool debug)"
| "bundlerHandlers eth debug version debug_bundler_clearMempool params = value_of Str (clearMempool debug)"
| "bundlerHandlers eth debug version debug_bundler_sendBundleNow params =
     value_of bundle_answer (sendBundleNow debug)"
| "bundlerHandlers eth debug version debug_bundler_setBundlingMode params =
     value_of Str (debug_setBundlingMode debug
       (if str_param params 0 = ''auto'' then auto_mode else manual_mode))"
| "bundlerHandlers eth debug version debug_bundler_setBundleInterval params = value_of Str setBundleInterval"
| "bundlerHandlers eth debug version debug_bundler_setReputation params =
     value_of Str (andThen (liftE (read_reputations (array_param params 0))) (debug_setReputation debug))"
| "bundlerHandlers eth debug version debug_bundler_dumpReputation params =
     value_of (\<lambda>rs. Arr (map reputation_js rs)) (dumpReputation debug)"
| "bundlerHandlers eth debug version debug_bundler_clearReputation params = value_of Str (clearReputation debug)"
| "bundlerHandlers eth debug version debug_bundler_addUserOps params =
     value_of Str (addUserOps debug (map obj_fields (array_param params 0)))"
| "bundlerHandlers eth debug version debug_bundler_getStakeStatus params =
     ret (H_value (stake_status_js (debug_getStakeStatus debug (str_param params 0) (str_param params 1))))"
| "bundlerHandlers eth debug version debug_bundler_setConfiguration params =
     value_of Str (setGasConfig (read_gas_config (param params 0)))"

section \<open>Adding operations without validation\<close>

lemma checkReputation_null: "md_senderInfo md = None \<Longrightarrow> checkReputation rep co md s
     = (Inl (TypeErrorExn ''Cannot read properties of null (reading addr)''), s)"
  by (simp add: checkReputation_def checkSender_def)

lemma add_without_sender:
  assumes "findBySenderNonce (sender (rl_userOp r)) (nonce (rl_userOp r)) (standardPool s) = None"
    and "rl_senderInfo r = None"
  shows "\<exists>e. addUserOp cfg r s = (Inl e, s)"
proof -
  have "\<exists>e. fst (addUserOp_checks cfg r s) = Inl e"
    using assms checkPaymasterDeposit_state [of "mp_deposit cfg" "rl_userOp r" s]
    by (cases "checkPaymasterDeposit (mp_deposit cfg) (rl_userOp r) s")
      (auto simp: addUserOp_checks_def andThen_def getState_def pickKeys_def noKeys_def incomingEntry_def
        replaceOrAddUserOpChecks_def checkReputation_null Let_def split: sum.splits)
  then show ?thesis by (auto simp: addUserOp_run)
qed

text \<open>
  \<open>debug_bundler_addUserOps\<close>, documented to put operations into the pool without
  validation, cannot add one: it passes null for the information on the sender, which the
  reputation check of every operation that replaces nothing reads, so the request fails with an
  exception at the first such operation and leaves the state as it is.
\<close>

theorem debug_add_throws:
  assumes "to_user_operation userOp = Inr op"
    and "findBySenderNonce (sender op) (nonce op) (standardPool s) = None"
  shows "\<exists>e. addUserOps cfg (userOp # userOps) s = (Inl e, s)"
proof -
  have "\<exists>e. addUserOp (dc_mempool cfg) (debugParam op h) s = (Inl e, s)" for h
    by (rule add_without_sender) (simp_all add: debugParam_def assms(2))
  then obtain e where "\<And>h. addUserOp (dc_mempool cfg) (debugParam op h) s = (Inl (e h), s)" by metis
  then have "\<exists>e. addOne cfg userOp s = (Inl e, s)"
    using assms(1) by (auto simp: addOne_def andThen_def liftE_def bindX_def split: sum.splits)
  then show ?thesis by (auto simp: addUserOps_def andThen_def)
qed

theorem debug_add_throws_witness:
  "\<exists>e. addUserOps \<lparr>dc_manager = demo_manager, dc_reputation = demo_rep, dc_mempool = demo_mempool 5,
      dc_hex = hex_reference, dc_getUserOpHash = (\<lambda>_. Inr ''0x01'')\<rparr> [demo_request] demo_node = (Inl e, demo_node)"
  by (rule debug_add_throws [OF demo_reads(1)]) (simp add: findBySenderNonce_def)

end
