(* ===== verification/Audit_Trail.thy ===== *)
theory Audit_Trail
  imports Debug_Api
begin

text \<open>
  The audit trail of the bundle processor (\<open>handleAuditTrail\<close> of
  \<open>src/bundle/processor/bundle-processor.ts\<close>). The processor of \<open>Bundle_Processor\<close> works on the
  shared state, the audit queue is part of the node's; \<open>sendBundleAudited\<close> is \<open>sendBundle\<close> with the
  events it logs, between sending and the after hook, which does nothing after a success.
\<close>

definition submittedOnChain :: "user_operation list \<Rightarrow> string list \<Rightarrow> (user_operation \<times> string \<times> lifecycle_stage) list" where
  "submittedOnChain userOps hashes =
     map (\<lambda>index. (userOps ! index, if index < length hashes then hashes ! index else ''undefined'',
       userOpSubmittedOnChain)) [0..<length userOps]"

definition handleAuditTrail ::
  "eth_config \<Rightarrow> (user_operation \<times> string \<times> lifecycle_stage) list \<Rightarrow> ('z node_state_scheme, unit) act" where
  "handleAuditTrail cfg userOpsInBundler = for_each userOpsInBundler
     (\<lambda>(userOp, userOpHash, lifecycleStage).
        case lifecycleStage of
          userOpSubmittedOnChain \<Rightarrow> logLifecycle cfg lifecycleStage userOpHash (user_operation_js userOp) Undefined
        | _ \<Rightarrow> ret ())"

definition sendBundleAudited ::
  "eth_config \<Rightarrow> processor_config \<Rightarrow> user_operation list \<Rightarrow> eip7702_authorization list \<Rightarrow>
   ('z node_state_scheme, send_bundle_return) act" where
  "sendBundleAudited cfg pcfg userOps eip7702Tuples =
     (case attemptSend pcfg userOps eip7702Tuples of
        Inr hash \<Rightarrow> andThen (handleAuditTrail cfg (submittedOnChain userOps (bp_userOpHashes pcfg userOps)))
          (\<lambda>_. sendBundle pcfg userOps eip7702Tuples)
      | Inl e \<Rightarrow> sendBundle pcfg userOps eip7702Tuples)"

lemma handleAuditTrail_run:
  "handleAuditTrail cfg (submittedOnChain userOps hashes) s = (Inr (), s\<lparr>node_audit :=
     fold (\<lambda>(op, h, st). lifecycle_logged cfg st h (user_operation_js op) Undefined)
       (submittedOnChain userOps hashes) (node_audit s)\<rparr>)"
proof -
  let ?f = "\<lambda>(op, h, st). lifecycle_logged cfg st h (user_operation_js op) Undefined"
  have submitted: "snd (snd x) = userOpSubmittedOnChain" if "x \<in> set (submittedOnChain userOps hashes)" for x
    using that by (auto simp: submittedOnChain_def)
  have "handleAuditTrail cfg (submittedOnChain userOps hashes) s
      = (Inr (), fold (\<lambda>x s. s\<lparr>node_audit := ?f x (node_audit s)\<rparr>) (submittedOnChain userOps hashes) s)"
    unfolding handleAuditTrail_def
    by (rule for_each_fold) (use submitted in \<open>fastforce simp: logLifecycle_def split: prod.splits\<close>)
  moreover have "fold (\<lambda>x s. s\<lparr>node_audit := ?f x (node_audit s)\<rparr>) xs s
      = s\<lparr>node_audit := fold ?f xs (node_audit s)\<rparr>" for xs :: "(user_operation \<times> string \<times> lifecycle_stage) list"
    by (induction xs arbitrary: s) simp_all
  ultimately show ?thesis by simp
qed

text \<open>A sent bundle is logged operation by operation, in its order; nothing else of the state changes.\<close>

lemma sent_bundle_is_audited:
  assumes "attemptSend pcfg userOps tuples = Inr hash"
  shows "sendBundleAudited cfg pcfg userOps tuples s =
    (Inr \<lparr>sb_transactionHash = hash, sb_userOpHashes = bp_userOpHashes pcfg userOps, sb_signerIndex = 0,
       sb_isSendBundleSuccess = True\<rparr>,
     s\<lparr>node_audit := fold (\<lambda>(op, h, st). lifecycle_logged cfg st h (user_operation_js op) Undefined)
         (submittedOnChain userOps (bp_userOpHashes pcfg userOps)) (node_audit s)\<rparr>)"
  using assms
  by (simp add: sendBundleAudited_def sendBundle_def processorAfterHook_def andThen_def handleAuditTrail_run)

text \<open>A bundle that fails leaves no event; the audited run differs from the plain one in the log only.\<close>

lemma failed_bundle_is_not_audited:
  "attemptSend pcfg userOps tuples = Inl e \<Longrightarrow>
   sendBundleAudited cfg pcfg userOps tuples s = sendBundle pcfg userOps tuples s"
  by (simp add: sendBundleAudited_def)

section \<open>The hashes of a bundle\<close>

text \<open>
  \<open>getUserOpHashes\<close> runs a script on the node; \<open>deployData\<close> stands for the encoding of its constructor's
  arguments. Whatever goes wrong, the result is the empty list.
\<close>

definition getUserOpHashes ::
  "network \<Rightarrow> hex_lib \<Rightarrow> (packed_user_operation list \<Rightarrow> exn + string) \<Rightarrow> user_operation list \<Rightarrow> string list" where
  "getUserOpHashes nw hx deployData userOps =
     (case bindX (packUserOps hx userOps) (\<lambda>packed. bindX (deployData packed) (runContractScript nw)) of
        Inr (Some (Arr userOpHashes # _)) \<Rightarrow> map js_str userOpHashes
      | _ \<Rightarrow> [])"

lemma getUserOpHashes_failed:
  "packUserOps hx ops = Inr packed \<Longrightarrow> deployData packed = Inr tx \<Longrightarrow> runContractScript nw tx = Inl e \<Longrightarrow>
   getUserOpHashes nw hx deployData ops = []"
  by (simp add: getUserOpHashes_def)

text \<open>A sent bundle whose hashes cannot be had is audited under the hash \<open>undefined\<close>.\<close>

lemma missing_hashes_are_undefined:
  "getUserOpHashes nw hx deployData ops = [] \<Longrightarrow>
   submittedOnChain ops (getUserOpHashes nw hx deployData ops)
     = map (\<lambda>op. (op, ''undefined'', userOpSubmittedOnChain)) ops"
  by (rule nth_equalityI) (simp_all add: submittedOnChain_def)

text \<open>Otherwise every operation is audited under its own hash, when the script returns one for each.\<close>

lemma hashes_belong_to_operations:
  "length hashes = length ops \<Longrightarrow>
   submittedOnChain ops hashes = map (\<lambda>(op, h). (op, h, userOpSubmittedOnChain)) (zip ops hashes)"
  by (rule nth_equalityI) (simp_all add: submittedOnChain_def)

end
