(* ===== verification/Node.thy ===== *)
theory Node
  imports Audit_Trail
begin

text \<open>
  The node: everything that can happen to its state, as a step relation. A step is an RPC request,
  a run of the automatic bundler, an event of the chain, a firing of the hourly interval, or a step
  of the audit queue. The section on invariants shows that each keeps the invariants of the
  components together.
\<close>

section \<open>The invariant\<close>

text \<open>The automatic bundler runs exactly in automatic mode.\<close>

definition mode_ok :: "'z manager_state_scheme \<Rightarrow> bool" where
  "mode_ok s \<longleftrightarrow> (bundleMode s = auto_mode) = (bundleInterval s \<noteq> None)"

lemma mode_ok_simps [simp]:
  "mode_ok (s\<lparr>standardPool := po\<rparr>) = mode_ok s" "mode_ok (s\<lparr>mempoolEntryCount := co\<rparr>) = mode_ok s"
  "mode_ok (s\<lparr>reputationEntries := es\<rparr>) = mode_ok s" "mode_ok (s\<lparr>bundleTxs := txs\<rparr>) = mode_ok s"
  "mode_ok (s\<lparr>lastBlock := lb\<rparr>) = mode_ok s" "mode_ok (s\<lparr>eventAggregator := ag\<rparr>) = mode_ok s"
  "mode_ok (s\<lparr>eventAggregatorTxHash := th\<rparr>) = mode_ok s" "mode_ok (s\<lparr>cronSnapshot := sn\<rparr>) = mode_ok s"
  by (simp_all add: mode_ok_def)

text \<open>What the start of the node settles: the snapshot of the hourly interval and the two lists.\<close>

definition settled :: "'z reputation_state_scheme \<Rightarrow> reputation_entries option \<times> string list \<times> string list" where
  "settled s = (cronSnapshot s, whiteList s, blackList s)"

lemma settled_simps [simp]:
  "settled (s\<lparr>standardPool := po\<rparr>) = settled s" "settled (s\<lparr>mempoolEntryCount := co\<rparr>) = settled s"
  "settled (s\<lparr>reputationEntries := es\<rparr>) = settled s" "settled (s\<lparr>bundleTxs := txs\<rparr>) = settled s"
  by (simp_all add: settled_def)

lemma settled_closure [simp]:
  "settled (s\<lparr>lastBlock := lb\<rparr>) = settled s" "settled (s\<lparr>eventAggregator := ag\<rparr>) = settled s"
  "settled (s\<lparr>eventAggregatorTxHash := th\<rparr>) = settled s"
  by (simp_all add: settled_def)

interpretation with_mode: frame "\<lambda>s :: 'z manager_state_scheme. snapshot_ok s \<and> mode_ok s \<and> settled s = k" for k
  by unfold_locales (simp_all add: snapshot_ok_def)

definition node_ok ::
  "reputation_entries option \<times> string list \<times> string list \<Rightarrow> 'z manager_state_scheme \<Rightarrow> bool" where
  "node_ok k s \<longleftrightarrow> service_inv s \<and> snapshot_ok s \<and> mode_ok s \<and> settled s = k"

lemma node_ok_eq: "node_ok k = (\<lambda>s. service_inv s \<and> snapshot_ok s \<and> mode_ok s \<and> settled s = k)"
  by (simp add: node_ok_def fun_eq_iff)

section \<open>The components keep it\<close>

lemma keeps_node_pool:
  assumes "\<And>s :: 'z manager_state_scheme. pool_ok (standardPool s) \<Longrightarrow>
      pool_ok (fst (f (standardPool s) (mempoolEntryCount s)))"
  shows "keeps (node_ok k) (updatePoolAndCount cfg f :: ('z manager_state_scheme, bool) act)"
  by (rule keeps_updatePoolAndCount) (auto simp: node_ok_def service_inv_def snapshot_ok_def assms)

lemma keeps_node_entries:
  assumes "\<And>es. entries_ok es \<Longrightarrow> entries_ok (f es)"
  shows "keeps (node_ok k) (updateEntries cfg f)"
  by (rule keeps_updateEntries) (auto simp: node_ok_def service_inv_def snapshot_ok_def assms)

lemma node_keeps_clear: "keeps (node_ok k) (mp_clearState cfg)" "keeps (node_ok k) (rep_clearState rep)"
  unfolding mp_clearState_def rep_clearState_def
  by (intro keeps_andThen keeps_node_pool keeps_node_entries; simp add: pool_ok_def)+

lemma node_keeps_dump: "keeps (node_ok k) (dump rep)"
  unfolding dump_def
  by (intro keeps_andThen keeps_getState)
    (auto simp: keeps_def node_ok_def service_inv_def snapshot_ok_def Let_def dump_ok)

lemma node_keeps_setReputation:
  assumes "\<And>r. r \<in> set rs \<Longrightarrow> 0 \<le> opsSeen r \<and> 0 \<le> opsIncluded r"
  shows "keeps (node_ok k) (setReputation rep rs)"
  unfolding setReputation_def
  by (intro keeps_andThen node_keeps_dump keeps_node_entries entries_ok_spread givenEntries_ok)
    (use assms in \<open>auto intro: Number_of_nonneg\<close>)

lemma node_keeps_add: "keeps (node_ok k) (addUserOp cfg r)"
proof -
  have "keeps (\<lambda>s :: 'z manager_state_scheme. entries_ok (reputationEntries s)) (addUserOp cfg r)"
    by (rule add_keeps) (simp_all add: keeps_entries_ok_seen)
  moreover have "keeps (snapshot_ok :: 'z manager_state_scheme \<Rightarrow> bool) (addUserOp cfg r)"
    "keeps (mode_ok :: 'z manager_state_scheme \<Rightarrow> bool) (addUserOp cfg r)"
    "keeps (\<lambda>s :: 'z manager_state_scheme. settled s = k) (addUserOp cfg r)"
    by (rule add_keeps_frame; simp add: snapshot_ok_def mode_ok_def)+
  ultimately show ?thesis
    unfolding node_ok_eq service_inv_def by (intro keeps_conj add_keeps_pool_inv)
qed

lemmas node_keeps_bundling = with_mode.attempt_keep [folded node_ok_eq]
  with_mode.attempt_caught_keep [folded node_ok_eq] with_mode.events_keep [folded node_ok_eq]
  with_mode.event_keep [folded node_ok_eq]

lemma node_keeps_mode: "keeps (node_ok k) (setBundlingMode cfg mode)"
  by (rule keepsI) (auto simp: setBundlingMode_def startAutoBundler_def stopAutoBundler_def andThen_def
      node_ok_def service_inv_def snapshot_ok_def mode_ok_def settled_def split: bundle_mode.split)

lemma node_ok_closure [simp]:
  "node_ok k (s\<lparr>node_audit := q\<rparr>) = node_ok k s" "node_ok k (s\<lparr>node_gasConfig := g\<rparr>) = node_ok k s"
  by (simp_all add: node_ok_def service_inv_def snapshot_ok_def mode_ok_def settled_def)

section \<open>Every request keeps it\<close>

lemma node_keeps_log: "keeps (node_ok k) (logLifecycle cfg stage h input d)" "keeps (node_ok k) (rejectOp cfg h input e)"
  by (simp_all add: keeps_def logLifecycle_def rejectOp_run)

lemma node_keeps_relay: "keeps (node_ok k) (relayOp cfg h input r)"
  unfolding relayOp_def
proof (rule keeps_andThen [OF node_keeps_add])
  fix x
  show "keeps (node_ok k) (foldAsync (\<lambda>error. rejectOp cfg h input error)
      (\<lambda>hash. andThen (logLifecycle cfg userOpIncludedInMempool h input Undefined) (\<lambda>_. ret (Right hash))) x)"
    by (cases x) (auto intro!: node_keeps_log keeps_andThen)
qed

lemma node_keeps_send: "keeps (node_ok k) (sendUserOperation cfg input ep)"
proof (rule keepsI)
  fix s :: "'z node_state_scheme" assume "node_ok k s"
  then have "node_ok k (received cfg input s)" by (simp add: received_def)
  then show "node_ok k (snd (sendUserOperation cfg input ep s))"
    by (cases rule: send_outcomes [of cfg input ep s])
      (auto intro: keepsD [OF node_keeps_log(2)] keepsD [OF node_keeps_relay])
qed

lemma node_keeps_addUserOps: "keeps (node_ok k) (addUserOps cfg ops)"
  unfolding addUserOps_def addOne_def
  by (intro keeps_andThen keeps_for_each) (auto intro!: keeps_andThen node_keeps_add)

lemma node_keeps_gas: "keeps (node_ok k) (setGasConfig p)" "keeps (node_ok k) (estimateUserOperationGas cfg i e o')"
  by (auto simp: keeps_def setGasConfig_def estimateUserOperationGas_def andThen_def)

definition nonneg_counters :: "js list \<Rightarrow> bool" where
  "nonneg_counters params = (case read_reputations (array_param params 0) of
     Inl _ \<Rightarrow> True | Inr rs \<Rightarrow> list_all (\<lambda>r. 0 \<le> opsSeen r \<and> 0 \<le> opsIncluded r) rs)"

lemma handlers_keep:
  assumes "m = debug_bundler_setReputation \<Longrightarrow> nonneg_counters params"
  shows "keeps (node_ok k) (bundlerHandlers eth debug version m params :: ('z node_state_scheme, handler_result) act)"
proof (cases m)
  case debug_bundler_setReputation
  have "keeps (node_ok k) (debug_setReputation debug rs :: ('z node_state_scheme, string) act)"
    if "read_reputations (array_param params 0) = Inr rs" for rs
    using assms debug_bundler_setReputation that unfolding debug_setReputation_def
    by (intro keeps_andThen node_keeps_setReputation keeps_ret) (auto simp: nonneg_counters_def list_all_iff)
  then have "keeps (node_ok k) (andThen (liftE (read_reputations (array_param params 0))) (debug_setReputation debug)
      :: ('z node_state_scheme, string) act)"
    by (auto simp: keeps_def andThen_def liftE_def split: sum.split)
  then show ?thesis unfolding debug_bundler_setReputation by (simp add: value_of_def keeps_andThen)
qed (auto simp: value_of_def either_of_def debug_clearState_def dumpMempool_def mp_dump_def clearMempool_def
    sendBundleNow_def debug_setBundlingMode_def setBundleInterval_def dumpReputation_def clearReputation_def
    intro!: keeps_andThen node_keeps_send node_keeps_clear node_keeps_bundling node_keeps_mode node_keeps_gas
      node_keeps_dump node_keeps_addUserOps)

section \<open>Steps of the node\<close>

text \<open>
  What lies outside the program (the chain, the validation's environment, the capabilities, the
  clock) may differ from step to step, so the configurations are arguments of the steps. Counters
  given to \<open>debug_bundler_setReputation\<close> are not negative. The two lists are filled and the hourly
  interval is started when the node starts (\<open>Startup\<close>), never later.
\<close>

inductive node_step :: "'z node_state_scheme \<Rightarrow> 'z node_state_scheme \<Rightarrow> bool" where
  Request: "(dispatched prefixes contentType body = Some debug_bundler_setReputation \<Longrightarrow>
      nonneg_counters (request_params body)) \<Longrightarrow>
    node_step s (snd (rpcRequest hx prefixes (bundlerHandlers eth debug version) contentType body s))"
| Auto_bundle: "node_step s (snd (autoBundleTick mgr s))"
| Chain_event: "node_step s (snd (onUserOperationEvent ec payload s))"
| Hourly: "node_step s (snd (cronTick rep s))"
| Audit: "node_step s (s\<lparr>node_audit := do_action cap act (node_audit s)\<rparr>)"

inductive_cases node_stepE: "node_step s t"

lemma request_keeps:
  assumes "dispatched prefixes contentType body = Some debug_bundler_setReputation \<Longrightarrow>
      nonneg_counters (request_params body)" and "node_ok k s"
  shows "node_ok k (snd (rpcRequest hx prefixes (bundlerHandlers eth debug version) contentType body s))"
proof (cases "dispatched prefixes contentType body")
  case None
  from rpcRequest_rejected [OF None, of hx "bundlerHandlers eth debug version" s] assms(2) show ?thesis by auto
next
  case (Some m)
  have "node_ok k (snd (bundlerHandlers eth debug version m (request_params body) s))"
    by (rule keepsD [OF handlers_keep assms(2)]) (use assms(1) Some in simp)
  then show ?thesis
    by (auto simp: rpcRequest_dispatched [OF Some] postRpc_runs_handler split: prod.split sum.split)
qed

lemma node_keeps_tick: "keeps (node_ok k) (cronTick rep :: ('z node_state_scheme, unit) act)"
proof -
  let ?P = "\<lambda>s :: 'z node_state_scheme. pool_ok (standardPool s) \<and> mode_ok s \<and> settled s = k"
  have loop: "keeps ?P (for_each ks (\<lambda>a. andThen (updateEntries rep (f a)) (\<lambda>_. ret ())))"
    for ks and f :: "string \<Rightarrow> reputation_entries \<Rightarrow> reputation_entries"
    by (rule keeps_for_each, rule keeps_andThen, rule keeps_updateEntries, simp, rule keeps_ret)
  have "keeps ?P (cronTick rep)"
  proof (rule keepsI)
    fix s assume "?P s"
    with keepsD [OF loop this] show "?P (snd (cronTick rep s))"
      by (cases "cronSnapshot s") (simp_all add: cronTick_def)
  qed
  from keeps_conj [OF keeps_rep_inv_tick this]
  have "keeps (\<lambda>s. rep_inv s \<and> ?P s) (cronTick rep)" .
  moreover have "node_ok k = (\<lambda>s :: 'z node_state_scheme. rep_inv s \<and> ?P s)"
    unfolding node_ok_def service_inv_def rep_inv_def snapshot_ok_def fun_eq_iff by blast
  ultimately show ?thesis by simp
qed

lemma node_step_keeps: "node_step s t \<Longrightarrow> node_ok k s \<Longrightarrow> node_ok k t"
proof (induction rule: node_step.induct)
  case (Request prefixes contentType body s hx eth debug version)
  then show ?case by (intro request_keeps)
next
  case (Auto_bundle s mgr)
  then show ?case
    by (auto simp: autoBundleTick_def intro: keepsD [OF node_keeps_bundling(2)])
next
  case (Chain_event s ec payload)
  then show ?case
    by (auto simp: onUserOperationEvent_def intro: keepsD [OF node_keeps_bundling(4)] split: chain_log.split)
qed (auto intro: keepsD [OF node_keeps_tick])

lemma node_steps_keep: "node_step\<^sup>*\<^sup>* s t \<Longrightarrow> node_ok k s \<Longrightarrow> node_ok k t"
  by (induction rule: rtranclp_induct) (auto intro: node_step_keeps)

section \<open>Reachable states\<close>

text \<open>
  In every state the node can reach from a good one, by RPC requests, runs of the
  automatic bundler, chain events, the hourly interval and the audit queue in any order and under
  any answers of the chain, every entry of the pool is stored under its hash and no two have the
  same sender and nonce; the reputation entries, and the snapshot the interval works on, are keyed
  by distinct lower-case addresses, carry their key and have no negative counter; the automatic
  bundler's interval is set exactly in automatic mode; and neither the snapshot nor the white and
  black lists have changed.
\<close>

theorem node_invariant:
  assumes "node_step\<^sup>*\<^sup>* s t"
    and "pool_ok (standardPool s)" and "entries_ok (reputationEntries s)" and "snapshot_ok s" and "mode_ok s"
  shows "pool_ok (standardPool t) \<and> entries_ok (reputationEntries t) \<and> snapshot_ok t \<and>
    (bundleMode t = auto_mode \<longleftrightarrow> bundleInterval t \<noteq> None) \<and>
    (cronSnapshot t, whiteList t, blackList t) = (cronSnapshot s, whiteList s, blackList s)"
proof -
  have "node_ok (settled s) s" using assms(2-5) by (simp add: node_ok_def service_inv_def)
  from node_steps_keep [OF assms(1) this] show ?thesis
    by (simp add: node_ok_def service_inv_def mode_ok_def settled_def)
qed

definition demo_debug :: debug_config where
  "demo_debug = \<lparr>dc_manager = demo_manager, dc_reputation = demo_rep, dc_mempool = demo_mempool 5,
     dc_hex = hex_reference, dc_getUserOpHash = (\<lambda>_. Inr ''0x01'')\<rparr>"

definition mode_request :: json_object where
  "mode_request = [(''jsonrpc'', Str ''2.0''), (''id'', Num 1), (''method'', Str ''debug_bundler_setBundlingMode''),
     (''params'', Arr [Str ''auto''])]"

lemma demo_node_ok: "pool_ok (standardPool demo_node)" "entries_ok (reputationEntries demo_node)"
  "snapshot_ok demo_node" "mode_ok demo_node"
  by (simp_all add: pool_ok_def snapshot_ok_def mode_ok_def)
    (simp_all add: demo_node_def demo_event_state_def demo_cron_state_def
      State.defs reputation_state.defs event_state.defs)

theorem node_invariant_witness:
  "\<exists>t. t = snd (rpcRequest hex_reference [''debug''] (bundlerHandlers demo_eth demo_debug ''1'')
      (Some ''application/json'') mode_request demo_node) \<and>
    bundleMode t = auto_mode \<and> bundleInterval t \<noteq> None"
proof -
  let ?t = "snd (rpcRequest hex_reference [''debug''] (bundlerHandlers demo_eth demo_debug ''1'')
      (Some ''application/json'') mode_request demo_node)"
  have d: "dispatched [''debug''] (Some ''application/json'') mode_request = Some debug_bundler_setBundlingMode"
    "request_params mode_request = [Str ''auto'']"
    by code_simp+
  have "node_step demo_node ?t" by (rule node_step.Request) (simp add: d)
  then have "node_step\<^sup>*\<^sup>* demo_node ?t" by blast
  from node_invariant [OF this demo_node_ok]
  have "bundleMode ?t = auto_mode \<longleftrightarrow> bundleInterval ?t \<noteq> None" by blast
  moreover have "bundleMode ?t = auto_mode"
    by (simp add: rpcRequest_dispatched [OF d(1)] postRpc_runs_handler d(2) value_of_def debug_setBundlingMode_def
        setBundlingMode_def startAutoBundler_def stopAutoBundler_def andThen_def str_param_def param_def
        split: prod.split sum.split)
  ultimately show ?thesis by blast
qed

section \<open>What a public node lets into its pool\<close>

lemma send_refused:
  assumes "mp_verify (ea_mempool cfg) (mp_stateCapability (ea_mempool cfg))"
    and "rm_verify (mp_reputation (ea_mempool cfg)) (rm_stateCapability (mp_reputation (ea_mempool cfg)))"
    and "sendUserOperation cfg input ep s = (x, t)" and "\<And>h. x \<noteq> Inr (Right h)"
  shows "standardPool t = standardPool s"
proof (cases rule: send_outcomes [of cfg input ep s])
  case (relayed h op res)
  with assms(3) have "relayOp cfg h input (relayParam op h res) (received cfg input s) = (x, t)" by simp
  from relayOp_refused [OF assms(1,2) this assms(4)] show ?thesis by auto
qed (use assms(3) in \<open>auto simp: rejectOp_run\<close>)

lemma public_methods:
  assumes "handlerRegistry name = Some m" and "nameSpacePrefix name \<in> {''eth'', ''web3''}"
  shows "m \<in> {web3_clientVersion, eth_chainId, eth_supportedEntryPoints, eth_sendUserOperation,
    eth_estimateUserOperationGas, eth_getUserOperationReceipt, eth_getUserOperationByHash}"
  using assms by (auto simp: handlerRegistry_def nameSpacePrefix_def split: if_splits)

lemma estimate_keeps: "keeps P (estimateUserOperationGas cfg input ep stateOverride)"
  by (simp add: keeps_def estimateUserOperationGas_def)

lemma public_readers:
  assumes "m \<in> {web3_clientVersion, eth_chainId, eth_supportedEntryPoints,
    eth_estimateUserOperationGas, eth_getUserOperationReceipt, eth_getUserOperationByHash}"
  shows "snd (bundlerHandlers eth debug version m params s) = s"
proof -
  have "keeps (\<lambda>t. t = s) (bundlerHandlers eth debug version m params)"
    using assms estimate_keeps by (auto simp: either_of_def intro!: keeps_andThen)
  then show ?thesis by (rule keeps_same)
qed

lemma public_request_effect:
  assumes "set prefixes \<subseteq> {''eth'', ''web3''}"
    and "mp_verify (ea_mempool eth) (mp_stateCapability (ea_mempool eth))"
    and "rm_verify (mp_reputation (ea_mempool eth)) (rm_stateCapability (mp_reputation (ea_mempool eth)))"
    and "snd (rpcRequest hx prefixes (bundlerHandlers eth debug version) contentType body s) = t"
    and "standardPool t \<noteq> standardPool s"
  shows "dispatched prefixes contentType body = Some eth_sendUserOperation \<and>
    (\<exists>h op res. accepted_as eth (node_gasConfig s) (param (request_params body) 0)
        (str_param (request_params body) 1) h op res \<and>
      standardPool t = AList.update h (storedEntry op h res) (replacing op (standardPool s)))"
proof -
  obtain m where m: "dispatched prefixes contentType body = Some m"
    using rpcRequest_rejected [of prefixes contentType body hx "bundlerHandlers eth debug version" s] assms(4,5)
    by (cases "dispatched prefixes contentType body") auto
  then have "handlerRegistry (js_str (field body ''method'')) = Some m"
    "nameSpacePrefix (js_str (field body ''method'')) \<in> {''eth'', ''web3''}"
    using assms(1) by (auto simp: dispatched_iff dispatches_def wellFormed_def Let_def)
  note methods = public_methods [OF this]
  have t: "t = snd (bundlerHandlers eth debug version m (request_params body) s)"
    using assms(4) rpcRequest_dispatched [OF m, of hx "bundlerHandlers eth debug version" s]
    by (auto simp: postRpc_runs_handler split: prod.splits sum.splits)
  with methods assms(5) public_readers [of m eth debug version "request_params body" s]
  have send: "m = eth_sendUserOperation" by auto
  let ?send = "sendUserOperation eth (param (request_params body) 0) (str_param (request_params body) 1) s"
  obtain x where x: "?send = (x, t)"
    using t by (cases ?send) (auto simp: send either_of_def andThen_def split: sum.splits)
  obtain h where "x = Inr (Right h)" using send_refused [OF assms(2,3) x] assms(5) by blast
  with send_accepts [OF assms(2,3)] x have "\<exists>op res. accepted_as eth (node_gasConfig s) (param (request_params body) 0)
        (str_param (request_params body) 1) h op res \<and>
      standardPool t = AList.update h (storedEntry op h res) (replacing op (standardPool s))" by blast
  with m send show ?thesis by auto
qed

text \<open>
  Property C1. On a node that enables only the \<open>eth\<close> and \<open>web3\<close> namespaces, a request that changes
  the pool is an \<open>eth_sendUserOperation\<close> request whose operation passed input validation and the
  validation by simulation, and the change is that this operation is stored, pending, under the
  entry point's hash, in place of the entry of the same sender and nonce if there is one.
\<close>

theorem only_validated_operations_enter_the_pool:
  assumes "set prefixes \<subseteq> {''eth'', ''web3''}"
    and "mp_verify (ea_mempool eth) (mp_stateCapability (ea_mempool eth))"
    and "rm_verify (mp_reputation (ea_mempool eth)) (rm_stateCapability (mp_reputation (ea_mempool eth)))"
    and "snd (rpcRequest hx prefixes (bundlerHandlers eth debug version) contentType body s) = t"
    and "standardPool t \<noteq> standardPool s"
  shows "dispatched prefixes contentType body = Some eth_sendUserOperation \<and>
    (\<exists>h op res. accepted_as eth (node_gasConfig s) (param (request_params body) 0)
        (str_param (request_params body) 1) h op res \<and>
      standardPool t = AList.update h (storedEntry op h res) (replacing op (standardPool s)))"
  by (rule public_request_effect) (rule assms)+

definition send_request :: json_object where
  "send_request = [(''jsonrpc'', Str ''2.0''), (''id'', Num 1), (''method'', Str ''eth_sendUserOperation''),
     (''params'', Arr [Obj demo_request, Str ''0xE''])]"

theorem only_validated_operations_enter_the_pool_witness:
  "\<exists>op res e. accepted_as demo_eth MAINNET_CONFIG (Obj demo_request) ''0xE'' ''0x01'' op res \<and>
     standardPool (snd (rpcRequest hex_reference [''eth''] (bundlerHandlers demo_eth demo_debug ''1'')
       (Some ''application/json'') send_request demo_node)) = [(''0x01'', e)]"
proof -
  let ?t = "snd (rpcRequest hex_reference [''eth''] (bundlerHandlers demo_eth demo_debug ''1'')
      (Some ''application/json'') send_request demo_node)"
  have d: "dispatched [''eth''] (Some ''application/json'') send_request = Some eth_sendUserOperation"
    "request_params send_request = [Obj demo_request, Str ''0xE'']"
    by code_simp+
  have p: "param [Obj demo_request, Str ''0xE''] 0 = Obj demo_request" "str_param [Obj demo_request, Str ''0xE''] 1 = ''0xE''"
    by (simp_all add: param_def str_param_def)
  obtain t where t: "sendUserOperation demo_eth (Obj demo_request) ''0xE'' demo_node = (Inr (Right ''0x01''), t)"
    using demo_send by blast
  have caps: "ea_mempool demo_eth = demo_mempool 5" by (simp add: demo_eth_def)
  from send_accepts [OF _ _ t] obtain e where e: "standardPool t = [(''0x01'', e)]"
    by (auto simp: caps replacing_def findBySenderNonce_def)
  have tt: "?t = t"
    using t by (simp add: rpcRequest_dispatched [OF d(1)] postRpc_runs_handler d(2) p [simplified] either_of_def andThen_def)
  from only_validated_operations_enter_the_pool [OF _ _ _ tt, unfolded d(2) p]
  obtain h op res where "accepted_as demo_eth MAINNET_CONFIG (Obj demo_request) ''0xE'' h op res"
    "standardPool t = AList.update h (storedEntry op h res) (replacing op [])"
    by (auto simp: caps e)
  then show ?thesis using e tt by (auto simp: replacing_def findBySenderNonce_def)
qed

end
