(* ===== verification/Config.thy ===== *)
theory Config
  imports Simulation Input_Validation
begin

text \<open>
  The configuration of a node (\<open>src/config/\<close>, \<open>src/constants/env.ts\<close>, \<open>assertEnvVar\<close> of
  \<open>src/utils/common.utils.ts\<close>, \<open>src/provider/provider-factory.ts\<close>) and the checks before it listens
  (\<open>runPreflightChecks\<close> of \<open>src/cli.ts\<close>). The command line parser, the derivation of wallets,
  \<open>isAddress\<close> and \<open>parseEther\<close> are the packages \<open>commander\<close> and \<open>ethers\<close>: the argument \<open>config_lib\<close>.
  A number parsed from an option is \<open>None\<close> where \<open>parseInt\<close> gives \<open>NaN\<close>, which the code does not check.
\<close>

section \<open>Environment and options\<close>

record env_values =
  en_LOG_LEVEL :: string
  en_NODE_ENV :: "string option"
  en_ENTRYPOINT_ADDRESS :: string
  en_BENEFICIARY :: "string option"
  en_MNEMONIC :: "string option"
  en_WHITELIST :: "string option"
  en_BLACKLIST :: "string option"
  en_PEER_MULTIADDRS :: "string option"
  en_INFLUX_TOKEN :: "string option"

definition or_default :: "string option \<Rightarrow> string \<Rightarrow> string" where
  "or_default v d = (if truthy v then the v else d)"

definition DEFAULT_ENTRY_POINT :: string where
  "DEFAULT_ENTRY_POINT = ''0x4337084d9e255ff0702461cf8895ce9e3b5ff108''"

definition TRANSEPTOR_ENV_VALUES :: "(string \<Rightarrow> string option) \<Rightarrow> env_values" where
  "TRANSEPTOR_ENV_VALUES env =
     \<lparr>en_LOG_LEVEL = or_default (env ''TRANSEPTOR_LOG_LEVEL'')
        (if or_default (env ''NODE_ENV'') ''development'' = ''production'' then ''info'' else ''debug''),
      en_NODE_ENV = env ''NODE_ENV'',
      en_ENTRYPOINT_ADDRESS = or_default (env ''TRANSEPTOR_ENTRYPOINT_ADDRESS'') DEFAULT_ENTRY_POINT,
      en_BENEFICIARY = env ''TRANSEPTOR_BENEFICIARY'', en_MNEMONIC = env ''TRANSEPTOR_MNEMONIC'',
      en_WHITELIST = env ''TRANSEPTOR_WHITELIST'', en_BLACKLIST = env ''TRANSEPTOR_BLACKLIST'',
      en_PEER_MULTIADDRS = env ''PEER_MULTIADDRS'', en_INFLUX_TOKEN = env ''TRANSEPTOR_INFLUX_TOKEN''\<rparr>"

record option_values =
  ov_unsafe :: bool
  ov_network :: string
  ov_httpApi :: string
  ov_port :: string
  ov_minBalance :: string
  ov_minStake :: string
  ov_minUnstakeDelay :: string
  ov_bundleSize :: string
  ov_maxBundleGas :: string
  ov_auto :: bool
  ov_autoBundleInterval :: string
  ov_txMode :: string
  ov_metrics :: bool
  ov_influxdbUrl :: string
  ov_influxdbOrg :: string
  ov_influxdbBucket :: string
  ov_p2p :: bool
  ov_findPeers :: bool
  ov_eip7702Support :: bool
  ov_auditTrail :: js

record config_lib =
  cl_parse :: "option_values \<Rightarrow> string list \<Rightarrow> exn + option_values"
  cl_wallet :: "string \<Rightarrow> nat \<Rightarrow> exn + string"
  cl_isAddress :: "string \<Rightarrow> bool"
  cl_parseEther :: "string \<Rightarrow> exn + int"

definition DEFAULT_NETWORK :: string where "DEFAULT_NETWORK = ''http://localhost:8545''"

text \<open>The defaults of the options; \<open>--auditTrail\<close> takes a value, which stays a string.\<close>

definition option_defaults :: option_values where
  "option_defaults = \<lparr>ov_unsafe = False, ov_network = DEFAULT_NETWORK, ov_httpApi = ''web3,eth'',
     ov_port = ''4337'', ov_minBalance = ''1'', ov_minStake = ''1'', ov_minUnstakeDelay = ''0'',
     ov_bundleSize = ''10'', ov_maxBundleGas = ''5000000'', ov_auto = False,
     ov_autoBundleInterval = ''12000'', ov_txMode = ''base'', ov_metrics = False,
     ov_influxdbUrl = ''http://localhost:8086'', ov_influxdbOrg = ''transeptor-labs'',
     ov_influxdbBucket = ''transeptor_metrics'', ov_p2p = False, ov_findPeers = False,
     ov_eip7702Support = True, ov_auditTrail = Bool False\<rparr>"

definition getCmdOptionValues :: "config_lib \<Rightarrow> string list \<Rightarrow> exn + option_values" where
  "getCmdOptionValues lib args = cl_parse lib option_defaults args"

section \<open>Helpers\<close>

text \<open>\<open>s.split(',')\<close>\<close>

fun splitComma :: "string \<Rightarrow> string list" where
  "splitComma [] = [[]]"
| "splitComma (c # s) =
     (if c = CHR '','' then [] # splitComma s
      else case splitComma s of [] \<Rightarrow> [[c]] | w # ws \<Rightarrow> (c # w) # ws)"

text \<open>The loop over \<open>postValidationFunctions\<close>; without any the variable is returned as it is.\<close>

fun postValidated :: "string \<Rightarrow> ((string \<Rightarrow> bool) \<times> string) list \<Rightarrow> exn + string" where
  "postValidated v [] = Inr v"
| "postValidated v ((fn, errorMessage) # fs) =
     (if \<not> fn v then Inl (ErrorExn errorMessage) else postValidated v fs)"

definition assertEnvVar :: "string option \<Rightarrow> string \<Rightarrow> ((string \<Rightarrow> bool) \<times> string) list \<Rightarrow> exn + string" where
  "assertEnvVar envVar errorMessage postValidationFunctions =
     (if \<not> truthy envVar then Inl (ErrorExn errorMessage)
      else postValidated (the envVar) postValidationFunctions)"

text \<open>\<open>^(https?|ftp)://[^\s/$.?#].[^\s]*$\<close>; \<open>.\<close> matches no line terminator.\<close>

definition url_rest :: "string \<Rightarrow> bool" where
  "url_rest s = (case s of
     a # b # r \<Rightarrow> \<not> is_space a \<and> a \<notin> set ''/$.?#'' \<and> \<not> line_end b \<and> list_all (\<lambda>c. \<not> is_space c) r
   | _ \<Rightarrow> False)"

definition isValidUrl :: "string \<Rightarrow> bool" where
  "isValidUrl url = (if take 7 url = ''http://'' then url_rest (drop 7 url)
     else if take 8 url = ''https://'' then url_rest (drop 8 url)
     else if take 6 url = ''ftp://'' then url_rest (drop 6 url) else False)"

text \<open>The provider is known by its url.\<close>

definition createProvider :: "string \<Rightarrow> exn + string" where
  "createProvider url = (if \<not> isValidUrl url then Inl (ErrorExn ''Invalid network URL'') else Inr url)"

fun signerWallets :: "config_lib \<Rightarrow> string \<Rightarrow> nat list \<Rightarrow> exn + (nat \<times> string) list" where
  "signerWallets lib mnemonic [] = Inr []"
| "signerWallets lib mnemonic (i # is) = bindX (cl_wallet lib mnemonic i)
     (\<lambda>w. bindX (signerWallets lib mnemonic is) (\<lambda>ws. Inr ((i, w) # ws)))"

definition getBundlerSignerWallet :: "config_lib \<Rightarrow> nat \<Rightarrow> string \<Rightarrow> exn + (nat \<times> string) list" where
  "getBundlerSignerWallet lib numberOfSigners mnemonic = signerWallets lib mnemonic [0..<numberOfSigners]"

definition SUPPORTED_NAMESPACES :: "string list" where "SUPPORTED_NAMESPACES = [''web3'', ''eth'', ''debug'']"

definition SUPPORTED_MODES :: "string list" where "SUPPORTED_MODES = [''base'', ''searcher'']"

fun validateHttpApis :: "string list \<Rightarrow> string list \<Rightarrow> exn + unit" where
  "validateHttpApis [] supported = Inr ()"
| "validateHttpApis (api # httpApis) supported =
     (if api \<notin> set supported then Inl (ErrorExn ''Invalid http api'') else validateHttpApis httpApis supported)"

text \<open>\<open>BigInt\<close> of a parsed number: of \<open>NaN\<close> it throws.\<close>

definition BigInt_parsed :: "int option \<Rightarrow> exn + int" where
  "BigInt_parsed n = (case n of
     None \<Rightarrow> Inl (ErrorExn ''RangeError: The number NaN cannot be converted to a BigInt'') | Some i \<Rightarrow> Inr i)"

section \<open>The configuration\<close>

record influxdb_connection =
  ix_url :: string
  ix_org :: string
  ix_bucket :: string
  ix_token :: string

record node_config =
  cf_provider :: string
  cf_supportedEntryPointAddress :: string
  cf_bundlerSignerWallets :: "(nat \<times> string) list"
  cf_beneficiaryAddr :: string
  cf_minSignerBalance :: int
  cf_clientVersion :: string
  cf_commitHash :: string
  cf_environment :: "string option"
  cf_auditLogFlushIntervalMs :: nat
  cf_auditLogBufferSize :: nat
  cf_auditLogDestinationPath :: string
  cf_auditTrail :: js
  cf_httpApis :: "string list"
  cf_port :: "int option"
  cf_minStake :: int
  cf_minUnstakeDelay :: int
  cf_whitelist :: "string list"
  cf_blacklist :: "string list"
  cf_bundleSize :: "int option"
  cf_maxBundleGas :: "int option"
  cf_isAutoBundle :: bool
  cf_autoBundleInterval :: "int option"
  cf_txMode :: string
  cf_isUnsafeMode :: bool
  cf_isMetricsEnabled :: bool
  cf_influxdbConnection :: influxdb_connection
  cf_isP2PMode :: bool
  cf_findPeers :: bool
  cf_peerMultiaddrs :: "string list"
  cf_eip7702Support :: bool

definition nodeVersion :: string where "nodeVersion = ''0.15.0-alpha.0''"

definition split_env :: "string option \<Rightarrow> string list" where
  "split_env v = (if truthy v then splitComma (the v) else [])"

definition influx_of :: "option_values \<Rightarrow> env_values \<Rightarrow> influxdb_connection" where
  "influx_of opts env =
     (if ov_metrics opts then \<lparr>ix_url = ov_influxdbUrl opts, ix_org = ov_influxdbOrg opts,
        ix_bucket = ov_influxdbBucket opts, ix_token = the (en_INFLUX_TOKEN env)\<rparr>
      else \<lparr>ix_url = [], ix_org = [], ix_bucket = [], ix_token = []\<rparr>)"

definition configOf ::
  "option_values \<Rightarrow> env_values \<Rightarrow> string \<Rightarrow> (nat \<times> string) list \<Rightarrow> string \<Rightarrow> string \<Rightarrow> int \<Rightarrow> int \<Rightarrow> int \<Rightarrow> node_config" where
  "configOf opts env provider wallets beneficiary txMode minBalance minStake minUnstakeDelay =
     \<lparr>cf_provider = provider, cf_supportedEntryPointAddress = en_ENTRYPOINT_ADDRESS env,
      cf_bundlerSignerWallets = wallets, cf_beneficiaryAddr = beneficiary, cf_minSignerBalance = minBalance,
      cf_clientVersion = nodeVersion, cf_commitHash = ''unknown'', cf_environment = en_NODE_ENV env,
      cf_auditLogFlushIntervalMs = 100, cf_auditLogBufferSize = 5000,
      cf_auditLogDestinationPath = ''./logs/audit.log'', cf_auditTrail = ov_auditTrail opts,
      cf_httpApis = splitComma (ov_httpApi opts), cf_port = parseInt None (ov_port opts),
      cf_minStake = minStake, cf_minUnstakeDelay = minUnstakeDelay,
      cf_whitelist = split_env (en_WHITELIST env), cf_blacklist = split_env (en_BLACKLIST env),
      cf_bundleSize = parseInt None (ov_bundleSize opts), cf_maxBundleGas = parseInt None (ov_maxBundleGas opts),
      cf_isAutoBundle = ov_auto opts, cf_autoBundleInterval = parseInt None (ov_autoBundleInterval opts),
      cf_txMode = txMode, cf_isUnsafeMode = ov_unsafe opts, cf_isMetricsEnabled = ov_metrics opts,
      cf_influxdbConnection = influx_of opts env, cf_isP2PMode = ov_p2p opts, cf_findPeers = ov_findPeers opts,
      cf_peerMultiaddrs = (if ov_p2p opts then split_env (en_PEER_MULTIADDRS env) else []),
      cf_eip7702Support = ov_eip7702Support opts\<rparr>"

definition createConfig :: "config_lib \<Rightarrow> string list \<Rightarrow> env_values \<Rightarrow> exn + node_config" where
  "createConfig lib args env =
     bindX (getCmdOptionValues lib args) (\<lambda>programOpts.
     bindX (createProvider (ov_network programOpts)) (\<lambda>provider.
     bindX (assertEnvVar (en_MNEMONIC env) ''TRANSEPTOR_MNEMONIC env var not set'' []) (\<lambda>mnemonic.
     bindX (getBundlerSignerWallet lib 2 mnemonic) (\<lambda>wallets.
     bindX (assertEnvVar (en_BENEFICIARY env) ''TRANSEPTOR_BENEFICIARY env var not set''
              [(cl_isAddress lib, ''Beneficiary not a valid address'')]) (\<lambda>beneficiary.
     bindX (assertEnvVar (Some (ov_txMode programOpts)) ''Invalid txMode''
              [(\<lambda>m. m \<in> set SUPPORTED_MODES, ''Invalid txMode: '' @ ov_txMode programOpts)]) (\<lambda>txMode.
     bindX (if ov_metrics programOpts \<and> \<not> truthy (en_INFLUX_TOKEN env)
            then Inl (ErrorExn ''TRANSEPTOR_INFLUX_TOKEN env var not set'') else Inr ()) (\<lambda>_.
     bindX (validateHttpApis (splitComma (ov_httpApi programOpts)) SUPPORTED_NAMESPACES) (\<lambda>_.
     bindX (cl_parseEther lib (ov_minBalance programOpts)) (\<lambda>minBalance.
     bindX (cl_parseEther lib (ov_minStake programOpts)) (\<lambda>minStake.
     bindX (BigInt_parsed (parseInt None (ov_minUnstakeDelay programOpts))) (\<lambda>minUnstakeDelay.
       Inr (configOf programOpts env provider wallets beneficiary txMode minBalance minStake minUnstakeDelay))))))))))))"

section \<open>Preflight checks\<close>

definition GethNativeTracerName :: string where "GethNativeTracerName = ''erc7562Tracer''"

fun join_comma :: "string list \<Rightarrow> string" where
  "join_comma [] = []"
| "join_comma [w] = w"
| "join_comma (w # ws) = w @ '', '' @ join_comma ws"

text \<open>
  The signer's address and balance are those of the first wallet. The two requests made at once are
  one after the other here; only the second can fail.
\<close>

definition runPreflightChecks :: "node_config \<Rightarrow> network \<Rightarrow> string \<Rightarrow> int \<Rightarrow> exn + unit" where
  "runPreflightChecks config nw signerAddress signerBalance =
     (if nw_chainId nw \<notin> set getSupportedNetworks
      then Inl (ErrorExn (''Network not supported. Supported networks: '' @ join_comma (map int_str getSupportedNetworks)))
      else case nw_send nw ''web3_clientVersion'' [] of
        Inl e \<Rightarrow> Inl (ErrorExn (ne_message e))
      | Inr providerClientVersion \<Rightarrow>
          if \<not> checkContractDeployment nw (cf_supportedEntryPointAddress config)
          then Inl (ErrorExn (''Entry point contract is not deployed to the network. Please use a pre-deployed '' @
            ''contract or deploy the contract first if you are using a local network.''))
          else if signerBalance < cf_minSignerBalance config
          then Inl (ErrorExn (''Bundler signer account('' @ signerAddress @ '') is not funded: Min balance required: '' @
            int_str (cf_minSignerBalance config)))
          else if cf_isUnsafeMode config then Inr ()
          else bindX (supportsDebugTraceCallWithNativeTracer nw GethNativeTracerName) (\<lambda>supported.
            if \<not> supported then Inl (ErrorExn (''Full validation requires provider to support erc7562Tracer. '' @
              ''For UNSAFE mode: use --unsafe'')) else Inr ()))"

section \<open>What an accepted configuration guarantees\<close>

lemma postValidated_iff: "postValidated v fs = Inr w \<longleftrightarrow> w = v \<and> list_all (\<lambda>(f, m). f v) fs"
  by (induction v fs rule: postValidated.induct) auto

lemma assertEnvVar_iff:
  "assertEnvVar v m fs = Inr w \<longleftrightarrow> v = Some w \<and> w \<noteq> [] \<and> list_all (\<lambda>(f, m). f w) fs"
  by (cases v) (auto simp: assertEnvVar_def postValidated_iff)

lemma validateHttpApis_iff: "validateHttpApis apis supported = Inr u \<longleftrightarrow> set apis \<subseteq> set supported"
  by (induction apis) auto

lemma signerWallets_fst: "signerWallets lib m is = Inr ws \<Longrightarrow> map fst ws = is"
  by (induction "is" arbitrary: ws) (auto elim!: bindX_InrE)

lemma createConfig_InrE:
  assumes "createConfig lib args env = Inr c"
  obtains opts wallets minBalance minStake delay where
    "cl_parse lib option_defaults args = Inr opts" "isValidUrl (ov_network opts)"
    "truthy (en_MNEMONIC env)" "getBundlerSignerWallet lib 2 (the (en_MNEMONIC env)) = Inr wallets"
    "truthy (en_BENEFICIARY env)" "cl_isAddress lib (the (en_BENEFICIARY env))"
    "ov_txMode opts \<in> set SUPPORTED_MODES" "set (splitComma (ov_httpApi opts)) \<subseteq> set SUPPORTED_NAMESPACES"
    "c = configOf opts env (ov_network opts) wallets (the (en_BENEFICIARY env)) (ov_txMode opts) minBalance minStake delay"
  using assms
  by (auto simp: createConfig_def getCmdOptionValues_def createProvider_def assertEnvVar_iff validateHttpApis_iff
      SUPPORTED_MODES_def elim!: bindX_InrE split: if_splits)

lemma preflight_iff:
  "runPreflightChecks config nw a b = Inr () \<longleftrightarrow>
     nw_chainId nw \<in> set getSupportedNetworks \<and> (\<exists>v. nw_send nw ''web3_clientVersion'' [] = Inr v) \<and>
     checkContractDeployment nw (cf_supportedEntryPointAddress config) \<and> cf_minSignerBalance config \<le> b \<and>
     (cf_isUnsafeMode config \<or> supportsDebugTraceCallWithNativeTracer nw GethNativeTracerName = Inr True)"
  by (cases "supportsDebugTraceCallWithNativeTracer nw GethNativeTracerName")
    (auto simp: runPreflightChecks_def split: sum.splits)

end
