(* ===== verification/Startup.thy ===== *)
theory Startup
  imports Node Config
begin

text \<open>
  Starting a node: \<open>createManagers\<close> of \<open>src/core/managers.ts\<close>, the services it needs
  (\<open>src/core/services.ts\<close>), \<open>runNode\<close> of \<open>src/cli.ts\<close> and \<open>start\<close> of the RPC server. Creating a
  module changes state only where its \<open>create\<close> function does; the functions that reach outside (the
  chain, the clock) come in a manager configuration whose settings the start overwrites. Numbers of
  the configuration are taken as parsed. The result of \<open>runNode\<close> is the state in which the server
  begins to listen; a start that fails ends the process.
\<close>

section \<open>The modules' configurations\<close>

definition extractStateCapability :: "capability js_object \<Rightarrow> string \<Rightarrow> exn + capability" where
  "extractStateCapability issuedCapabilitiesMapping name =
     (case map_of issuedCapabilitiesMapping name of
        None \<Rightarrow> Inl (ErrorExn (''Capability for module '' @ name @ '' not found''))
      | Some capability \<Rightarrow> Inr capability)"

text \<open>The delay of \<open>setInterval\<close>: one millisecond outside of its range, for \<open>NaN\<close> too.\<close>

definition timer_delay :: "int option \<Rightarrow> nat" where
  "timer_delay d = (case d of None \<Rightarrow> 1 | Some i \<Rightarrow> if i < 1 \<or> i > 2147483647 then 1 else nat i)"

definition reputation_of :: "node_config \<Rightarrow> (capability \<Rightarrow> bool) \<Rightarrow> capability \<Rightarrow> reputation_config \<Rightarrow> reputation_config" where
  "reputation_of c verify cap base = base\<lparr>rm_verify := verify, rm_stateCapability := cap,
     rm_minStake := cf_minStake c, rm_minUnstakeDelay := cf_minUnstakeDelay c\<rparr>"

definition mempool_of ::
  "node_config \<Rightarrow> (capability \<Rightarrow> bool) \<Rightarrow> capability \<Rightarrow> capability \<Rightarrow> reputation_config \<Rightarrow> mempool_config \<Rightarrow> mempool_config" where
  "mempool_of c verify depositCap cap rep base = base\<lparr>mp_verify := verify, mp_stateCapability := cap,
     mp_bundleSize := the (cf_bundleSize c), mp_reputation := rep,
     mp_deposit := (mp_deposit base)\<lparr>dp_verify := verify, dp_stateCapability := depositCap\<rparr>\<rparr>"

definition manager_of ::
  "node_config \<Rightarrow> (capability \<Rightarrow> bool) \<Rightarrow> capability \<Rightarrow> reputation_config \<Rightarrow> mempool_config \<Rightarrow> manager_config \<Rightarrow> manager_config" where
  "manager_of c verify cap rep mempool base = base\<lparr>
     bm_events := (bm_events base)\<lparr>ec_mempool := mempool, ec_reputation := rep\<rparr>,
     bm_builder := (bm_builder base)\<lparr>bb_mempool := mempool, bb_reputation := rep,
       bb_maxBundleGas := the (cf_maxBundleGas c)\<rparr>,
     bm_processor := (bm_processor base)\<lparr>bp_mempool := mempool, bp_reputation := rep, bp_txMode := cf_txMode c,
       bp_beneficiary := cf_beneficiaryAddr c, bp_minSignerBalance := cf_minSignerBalance c\<rparr>,
     bm_verify := verify, bm_stateCapability := cap, bm_isAutoBundle := cf_isAutoBundle c,
     bm_autoBundleInterval := timer_delay (cf_autoBundleInterval c)\<rparr>"

definition createManagers ::
  "node_config \<Rightarrow> (capability \<Rightarrow> bool) \<Rightarrow> capability js_object \<Rightarrow> manager_config \<Rightarrow>
   ('z manager_state_scheme, manager_config) act" where
  "createManagers c verify caps base =
     andThen (liftE (extractStateCapability caps ''reputation-manager'')) (\<lambda>rcap.
       let rep = reputation_of c verify rcap (bb_reputation (bm_builder base)) in
       andThen (addWhitelist rep (cf_whitelist c)) (\<lambda>_.
       andThen (addBlacklist rep (cf_blacklist c)) (\<lambda>_.
       andThen (startHourlyCron rep) (\<lambda>_.
       andThen (liftE (extractStateCapability caps ''deposit-manager'')) (\<lambda>dcap.
       andThen (liftE (extractStateCapability caps ''mempool-manager'')) (\<lambda>mcap.
       andThen (liftE (extractStateCapability caps ''bundle-manager'')) (\<lambda>bcap.
         let m = manager_of c verify bcap rep (mempool_of c verify dcap mcap rep (bb_mempool (bm_builder base))) base in
         andThen (createBundleManager m) (\<lambda>_. ret m))))))))"

section \<open>The start\<close>

definition freshNode :: "gas_config \<Rightarrow> nat \<Rightarrow> node_state" where
  "freshNode gas bufferCapacity =
     \<lparr>standardPool = standardPool initialState, mempoolEntryCount = mempoolEntryCount initialState,
      bundleTxs = bundleTxs initialState, blackList = blackList initialState, whiteList = whiteList initialState,
      reputationEntries = reputationEntries initialState, cronSnapshot = None, lastBlock = None,
      eventAggregator = None, eventAggregatorTxHash = None, bundleMode = manual_mode, bundleInterval = None,
      node_gasConfig = gas, node_audit = createAuditLogQueue bufferCapacity\<rparr>"

record outside =
  out_network :: network
  out_crypto :: crypto
  out_salt :: "nat \<Rightarrow> string"
  out_signerAddress :: string
  out_signerBalance :: int
  out_modules :: manager_config

definition issuer_of :: "node_config \<Rightarrow> capability_service_config" where
  "issuer_of c = \<lparr>issuerSignerPrivateKey = snd (cf_bundlerSignerWallets c ! 1), cs_clientVersion = cf_clientVersion c\<rparr>"

definition createProviderService :: "config_lib \<Rightarrow> node_config \<Rightarrow> exn + unit" where
  "createProviderService lib c =
     (if \<not> cl_isAddress lib (cf_supportedEntryPointAddress c)
      then Inl (ErrorExn ''Entry point not a valid address'') else Inr ())"

definition startModules :: "outside \<Rightarrow> node_config \<Rightarrow> gas_config \<Rightarrow> (exn + manager_config) \<times> node_state" where
  "startModules out c gas =
     createManagers c (verifyStateCapability (out_crypto out) (issuer_of c))
       (bootstrapStateCapabilities (out_crypto out) (issuer_of c) (out_salt out) STATE_CAPABILITY_REGISTRY)
       (out_modules out) (freshNode gas (cf_auditLogBufferSize c))"

definition runNode :: "config_lib \<Rightarrow> outside \<Rightarrow> string list \<Rightarrow> env_values \<Rightarrow> exn + node_config \<times> manager_config \<times> node_state" where
  "runNode lib out args env =
     bindX (createConfig lib args env) (\<lambda>config.
       if cf_isP2PMode config then Inl (ErrorExn ''P2P mode is not supported yet'')
       else bindX (createProviderService lib config) (\<lambda>_.
            bindX (createPreVerificationGasCalculator (nw_chainId (out_network out))) (\<lambda>gas.
            case startModules out config gas of
              (Inl e, s) \<Rightarrow> Inl e
            | (Inr m, s) \<Rightarrow>
                bindX (runPreflightChecks config (out_network out) (out_signerAddress out) (out_signerBalance out))
                  (\<lambda>_. Inr (config, m, s)))))"

section \<open>The state a node starts in\<close>

lemma addWhitelist_run:
  "rm_verify rep (rm_stateCapability rep) \<Longrightarrow> addWhitelist rep items s = (Inr (), s\<lparr>whiteList := whiteList s @ items\<rparr>)"
  by (simp add: addWhitelist_def andThen_def white_field.update_field [where f = "\<lambda>l. l @ items"])

lemma addBlacklist_run:
  "rm_verify rep (rm_stateCapability rep) \<Longrightarrow> addBlacklist rep items s = (Inr (), s\<lparr>blackList := blackList s @ items\<rparr>)"
  by (simp add: addBlacklist_def andThen_def black_field.update_field [where f = "\<lambda>l. l @ items"])

lemma startHourlyCron_run:
  "rm_verify rep (rm_stateCapability rep) \<Longrightarrow>
     startHourlyCron rep s = (Inr (), s\<lparr>cronSnapshot := Some (reputationEntries s)\<rparr>)"
  "\<not> rm_verify rep (rm_stateCapability rep) \<Longrightarrow> \<exists>e t. startHourlyCron rep s = (Inl e, t)"
  by (simp_all add: startHourlyCron_def stopHourlyCron_def andThen_def getState_def pickKeys_def noKeys_def)

lemma createBundleManager_run:
  "createBundleManager m s = (Inr (), s\<lparr>bundleMode := if bm_isAutoBundle m then auto_mode else manual_mode,
     bundleInterval := if bm_isAutoBundle m then Some (bm_autoBundleInterval m) else None\<rparr>)"
  by (simp add: createBundleManager_def startAutoBundler_def stopAutoBundler_def andThen_def)

text \<open>With every capability issued and accepted, the managers are created.\<close>

lemma createManagers_run:
  assumes "map_of caps ''reputation-manager'' = Some rcap" and "verify rcap"
    and "map_of caps ''deposit-manager'' = Some dcap" and "map_of caps ''mempool-manager'' = Some mcap"
    and "map_of caps ''bundle-manager'' = Some bcap"
    and "rep = reputation_of c verify rcap (bb_reputation (bm_builder base))"
    and "m = manager_of c verify bcap rep (mempool_of c verify dcap mcap rep (bb_mempool (bm_builder base))) base"
  shows "createManagers c verify caps base s = (Inr m, s\<lparr>whiteList := whiteList s @ cf_whitelist c,
     blackList := blackList s @ cf_blacklist c, cronSnapshot := Some (reputationEntries s),
     bundleMode := if cf_isAutoBundle c then auto_mode else manual_mode,
     bundleInterval := if cf_isAutoBundle c then Some (timer_delay (cf_autoBundleInterval c)) else None\<rparr>)"
proof -
  have v: "rm_verify rep (rm_stateCapability rep)" using assms(2,6) by (simp add: reputation_of_def)
  have auto: "bm_isAutoBundle m = cf_isAutoBundle c" "bm_autoBundleInterval m = timer_delay (cf_autoBundleInterval c)"
    by (simp_all add: assms(7) manager_of_def)
  show ?thesis
    using assms(1,3,4,5)
    by (simp add: createManagers_def extractStateCapability_def andThen_def Let_def assms(6,7) [symmetric]
        addWhitelist_run [OF v] addBlacklist_run [OF v] startHourlyCron_run(1) [OF v] createBundleManager_run auto)
qed

definition startedState :: "node_config \<Rightarrow> gas_config \<Rightarrow> node_state" where
  "startedState c gas = (freshNode gas (cf_auditLogBufferSize c))\<lparr>whiteList := cf_whitelist c,
     blackList := cf_blacklist c, cronSnapshot := Some [],
     bundleMode := if cf_isAutoBundle c then auto_mode else manual_mode,
     bundleInterval := if cf_isAutoBundle c then Some (timer_delay (cf_autoBundleInterval c)) else None\<rparr>"

text \<open>The registry grants every module that asks for a capability one, and it verifies.\<close>

lemma registry_capability:
  assumes "sound_crypto cr (issuerSignerPrivateKey cfg)" and "name \<in> set (map fst STATE_CAPABILITY_REGISTRY)"
  obtains cap where "map_of (bootstrapStateCapabilities cr cfg salts STATE_CAPABILITY_REGISTRY) name = Some cap"
    and "verifyStateCapability cr cfg cap"
proof -
  let ?caps = "bootstrapStateCapabilities cr cfg salts STATE_CAPABILITY_REGISTRY"
  have "obj_ok STATE_CAPABILITY_REGISTRY" by (simp add: obj_ok_def STATE_CAPABILITY_REGISTRY_def)
  note issued = bootstrap_issues_the_registry [OF assms(1) this, of salts]
  then have "name \<in> set (map fst ?caps)" using assms(2) by simp
  then obtain cap where cap: "map_of ?caps name = Some cap"
    by (metis list.set_map map_of_eq_None_iff not_None_eq)
  then have "(name, cap) \<in> set ?caps" by (rule map_of_SomeD)
  with issued have "verifyStateCapability cr cfg cap" by blast
  with cap that show thesis by blast
qed

lemma startModules_run:
  assumes "sound_crypto (out_crypto out) (issuerSignerPrivateKey (issuer_of c))"
  shows "\<exists>rcap dcap mcap bcap rep. let verify = verifyStateCapability (out_crypto out) (issuer_of c);
      base = out_modules out in
    verify rcap \<and> rep = reputation_of c verify rcap (bb_reputation (bm_builder base)) \<and>
    startModules out c gas = (Inr (manager_of c verify bcap rep
      (mempool_of c verify dcap mcap rep (bb_mempool (bm_builder base))) base), startedState c gas)"
proof -
  let ?v = "verifyStateCapability (out_crypto out) (issuer_of c)"
  let ?caps = "bootstrapStateCapabilities (out_crypto out) (issuer_of c) (out_salt out) STATE_CAPABILITY_REGISTRY"
  have names: "set (map fst STATE_CAPABILITY_REGISTRY)
      = {''reputation-manager'', ''deposit-manager'', ''mempool-manager'', ''bundle-manager''}"
    by (simp add: STATE_CAPABILITY_REGISTRY_def)
  obtain rcap dcap mcap bcap where
    caps: "map_of ?caps ''reputation-manager'' = Some rcap" "?v rcap" "map_of ?caps ''deposit-manager'' = Some dcap"
      "map_of ?caps ''mempool-manager'' = Some mcap" "map_of ?caps ''bundle-manager'' = Some bcap"
    using registry_capability [OF assms, unfolded names] by (metis insertCI)
  show ?thesis
    using caps(2) createManagers_run [where verify = ?v, OF caps refl refl,
        of c "out_modules out" "freshNode gas (cf_auditLogBufferSize c)"]
    by (auto simp: startModules_def startedState_def freshNode_def initialState_def Let_def)
qed

lemma supported_gas: "chain \<in> set getSupportedNetworks \<Longrightarrow> createPreVerificationGasCalculator chain = Inr MAINNET_CONFIG"
  by (auto simp: getSupportedNetworks_def createPreVerificationGasCalculator_def CHAIN_CONFIG_def)

lemma runNode_InrE:
  assumes "sound_crypto (out_crypto out) (issuerSignerPrivateKey (issuer_of c))"
    and "runNode lib out args env = Inr (c, m, s)"
  obtains gas verify rep mempool cap where "s = startedState c gas" "createConfig lib args env = Inr c"
    "m = manager_of c verify cap rep mempool (out_modules out)"
proof -
  obtain gas where "createConfig lib args env = Inr c" "startModules out c gas = (Inr m, s)"
    using assms(2) by (auto simp: runNode_def elim!: bindX_InrE split: if_splits prod.splits sum.splits)
  moreover from startModules_run [OF assms(1), of gas] this(2) obtain verify cap rep mempool
    where "m = manager_of c verify cap rep mempool (out_modules out)" "s = startedState c gas"
    by (auto simp: Let_def)
  ultimately show thesis using that by blast
qed

lemma node_starts:
  assumes "\<And>key. sound_crypto (out_crypto out) key"
  shows "(\<exists>m s. runNode lib out args env = Inr (c, m, s)) \<longleftrightarrow>
    createConfig lib args env = Inr c \<and> \<not> cf_isP2PMode c \<and> cl_isAddress lib (cf_supportedEntryPointAddress c) \<and>
    runPreflightChecks c (out_network out) (out_signerAddress out) (out_signerBalance out) = Inr ()"
proof
  assume "\<exists>m s. runNode lib out args env = Inr (c, m, s)"
  then show "createConfig lib args env = Inr c \<and> \<not> cf_isP2PMode c \<and> cl_isAddress lib (cf_supportedEntryPointAddress c) \<and>
      runPreflightChecks c (out_network out) (out_signerAddress out) (out_signerBalance out) = Inr ()"
    by (auto simp: runNode_def createProviderService_def elim!: bindX_InrE split: if_splits prod.splits sum.splits)
next
  assume ok: "createConfig lib args env = Inr c \<and> \<not> cf_isP2PMode c \<and> cl_isAddress lib (cf_supportedEntryPointAddress c) \<and>
    runPreflightChecks c (out_network out) (out_signerAddress out) (out_signerBalance out) = Inr ()"
  then have "nw_chainId (out_network out) \<in> set getSupportedNetworks" by (simp add: preflight_iff)
  note gas = supported_gas [OF this]
  from startModules_run [OF assms, of c MAINNET_CONFIG] obtain m
    where "startModules out c MAINNET_CONFIG = (Inr m, startedState c MAINNET_CONFIG)" by (auto simp: Let_def)
  with ok gas show "\<exists>m s. runNode lib out args env = Inr (c, m, s)"
    by (simp add: runNode_def createProviderService_def)
qed


lemma started_ok:
  assumes "\<And>key. sound_crypto (out_crypto out) key" and "runNode lib out args env = Inr (c, m, s)"
  shows "node_ok (settled s) s" "settled s = (Some [], cf_whitelist c, cf_blacklist c) \<and> standardPool s = []"
proof -
  obtain gas where s: "s = startedState c gas" using runNode_InrE [OF assms] by metis
  show "node_ok (settled s) s"
    by (simp add: s node_ok_def service_inv_def snapshot_ok_def mode_ok_def startedState_def freshNode_def
        initialState_def pool_ok_def)
  show "settled s = (Some [], cf_whitelist c, cf_blacklist c) \<and> standardPool s = []"
    by (simp add: s settled_def startedState_def freshNode_def initialState_def)
qed


text \<open>
  Property C17. The hourly interval of a started node never changes anything: it is started before
  there is any reputation entry, works on the entries read then, and is never started again. So no
  counter of a node ever decays, and a ban or throttling is never lifted by time.
\<close>

theorem hourly_interval_is_inert:
  assumes "\<And>key. sound_crypto (out_crypto out) key"
    and "runNode lib out args env = Inr (c, m, s)" and "node_step\<^sup>*\<^sup>* s t"
  shows "cronTick rep t = (Inr (), t)"
proof -
  from node_steps_keep [OF assms(3) started_ok(1) [OF assms(1,2)]] have "cronSnapshot t = Some []"
    using started_ok(2) [OF assms(1,2)] by (simp add: node_ok_def settled_def)
  then show ?thesis by (simp add: cronTick_def)
qed

text \<open>
  A started node serves only supported namespaces, and its transaction mode has a route
  for every bundle, with and without authorizations: the processor's error for an unknown mode
  never occurs.
\<close>

theorem started_node_has_a_route:
  assumes "\<And>key. sound_crypto (out_crypto out) key" and "runNode lib out args env = Inr (c, m, s)"
  shows "set (cf_httpApis c) \<subseteq> set SUPPORTED_NAMESPACES \<and> length (cf_bundlerSignerWallets c) = 2 \<and>
    routeOf (bp_txMode (bm_processor m)) (txType eip7702Tuples) \<noteq> None"
proof -
  obtain verify cap rep mempool where m: "m = manager_of c verify cap rep mempool (out_modules out)"
    and c: "createConfig lib args env = Inr c"
    using runNode_InrE [OF assms] by metis
  obtain opts wallets b x y z where o: "ov_txMode opts \<in> set SUPPORTED_MODES"
    "set (splitComma (ov_httpApi opts)) \<subseteq> set SUPPORTED_NAMESPACES"
    "getBundlerSignerWallet lib 2 (the (en_MNEMONIC env)) = Inr wallets"
    "c = configOf opts env (ov_network opts) wallets b (ov_txMode opts) x y z"
    using createConfig_InrE [OF c] by metis
  have "length wallets = 2"
    using signerWallets_fst o(3) by (metis getBundlerSignerWallet_def length_map length_upt diff_zero)
  with o show ?thesis
    by (auto simp: m manager_of_def configOf_def routeOf_def txType_def SUPPORTED_MODES_def)
qed

section \<open>A node that starts\<close>

definition demo_lib :: config_lib where
  "demo_lib = \<lparr>cl_parse = \<lambda>defaults args. Inr (defaults\<lparr>ov_unsafe := True\<rparr>), cl_wallet = \<lambda>m i. Inr (m @ int_str (int i)),
     cl_isAddress = \<lambda>a. take 2 a = ''0x'', cl_parseEther = \<lambda>s. Inr 1\<rparr>"

definition demo_env :: env_values where
  "demo_env = TRANSEPTOR_ENV_VALUES [''TRANSEPTOR_BENEFICIARY'' \<mapsto> ''0xbe'', ''TRANSEPTOR_MNEMONIC'' \<mapsto> ''test'',
     ''TRANSEPTOR_BLACKLIST'' \<mapsto> ''0xab,0xcd'']"

definition demo_outside :: outside where
  "demo_outside = \<lparr>out_network = demo_network\<lparr>nw_getCode := \<lambda>_. ''0x60''\<rparr>, out_crypto = demo_crypto,
     out_salt = (\<lambda>i. replicate i CHR ''0''), out_signerAddress = ''0x5e'', out_signerBalance = 2,
     out_modules = demo_manager\<rparr>"

definition demo_config :: node_config where
  "demo_config = configOf (option_defaults\<lparr>ov_unsafe := True\<rparr>) demo_env DEFAULT_NETWORK
     [(0, ''test0''), (1, ''test1'')] ''0xbe'' ''base'' 1 1 0"

lemma demo_configured:
  "createConfig demo_lib [] demo_env = Inr demo_config"
  "\<not> cf_isP2PMode demo_config" "cl_isAddress demo_lib (cf_supportedEntryPointAddress demo_config)"
  "cf_isUnsafeMode demo_config" "cf_minSignerBalance demo_config = 1" "cf_blacklist demo_config = [''0xab'', ''0xcd'']"
proof -
  have url: "isValidUrl DEFAULT_NETWORK" "splitComma ''web3,eth'' = [''web3'', ''eth'']"
    "splitComma ''0xab,0xcd'' = [''0xab'', ''0xcd'']" "parseInt None ''0'' = Some 0" by code_simp+
  have int: "int_str 0 = ''0''" "int_str 1 = ''1''" by code_simp+
  show "createConfig demo_lib [] demo_env = Inr demo_config"
    by (simp add: createConfig_def getCmdOptionValues_def demo_lib_def createProvider_def assertEnvVar_def demo_env_def
        TRANSEPTOR_ENV_VALUES_def getBundlerSignerWallet_def option_defaults_def url SUPPORTED_MODES_def
        SUPPORTED_NAMESPACES_def BigInt_parsed_def demo_config_def upt_rec int numeral_2_eq_2)
  show "\<not> cf_isP2PMode demo_config" "cl_isAddress demo_lib (cf_supportedEntryPointAddress demo_config)"
    "cf_isUnsafeMode demo_config" "cf_minSignerBalance demo_config = 1" "cf_blacklist demo_config = [''0xab'', ''0xcd'']"
    by (simp_all add: demo_config_def configOf_def option_defaults_def demo_lib_def demo_env_def DEFAULT_ENTRY_POINT_def
        TRANSEPTOR_ENV_VALUES_def or_default_def split_env_def url)
qed

lemma demo_preflight: "runPreflightChecks demo_config (out_network demo_outside) a (out_signerBalance demo_outside) = Inr ()"
  unfolding preflight_iff
  by (simp add: demo_configured demo_outside_def demo_network_def getSupportedNetworks_def checkContractDeployment_def)

lemma demo_sound: "sound_crypto (out_crypto demo_outside) key"
  by (simp add: demo_outside_def)

lemma demo_starts: "\<exists>m s. runNode demo_lib demo_outside [] demo_env = Inr (demo_config, m, s)"
  using demo_configured demo_preflight by (simp add: node_starts [OF demo_sound])



theorem hourly_interval_is_inert_witness:
  "\<exists>m s. runNode demo_lib demo_outside [] demo_env = Inr (demo_config, m, s) \<and> cronTick demo_rep s = (Inr (), s)"
  using demo_starts hourly_interval_is_inert [OF demo_sound] by blast

theorem started_node_has_a_route_witness:
  "\<exists>m s. runNode demo_lib demo_outside [] demo_env = Inr (demo_config, m, s) \<and>
     routeOf (bp_txMode (bm_processor m)) (txType []) \<noteq> None"
  using demo_starts started_node_has_a_route [OF demo_sound] by blast

end
