(* ===== verification/Audit_Writer.thy ===== *)
theory Audit_Writer
  imports Audit_Queue
begin

text \<open>
  The audit log's writer (\<open>src/logger/audit/pino-audit-log-writer.ts\<close>, \<open>audit-factory.ts\<close>): the events
  the queue's worker takes become lines of the audit file, with four fields of the user operation
  blanked. \<open>info\<close> tells whether the library \<open>pino\<close> takes a line; its destination is synchronous, so
  the line is in the file when it returns. An error goes to the node's own log.
\<close>

section \<open>Redaction\<close>

text \<open>The own enumerable fields of a value, as \<open>{...value}\<close> copies them.\<close>

fun own_fields :: "js \<Rightarrow> js js_object" where
  "own_fields (Obj fs) = fs"
| "own_fields (Arr xs) = map (\<lambda>i. (int_str (int i), xs ! i)) [0..<length xs]"
| "own_fields (Str s) = map (\<lambda>i. (int_str (int i), Str [s ! i])) [0..<length s]"
| "own_fields _ = []"

definition redactUserOp :: "js \<Rightarrow> js" where
  "redactUserOp userOp = Obj (spread (own_fields userOp)
     [(''signature'', Str ''0x_REDACTED''), (''callData'', Str ''0x_REDACTED''),
      (''factoryData'', Str ''0x_REDACTED''), (''eip7702Auth'', Str ''0x_REDACTED'')])"

definition redactedEvent :: "audit_event \<Rightarrow> audit_event" where
  "redactedEvent event = event\<lparr>ev_data := (ev_data event)\<lparr>ai_userOp := redactUserOp (ai_userOp (ev_data event))\<rparr>\<rparr>"

section \<open>The writer\<close>

record audit_sink =
  as_file :: "audit_event list"
  as_errors :: "(string \<times> audit_event) list"

definition pino_write :: "(audit_event \<Rightarrow> bool) \<Rightarrow> string \<Rightarrow> audit_event \<Rightarrow> audit_sink \<Rightarrow> audit_sink" where
  "pino_write info destinationPath event s =
     (if info (redactedEvent event) then s\<lparr>as_file := as_file s @ [redactedEvent event]\<rparr>
      else s\<lparr>as_errors := as_errors s @ [(''Failed to write audit log event to '' @ destinationPath @ ''.'', event)]\<rparr>)"

definition healthCheck :: bool where
  "healthCheck = True"

text \<open>\<open>path.dirname\<close> of a POSIX path.\<close>

definition path_dirname :: "string \<Rightarrow> string" where
  "path_dirname path =
     (let rest = dropWhile (\<lambda>c. c \<noteq> CHR ''/'') (dropWhile (\<lambda>c. c = CHR ''/'') (rev (tl path))) in
      if path = [] then ''.''
      else if rest = [] then (if hd path = CHR ''/'' then ''/'' else ''.'')
      else if hd path = CHR ''/'' \<and> tl rest = [] then ''//''
      else hd path # rev (tl rest))"

text \<open>The directory that is made before the file is opened, if any.\<close>

definition createPinoAuditLogWriter :: "(string \<Rightarrow> bool) \<Rightarrow> string \<Rightarrow> string option" where
  "createPinoAuditLogWriter existsSync destinationPath =
     (let dir = path_dirname destinationPath in if \<not> existsSync dir then Some dir else None)"

definition createAuditLogWriter :: "(string \<Rightarrow> bool) \<Rightarrow> string \<Rightarrow> string \<Rightarrow> exn + string option" where
  "createAuditLogWriter existsSync backend destinationPath =
     (if backend = ''pino'' then Inr (createPinoAuditLogWriter existsSync destinationPath)
      else Inl (ErrorExn (''Unknown audit log backend: '' @ backend)))"

lemma path_dirname_examples:
  "path_dirname ''/var/log/audit.log'' = ''/var/log''" "path_dirname ''audit.log'' = ''.''"
  "path_dirname ''/audit.log'' = ''/''" "path_dirname ''logs/'' = ''.''"
  by code_simp+

text \<open>What the writer makes of the events the worker handed to it, in order.\<close>

definition writtenBy :: "(audit_event \<Rightarrow> bool) \<Rightarrow> string \<Rightarrow> audit_event list \<Rightarrow> audit_sink" where
  "writtenBy info destinationPath events =
     fold (pino_write info destinationPath) events \<lparr>as_file = [], as_errors = []\<rparr>"

lemma fold_pino_write:
  "fold (pino_write info dest) es s = s\<lparr>as_file := as_file s @ filter info (map redactedEvent es),
     as_errors := as_errors s @ map (\<lambda>e. (''Failed to write audit log event to '' @ dest @ ''.'', e))
        (filter (\<lambda>e. \<not> info (redactedEvent e)) es)\<rparr>"
  by (induction es arbitrary: s) (simp_all add: pino_write_def)

lemma writtenBy_file: "as_file (writtenBy info dest es) = filter info (map redactedEvent es)"
  by (simp add: writtenBy_def fold_pino_write)

text \<open>An event that cannot be written appears in the node's log as it is, secrets included.\<close>

lemma failed_write_logs_the_secrets:
  assumes "e \<in> set es" and "\<not> info (redactedEvent e)"
  shows "e \<in> snd ` set (as_errors (writtenBy info dest es))"
  using assms by (force simp: writtenBy_def fold_pino_write)

section \<open>The file does not depend on what is redacted\<close>

definition secretFields :: "string list" where
  "secretFields = [''signature'', ''callData'', ''factoryData'', ''eip7702Auth'']"

text \<open>The same fields in the same order, with the same values except for those in \<open>ks\<close>.\<close>

definition same_except :: "string set \<Rightarrow> js js_object \<Rightarrow> js js_object \<Rightarrow> bool" where
  "same_except ks = list_all2 (\<lambda>(k, v) (k', v'). k = k' \<and> (k \<in> ks \<or> v = v'))"

definition same_public :: "audit_event \<Rightarrow> audit_event \<Rightarrow> bool" where
  "same_public e e' \<longleftrightarrow>
     e\<lparr>ev_data := (ev_data e)\<lparr>ai_userOp := Undefined\<rparr>\<rparr> = e'\<lparr>ev_data := (ev_data e')\<lparr>ai_userOp := Undefined\<rparr>\<rparr> \<and>
     obj_ok (own_fields (ai_userOp (ev_data e))) \<and>
     same_except (set secretFields) (own_fields (ai_userOp (ev_data e))) (own_fields (ai_userOp (ev_data e')))"

lemma same_except_keys: "same_except ks fs gs \<Longrightarrow> map fst fs = map fst gs"
  unfolding same_except_def by (induction rule: list_all2_induct) auto

lemma same_except_absent:
  "same_except ks fs gs \<Longrightarrow> k \<notin> fst ` set fs \<Longrightarrow> same_except (ks - {k}) fs gs"
  unfolding same_except_def by (induction rule: list_all2_induct) auto

lemma same_except_update:
  "same_except ks fs gs \<Longrightarrow> obj_ok fs \<Longrightarrow> same_except (ks - {k}) (AList.update k v fs) (AList.update k v gs)"
proof (induction fs arbitrary: gs)
  case (Cons p fs)
  then obtain q gs' where gs: "gs = q # gs'" "fst q = fst p" "fst p \<in> ks \<or> snd p = snd q"
    "same_except ks fs gs'"
    by (auto simp: same_except_def list_all2_Cons1)
  show ?case
  proof (cases "fst p = k")
    case True
    with Cons.prems(2) have "k \<notin> fst ` set fs" by (auto simp: obj_ok_def)
    from same_except_absent [OF gs(4) this] True gs show ?thesis
      by (cases p; cases q) (simp add: same_except_def)
  next
    case False
    from Cons.prems(2) have "obj_ok fs" by (simp add: obj_ok_def)
    from Cons.IH [OF gs(4) this] False gs show ?thesis
      by (cases p; cases q) (auto simp: same_except_def)
  qed
qed (simp add: same_except_def)

lemma same_except_empty: "same_except {} fs gs \<longleftrightarrow> fs = gs"
  by (auto simp: same_except_def list.rel_eq intro: list_all2_refl elim!: list_all2_mono
      [where Q = "(=)", simplified list.rel_eq])

lemma same_public_redacted:
  assumes "same_public e e'"
  shows "redactedEvent e = redactedEvent e'"
proof -
  let ?f = "own_fields (ai_userOp (ev_data e))" and ?g = "own_fields (ai_userOp (ev_data e'))"
  let ?u = "\<lambda>k. AList.update k (Str ''0x_REDACTED'')"
  from assms have *: "obj_ok ?f" "same_except (set secretFields) ?f ?g" by (simp_all add: same_public_def)
  from same_except_update [OF same_except_update [OF same_except_update [OF same_except_update [OF *(2)]]]]
  have "same_except (set secretFields - {''signature''} - {''callData''} - {''factoryData''} - {''eip7702Auth''})
      (?u ''eip7702Auth'' (?u ''factoryData'' (?u ''callData'' (?u ''signature'' ?f))))
      (?u ''eip7702Auth'' (?u ''factoryData'' (?u ''callData'' (?u ''signature'' ?g))))"
    using *(1) by (simp add: obj_ok_def distinct_update)
  moreover have "set secretFields - {''signature''} - {''callData''} - {''factoryData''} - {''eip7702Auth''} = {}"
    by (simp add: secretFields_def)
  ultimately have "redactUserOp (ai_userOp (ev_data e)) = redactUserOp (ai_userOp (ev_data e'))"
    by (simp add: same_except_empty redactUserOp_def spread_def)
  with assms show ?thesis
    by (cases e; cases e'; cases "ev_data e"; cases "ev_data e'") (auto simp: same_public_def redactedEvent_def)
qed

section \<open>The queue treats events as opaque\<close>

definition map_queue :: "('a \<Rightarrow> 'b) \<Rightarrow> 'a audit_queue \<Rightarrow> 'b audit_queue" where
  "map_queue f s = \<lparr>aq_buffer = map (map_option f) (aq_buffer s), aq_head = aq_head s, aq_tail = aq_tail s,
     aq_slots = aq_slots s, aq_running = aq_running s, aq_waiting = map f (aq_waiting s),
     aq_blocked = map f (aq_blocked s), aq_pc = map_worker_pc f (aq_pc s),
     aq_log = map (map_prod f (\<lambda>ok. ok)) (aq_log s)\<rparr>"

lemma map_queue_simps [simp]:
  "aq_buffer (map_queue f s) = map (map_option f) (aq_buffer s)" "aq_head (map_queue f s) = aq_head s"
  "aq_tail (map_queue f s) = aq_tail s" "aq_slots (map_queue f s) = aq_slots s"
  "aq_running (map_queue f s) = aq_running s" "aq_waiting (map_queue f s) = map f (aq_waiting s)"
  "aq_blocked (map_queue f s) = map f (aq_blocked s)" "aq_pc (map_queue f s) = map_worker_pc f (aq_pc s)"
  "aq_log (map_queue f s) = map (map_prod f (\<lambda>ok. ok)) (aq_log s)"
  by (simp_all add: map_queue_def)

lemma audit_queue_eqI:
  fixes s t :: "'e audit_queue"
  assumes "aq_buffer s = aq_buffer t" "aq_head s = aq_head t" "aq_tail s = aq_tail t" "aq_slots s = aq_slots t"
    "aq_running s = aq_running t" "aq_waiting s = aq_waiting t" "aq_blocked s = aq_blocked t"
    "aq_pc s = aq_pc t" "aq_log s = aq_log t"
  shows "s = t"
  using assms by (cases s; cases t) simp

definition head_ok :: "nat \<Rightarrow> 'e audit_queue \<Rightarrow> bool" where
  "head_ok cap s \<longleftrightarrow> aq_head s < cap \<and> length (aq_buffer s) = cap"

lemma head_ok_action: "0 < cap \<Longrightarrow> head_ok cap s \<Longrightarrow> head_ok cap (do_action cap a s)"
  by (cases a) (simp_all add: head_ok_def enqueue_acquire_def enqueue_store_def shutdown_def worker_step_def
      drain_take_def drain_write_def release_slot_def split: list.split worker_pc.split option.split)

lemma worker_step_map:
  "head_ok cap s \<Longrightarrow> worker_step cap ok (map_queue f s) = map_queue f (worker_step cap ok s)"
  by (cases "aq_pc s"; rule audit_queue_eqI)
    (auto simp: worker_step_def drain_take_def drain_write_def release_slot_def head_ok_def map_update
      split: list.split option.split)

lemma do_action_map:
  "head_ok cap s \<Longrightarrow> do_action cap (map_audit_action f a) (map_queue f s) = map_queue f (do_action cap a s)"
  by (cases a) (auto simp: worker_step_map enqueue_acquire_def enqueue_store_def shutdown_def map_update
      split: list.split intro!: audit_queue_eqI)

lemma run_actions_map:
  assumes "0 < cap"
  shows "run_actions cap (map (map_audit_action f) acts) = map_queue f (run_actions cap acts)"
proof -
  have "head_ok cap s \<Longrightarrow> fold (do_action cap) (map (map_audit_action f) acts) (map_queue f s)
      = map_queue f (fold (do_action cap) acts s)" for s
    by (induction acts arbitrary: s) (simp_all add: do_action_map head_ok_action [OF assms])
  moreover have "createAuditLogQueue cap = map_queue f (createAuditLogQueue cap)"
    by (rule audit_queue_eqI) (simp_all add: createAuditLogQueue_def)
  moreover have "head_ok cap (createAuditLogQueue cap)"
    using assms by (simp add: head_ok_def createAuditLogQueue_def)
  ultimately show ?thesis by (simp add: run_actions_def)
qed

definition auditFile :: "(audit_event \<Rightarrow> bool) \<Rightarrow> string \<Rightarrow> audit_event audit_queue \<Rightarrow> audit_event list" where
  "auditFile info destinationPath s = as_file (writtenBy info destinationPath (map fst (aq_log s)))"

text \<open>
  Property C15. The audit file is independent of signatures, call data, factory data and EIP-7702
  authorizations: two runs of the queue under the same schedule, in any interleaving of producers,
  worker and shutdown, whose events differ in nothing but these four fields of their user
  operations, leave the same audit file.
\<close>

theorem audit_file_hides_secrets:
  assumes "0 < cap" and "list_all2 (rel_audit_action same_public) acts acts'"
  shows "auditFile info dest (run_actions cap acts) = auditFile info dest (run_actions cap acts')"
proof -
  have lines: "auditFile info dest (run_actions cap as)
      = filter info (map fst (aq_log (run_actions cap (map (map_audit_action redactedEvent) as))))" for as
    unfolding run_actions_map [OF assms(1)] by (simp add: auditFile_def writtenBy_file comp_def)
  from assms(2) have "map (map_audit_action redactedEvent) acts = map (map_audit_action redactedEvent) acts'"
  proof (induction rule: list_all2_induct)
    case (Cons a as b bs)
    then show ?case by (cases a; cases b) (auto dest: same_public_redacted)
  qed simp
  then show ?thesis unfolding lines by simp
qed

definition demo_event :: "string \<Rightarrow> audit_event" where
  "demo_event sig = \<lparr>ev_timestamp = ''now'', ev_kind = ''userOp-lifecycle'', ev_clientVersion = ''1'',
     ev_nodeCommitHash = ''c'', ev_data = \<lparr>ai_lifecycleStage = userOpReceived, ai_chainId = 1,
     ai_userOp = Obj [(''sender'', Str ''0xab''), (''signature'', Str sig)], ai_userOpHash = ''0x0'',
     ai_entryPoint = ''0xE'', ai_details = Undefined\<rparr>\<rparr>"

definition demo_schedule :: "string \<Rightarrow> audit_event audit_action list" where
  "demo_schedule sig = [A_enqueue (demo_event sig), A_store, A_worker True, A_worker True, A_worker True, A_worker True]"

theorem audit_file_hides_secrets_witness:
  "auditFile (\<lambda>_. True) ''f'' (run_actions 1 (demo_schedule ''0x01''))
     = auditFile (\<lambda>_. True) ''f'' (run_actions 1 (demo_schedule ''0x02'')) \<and>
   length (auditFile (\<lambda>_. True) ''f'' (run_actions 1 (demo_schedule ''0x01''))) = 1"
proof
  have "same_public (demo_event ''0x01'') (demo_event ''0x02'')"
    by (simp add: same_public_def demo_event_def obj_ok_def same_except_def secretFields_def)
  then show "auditFile (\<lambda>_. True) ''f'' (run_actions 1 (demo_schedule ''0x01''))
     = auditFile (\<lambda>_. True) ''f'' (run_actions 1 (demo_schedule ''0x02''))"
    by (intro audit_file_hides_secrets) (simp_all add: demo_schedule_def)
  show "length (auditFile (\<lambda>_. True) ''f'' (run_actions 1 (demo_schedule ''0x01''))) = 1"
    by (simp add: auditFile_def writtenBy_file) code_simp
qed

end
