(* ===== verification/P2p.thy ===== *)
theory P2p
  imports Prelude
begin

text \<open>
  The peer-to-peer node (\<open>src/p2p/Libp2p-node.ts\<close>): the checks of the peers' addresses, starting,
  pinging the first peer and stopping. \<open>libp2p\<close> and \<open>multiaddr\<close> are parameters. The command line
  program refuses peer-to-peer mode, so no node creates this manager yet.
\<close>

record p2p_lib =
  lp_multiaddr :: "string \<Rightarrow> exn + string"
  lp_isMultiaddr :: "string \<Rightarrow> bool"
  lp_createLibp2p :: "exn + unit"
  lp_start :: "exn + unit"
  lp_stop :: "exn + unit"
  lp_getMultiaddrs :: "string list"
  lp_ping :: "string \<Rightarrow> exn + nat"

record p2p_config =
  p2_peerMultiaddrs :: "string list"
  p2_connectToPeers :: bool

record p2p_state =
  p2_node :: bool
  p2_started :: bool
  p2_log :: "string list"

definition p2p_info :: "string \<Rightarrow> (p2p_state, unit) act" where
  "p2p_info msg = (\<lambda>s. (Inr (), s\<lparr>p2_log := p2_log s @ [msg]\<rparr>))"

fun validatePeerMultiAddress :: "p2p_lib \<Rightarrow> string list \<Rightarrow> exn + unit" where
  "validatePeerMultiAddress lib [] = Inr ()"
| "validatePeerMultiAddress lib (peerMultiaddr # rest) =
     bindX (lp_multiaddr lib peerMultiaddr) (\<lambda>ma.
       if \<not> lp_isMultiaddr lib ma then Inl (ErrorExn (''Invalid peerMultiaddr '' @ peerMultiaddr))
       else validatePeerMultiAddress lib rest)"

definition createNewNode :: "p2p_lib \<Rightarrow> (p2p_state, unit) act" where
  "createNewNode lib = andThen (liftE (lp_createLibp2p lib)) (\<lambda>_ s. (Inr (), s\<lparr>p2_node := True, p2_started := False\<rparr>))"

definition node_start :: "p2p_lib \<Rightarrow> (p2p_state, unit) act" where
  "node_start lib = andThen (liftE (lp_start lib)) (\<lambda>_ s. (Inr (), s\<lparr>p2_started := True\<rparr>))"

definition doPing :: "p2p_lib \<Rightarrow> p2p_config \<Rightarrow> (p2p_state, unit) act" where
  "doPing lib cfg = andThen (p2p_info ''Starting pinging remote peer to check connectivity'') (\<lambda>_.
     if p2_peerMultiaddrs cfg \<noteq> [] \<and> p2_connectToPeers cfg then
       andThen (liftE (lp_multiaddr lib (hd (p2_peerMultiaddrs cfg)))) (\<lambda>ma.
       andThen (liftE (lp_ping lib ma)) (\<lambda>latency.
         p2p_info (''pinged remote peer at '' @ hd (p2_peerMultiaddrs cfg) @ '' in '' @ nat_str latency @ ''ms'')))
     else p2p_info ''No remote peer address given, skipping ping'')"

definition p2p_start :: "p2p_lib \<Rightarrow> p2p_config \<Rightarrow> (p2p_state, unit) act" where
  "p2p_start lib cfg =
     andThen (\<lambda>s. if p2_node s then node_start lib s
                  else andThen (createNewNode lib) (\<lambda>_. node_start lib) s)
       (\<lambda>_. andThen (p2p_info ''libp2p node listening on addresses:'') (\<lambda>_.
            andThen (for_each (lp_getMultiaddrs lib) (\<lambda>addr. p2p_info (''- '' @ addr))) (\<lambda>_.
            doPing lib cfg)))"

definition p2p_stop :: "p2p_lib \<Rightarrow> (p2p_state, unit) act" where
  "p2p_stop lib = (\<lambda>s.
     if \<not> p2_node s then p2p_info ''Libp2p node is not created, skipping stop'' s
     else andThen (liftE (lp_stop lib)) (\<lambda>_. andThen (\<lambda>s. (Inr (), s\<lparr>p2_started := False\<rparr>))
       (\<lambda>_. p2p_info ''Stopping libp2p node'')) s)"

definition createLibp2pNodeManager :: "p2p_lib \<Rightarrow> p2p_config \<Rightarrow> exn + p2p_state" where
  "createLibp2pNodeManager lib cfg =
     bindX (validatePeerMultiAddress lib (p2_peerMultiaddrs cfg))
       (\<lambda>_. Inr \<lparr>p2_node = False, p2_started = False, p2_log = []\<rparr>)"

section \<open>What the manager guarantees\<close>

lemma validatePeer_iff:
  "validatePeerMultiAddress lib peers = Inr () \<longleftrightarrow>
     (\<forall>p \<in> set peers. \<exists>ma. lp_multiaddr lib p = Inr ma \<and> lp_isMultiaddr lib ma)"
proof (induction peers)
  case (Cons p peers)
  then show ?case by (cases "lp_multiaddr lib p") (auto simp: bindX_def)
qed simp

text \<open>
  \<open>multiaddr\<close> throws on an address it cannot parse and \<open>isMultiaddr\<close> holds of what it returns, so the
  manager's own message never appears: a bad address fails with the library's.
\<close>

lemma own_message_unreachable:
  assumes "\<And>p ma. lp_multiaddr lib p = Inr ma \<Longrightarrow> lp_isMultiaddr lib ma"
    and "validatePeerMultiAddress lib peers = Inl e"
  shows "\<exists>p \<in> set peers. lp_multiaddr lib p = Inl e"
  using assms(2)
proof (induction peers)
  case (Cons p peers)
  then show ?case by (cases "lp_multiaddr lib p") (auto simp: bindX_def dest: assms(1))
qed simp

lemma p2p_infos_run:
  "for_each xs (\<lambda>x. p2p_info (f x)) s = (Inr (), s\<lparr>p2_log := p2_log s @ map f xs\<rparr>)"
  by (induction xs arbitrary: s) (simp_all add: andThen_def p2p_info_def)

lemma doPing_keeps: "p2_started (snd (doPing lib cfg s)) = p2_started s \<and> p2_node (snd (doPing lib cfg s)) = p2_node s"
  by (auto simp: doPing_def andThen_def p2p_info_def split: sum.split)

text \<open>A start that throws because the peer does not answer leaves the node running.\<close>

lemma failed_ping_leaves_node_running:
  assumes "lp_createLibp2p lib = Inr ()" and "lp_start lib = Inr ()"
  shows "p2_node (snd (p2p_start lib cfg s)) \<and> p2_started (snd (p2p_start lib cfg s))"
proof -
  define t where "t = (if p2_node s then s\<lparr>p2_started := True\<rparr> else s\<lparr>p2_node := True, p2_started := True\<rparr>)"
  have t: "(if p2_node s then node_start lib s
      else andThen (createNewNode lib) (\<lambda>_. node_start lib) s) = (Inr (), t)" "p2_node t" "p2_started t"
    using assms by (simp_all add: t_def node_start_def createNewNode_def andThen_def)
  obtain v where v: "p2p_start lib cfg s = doPing lib cfg v" "p2_node v" "p2_started v"
    unfolding p2p_start_def andThen_Inr [where m = "\<lambda>s. if p2_node s then node_start lib s
      else andThen (createNewNode lib) (\<lambda>_. node_start lib) s", OF t(1)]
    using t(2,3) by (simp add: andThen_def p2p_infos_run) (simp add: p2p_info_def)
  with doPing_keeps [of lib cfg v] show ?thesis by simp
qed

lemma stop_without_node: "\<not> p2_node s \<Longrightarrow> fst (p2p_stop lib s) = Inr () \<and> \<not> p2_node (snd (p2p_stop lib s))"
  by (simp add: p2p_stop_def p2p_info_def)

lemma stop_stops: "fst (p2p_stop lib s) = Inr () \<Longrightarrow> p2_node s \<Longrightarrow> \<not> p2_started (snd (p2p_stop lib s))"
  by (auto simp: p2p_stop_def p2p_info_def andThen_def split: sum.splits)

end
