(* ===== verification/Metrics.thy ===== *)
theory Metrics
  imports Js_Double
begin

text \<open>
  The metrics tracker (\<open>src/metrics/metrics-tracker.ts\<close>, \<open>src/types/metrics.types.ts\<close>): what one run
  of its interval hands to the InfluxDB client. The readings of the operating system and of the
  process are parameters; an absent reading makes the run fail.
\<close>

datatype measurement =
    ALLOC | HELD | USED | EXTERNAL | USER_CPU_USAGE | SYSTEM_CPU_USAGE
  | FREE_MEMORY | TOTAL_MEMORY | USED_MEMORY | MEMORY_USAGE
  | FREE_DISK | TOTAL_DISK | USED_DISK | DISK_USAGE | CPU_COUNT | CPU_USAGE

record disk_reading =
  dk_diskTotal :: rat
  dk_diskFree :: rat
  dk_diskUsed :: rat

record readings =
  os_cpuUsage :: "rat option"
  os_cpuCount :: rat
  os_freemem :: rat
  os_totalmem :: rat
  os_harddrive :: "disk_reading option"
  ps_rss :: rat
  ps_heapTotal :: rat
  ps_heapUsed :: rat
  ps_external :: rat
  ps_user :: rat
  ps_system :: rat
  ps_uptime :: rat

definition getCpuUsage :: "readings \<Rightarrow> exn + rat" where
  "getCpuUsage r = (case os_cpuUsage r of
     Some usage \<Rightarrow> Inr (fl (usage * 100)) | None \<Rightarrow> Inl (ErrorExn ''Unable to get CPU usage.''))"

definition getDiskUsage :: "readings \<Rightarrow> exn + disk_reading" where
  "getDiskUsage r = (case os_harddrive r of
     Some d \<Rightarrow> Inr d | None \<Rightarrow> Inl (ErrorExn ''Unable to get Disk usage.''))"

definition percent_used :: "rat \<Rightarrow> rat \<Rightarrow> rat" where
  "percent_used amount free = fl (fl (fl (amount - free) / amount) * 100)"

definition megabytes :: "rat \<Rightarrow> rat" where
  "megabytes bytes = of_int \<lfloor>fl (bytes / 1048576)\<rfloor>"

definition cpu_percent :: "rat \<Rightarrow> rat \<Rightarrow> rat" where
  "cpu_percent micros uptime = fl (fl (fl (micros / 1000000) / uptime) * 100)"

definition systemMetrics :: "readings \<Rightarrow> rat \<Rightarrow> disk_reading \<Rightarrow> (measurement \<times> rat) list" where
  "systemMetrics r cpuUsagePerc disk =
     [(ALLOC, megabytes (ps_rss r)),
      (HELD, megabytes (ps_heapTotal r)),
      (USED, megabytes (ps_heapUsed r)),
      (USER_CPU_USAGE, megabytes (ps_external r)),
      (SYSTEM_CPU_USAGE, cpu_percent (ps_user r) (ps_uptime r)),
      (EXTERNAL, cpu_percent (ps_system r) (ps_uptime r)),
      (CPU_COUNT, os_cpuCount r),
      (CPU_USAGE, cpuUsagePerc),
      (MEMORY_USAGE, percent_used (os_totalmem r) (os_freemem r)),
      (USED_MEMORY, fl (fl (os_totalmem r - os_freemem r) / 1024)),
      (FREE_MEMORY, fl (os_freemem r / 1024)),
      (TOTAL_MEMORY, fl (os_totalmem r / 1024)),
      (DISK_USAGE, percent_used (dk_diskTotal disk) (dk_diskFree disk)),
      (USED_DISK, fl (dk_diskUsed disk / 1024)),
      (FREE_DISK, fl (dk_diskFree disk / 1024)),
      (TOTAL_DISK, fl (dk_diskTotal disk / 1024))]"

definition collectAndStoreSystemMetrics :: "readings \<Rightarrow> exn + (measurement \<times> rat) list" where
  "collectAndStoreSystemMetrics r =
     bindX (getCpuUsage r) (\<lambda>cpuUsagePerc.
     bindX (getDiskUsage r) (\<lambda>disk. Inr (systemMetrics r cpuUsagePerc disk)))"

text \<open>The interval of the tracker, with its period in milliseconds.\<close>

definition stopTracker :: "nat option \<Rightarrow> nat option" where
  "stopTracker interval = (if interval \<noteq> None then None else interval)"

definition startTracker :: "nat option \<Rightarrow> nat option" where
  "startTracker interval = (let stopped = stopTracker interval in Some 1000)"

text \<open>
  A point carries every measurement once. Three of the process carry another one's value: the
  external memory is reported as the user's processor time, that as the system's, and the
  system's as external memory.
\<close>

lemma metrics_once: "distinct (map fst (systemMetrics r c d)) \<and> length (systemMetrics r c d) = 16"
  by (simp add: systemMetrics_def)

lemma process_metrics_are_shifted:
  "map_of (systemMetrics r c d) USER_CPU_USAGE = Some (megabytes (ps_external r))"
  "map_of (systemMetrics r c d) SYSTEM_CPU_USAGE = Some (cpu_percent (ps_user r) (ps_uptime r))"
  "map_of (systemMetrics r c d) EXTERNAL = Some (cpu_percent (ps_system r) (ps_uptime r))"
  by (simp_all add: systemMetrics_def)

section \<open>The InfluxDB client\<close>

text \<open>
  \<open>src/metrics/clients/influxdb-client.ts\<close>: the point that is written. A field set again keeps its
  place and takes the new value; the time in milliseconds is scaled to nanoseconds in a double.
\<close>

record influx_point =
  pt_measurement :: string
  pt_tags :: "(string \<times> string) list"
  pt_timestamp :: rat
  pt_fields :: "(measurement \<times> rat) list"

definition writePoint :: "string \<Rightarrow> nat \<Rightarrow> string \<Rightarrow> (measurement \<times> rat) list \<Rightarrow> influx_point" where
  "writePoint hostname getTime series readings_in =
     \<lparr>pt_measurement = series,
      pt_tags = [(''region'', ''west''), (''host'', hostname), (''node_id'', ''transeptor'')],
      pt_timestamp = fl (of_nat getTime * 1000000),
      pt_fields = fold (\<lambda>(name, v). AList.update name v) readings_in []\<rparr>"

lemma fold_update_distinct:
  "distinct (map fst (ob @ fs)) \<Longrightarrow> fold (\<lambda>(k, v). AList.update k v) fs ob = ob @ fs"
proof (induction fs arbitrary: ob)
  case (Cons p fs)
  then have "AList.update (fst p) (snd p) ob = ob @ [p]"
    by (induction ob) auto
  with Cons.IH [of "ob @ [p]"] Cons.prems show ?case by (simp add: case_prod_unfold)
qed simp

text \<open>Every measurement of a run reaches the point, and its time is off by less than a microsecond.\<close>

lemma point_has_every_measurement:
  "pt_fields (writePoint hostname t m (systemMetrics r c d)) = systemMetrics r c d"
  using fold_update_distinct [of "[]" "systemMetrics r c d"] metrics_once [of r c d]
  by (simp add: writePoint_def)

lemma point_time:
  assumes "t < 2 ^ 42"
  shows "\<bar>pt_timestamp (writePoint hostname t m fs) - of_nat t * 1000000\<bar> < 1000"
proof -
  have "(of_nat t :: rat) < of_nat (2 ^ 42)" using assms by (simp only: of_nat_less_iff)
  then have "(of_nat t :: rat) * 1000000 / 2 ^ 53 < 1000" by simp
  moreover have "\<bar>fl (of_nat t * 1000000) - of_nat t * 1000000\<bar> \<le> (of_nat t * 1000000 :: rat) / 2 ^ 53"
    using fl_error [of "of_nat t * 1000000"] by simp
  ultimately show ?thesis by (simp add: writePoint_def)
qed

end
