(* ===== verification/Lifecycle.thy ===== *)
theory Lifecycle
  imports Startup Audit_Writer P2p Metrics
begin

text \<open>
  The life of the process (\<open>src/cli.ts\<close>): the RPC server's \<open>start\<close> and \<open>stop\<close>
  (\<open>src/rpc/rpc-server.ts\<close>), the functions that stop the parts of the node, the handler of SIGTERM and
  the exit, together with the audit log they are to save (\<open>src/core/infrastructure.ts\<close>).

  One step is what runs between two suspension points. The HTTP server is Node's: \<open>close\<close> ends the
  listening and calls back when the last request is answered, with an error when the server was
  already closed or not yet listening. A rejection that nobody handles ends the process with code 1. Signals are handled from
  the end of \<open>createInfrastructure\<close> on, because \<open>runNode\<close> does not suspend before. The audit log is
  written by the writer of \<open>Audit_Writer\<close>, which does not fail.
\<close>

section \<open>The infrastructure\<close>

definition createInfrastructure :: "node_config \<Rightarrow> audit_event audit_queue \<times> audit_logger_deps \<times> nat option option" where
  "createInfrastructure config =
     (createAuditLogQueue (cf_auditLogBufferSize config),
      \<lparr>ad_clientVersion = cf_clientVersion config, ad_nodeCommitHash = cf_commitHash config,
       ad_environment = (case cf_environment config of None \<Rightarrow> ''undefined'' | Some e \<Rightarrow> e),
       ad_auditTrailEnabled = js_truthy (cf_auditTrail config)\<rparr>,
      if cf_isMetricsEnabled config then Some None else None)"

section \<open>State\<close>

datatype boot_stage = B_infrastructure | B_server | B_running

text \<open>
  What one call of the signal handler still waits for, whether the server's callback will bring it an
  error, and whether one of its stops was rejected.
\<close>

record sig_handler =
  sh_server :: bool
  sh_rejects :: bool
  sh_audit :: bool
  sh_failed :: bool

record process_env =
  pe_bufferCapacity :: nat
  pe_audit :: audit_logger_deps
  pe_tracker :: "nat option option"
  pe_p2p :: p2p_lib

text \<open>\<open>ps_server\<close>, \<open>ps_p2p\<close> and \<open>ps_logger\<close> tell whether the three variables of \<open>cli.ts\<close> are defined.\<close>

record process =
  ps_boot :: boot_stage
  ps_p2p :: "p2p_state option"
  ps_server :: bool
  ps_listening :: bool
  ps_requests :: nat
  ps_logger :: bool
  ps_audit :: "audit_event audit_queue"
  ps_tracker :: "nat option option"
  ps_handlers :: "sig_handler list"
  ps_exit :: "int option"

definition startedProcess :: "process_env \<Rightarrow> process" where
  "startedProcess env =
     \<lparr>ps_boot = B_infrastructure, ps_p2p = None, ps_server = False, ps_listening = False, ps_requests = 0,
      ps_logger = True, ps_audit = createAuditLogQueue (pe_bufferCapacity env), ps_tracker = pe_tracker env,
      ps_handlers = [], ps_exit = None\<rparr>"

section \<open>Starting and stopping\<close>

definition rpc_start :: "exn + unit \<Rightarrow> (process, unit) act" where
  "rpc_start preflightCheck = andThen (liftE preflightCheck) (\<lambda>_ s. (Inr (), s\<lparr>ps_listening := True\<rparr>))"

text \<open>The value tells whether the promise will be rejected.\<close>

definition rpc_stop :: "(process, bool) act" where
  "rpc_stop = (\<lambda>s. (Inr (\<not> ps_listening s), s\<lparr>ps_listening := False\<rparr>))"

text \<open>The first part of each stop; the value tells whether the handler has to wait for it.\<close>

definition stopBundlerServer :: "(process, bool option) act" where
  "stopBundlerServer = (\<lambda>s. if ps_server s then andThen rpc_stop (\<lambda>rejects. ret (Some rejects)) s else (Inr None, s))"

definition stopLibp2p :: "p2p_lib \<Rightarrow> (process, unit) act" where
  "stopLibp2p lib = (\<lambda>s. case ps_p2p s of
       None \<Rightarrow> (Inr (), s)
     | Some m \<Rightarrow> (case p2p_stop lib m of
         (Inl e, m') \<Rightarrow> (Inl e, s\<lparr>ps_p2p := Some m'\<rparr>)
       | (Inr _, m') \<Rightarrow> (Inr (), s\<lparr>ps_p2p := None\<rparr>)))"

definition stopAuditLogger :: "(process, bool) act" where
  "stopAuditLogger = (\<lambda>s. if ps_logger s then (Inr True, s\<lparr>ps_audit := shutdown (ps_audit s)\<rparr>) else (Inr False, s))"

fun succeeded :: "exn + 'a \<Rightarrow> bool" where
  "succeeded (Inr _) = True"
| "succeeded (Inl _) = False"

text \<open>\<open>Promise.all\<close> calls all three before it waits.\<close>

definition onSigterm :: "p2p_lib \<Rightarrow> process \<Rightarrow> process" where
  "onSigterm lib s =
     (let (server, s1) = stopBundlerServer s; (peers, s2) = stopLibp2p lib s1; (audit, s3) = stopAuditLogger s2
      in s3\<lparr>ps_handlers := ps_handlers s3 @ [\<lparr>sh_server = (server \<noteq> Inr None), sh_rejects = (server = Inr (Some True)),
             sh_audit = (audit = Inr True), sh_failed = (\<not> succeeded peers)\<rparr>]\<rparr>)"

text \<open>The server's callbacks come together, when it does not listen and every request is answered.\<close>

definition serverClosed :: "process \<Rightarrow> process" where
  "serverClosed s =
     (if \<not> ps_listening s \<and> ps_requests s = 0
      then s\<lparr>ps_server := ps_server s \<and> \<not> list_ex (\<lambda>h. sh_server h \<and> \<not> sh_rejects h) (ps_handlers s),
             ps_handlers := map (\<lambda>h. if sh_server h then h\<lparr>sh_server := False, sh_failed := sh_failed h \<or> sh_rejects h\<rparr>
                                     else h) (ps_handlers s)\<rparr>
      else s)"

text \<open>
  The stages of \<open>runNode\<close> after the infrastructure: services and managers, then the server and the
  interval of the metrics tracker, if there is one. A stage
  that throws is caught by the call of \<open>runNode\<close>, which ends the process with code 1.
\<close>

definition bootStage :: "exn + unit \<Rightarrow> process \<Rightarrow> process" where
  "bootStage r s =
     (case ps_boot s of
        B_infrastructure \<Rightarrow>
          (case r of Inl e \<Rightarrow> s\<lparr>ps_exit := Some 1\<rparr> | Inr _ \<Rightarrow> s\<lparr>ps_boot := B_server, ps_server := True\<rparr>)
      | B_server \<Rightarrow>
          (case rpc_start r s of
             (Inl e, s') \<Rightarrow> s'\<lparr>ps_exit := Some 1\<rparr>
           | (Inr _, s') \<Rightarrow> s'\<lparr>ps_boot := B_running, ps_tracker := map_option startTracker (ps_tracker s')\<rparr>)
      | B_running \<Rightarrow> s)"

section \<open>Steps\<close>

text \<open>
  \<open>P_closed\<close>: the server's callbacks, after which \<open>bundlerServer\<close> is undefined unless they brought errors only. \<open>P_flushed\<close>: the
  worker's promise, after which \<open>auditLogger\<close> is. \<open>P_exit\<close>: a handler that waits for nothing more.
  \<open>P_crash\<close>: the rejection of a handler. Events come from requests and from the automatic bundler,
  which nothing stops.
\<close>

datatype proc_action =
    P_boot "exn + unit" | P_sigterm | P_request | P_respond
  | P_log string audit_input | P_store | P_worker | P_closed | P_flushed | P_exit | P_crash

fun proc_act :: "process_env \<Rightarrow> proc_action \<Rightarrow> process \<Rightarrow> process" where
  "proc_act env (P_boot r) s = bootStage r s"
| "proc_act env P_sigterm s = onSigterm (pe_p2p env) s"
| "proc_act env P_request s = (if ps_listening s then s\<lparr>ps_requests := ps_requests s + 1\<rparr> else s)"
| "proc_act env P_respond s = s\<lparr>ps_requests := ps_requests s - 1\<rparr>"
| "proc_act env (P_log timestamp eventInput) s =
     s\<lparr>ps_audit := logUserOpLifecycleEvent (pe_audit env) timestamp eventInput (ps_audit s)\<rparr>"
| "proc_act env P_store s = s\<lparr>ps_audit := enqueue_store (pe_bufferCapacity env) (ps_audit s)\<rparr>"
| "proc_act env P_worker s = s\<lparr>ps_audit := worker_step (pe_bufferCapacity env) True (ps_audit s)\<rparr>"
| "proc_act env P_closed s = serverClosed s"
| "proc_act env P_flushed s =
     (if aq_pc (ps_audit s) = W_stopped
      then s\<lparr>ps_logger := False, ps_handlers := map (sh_audit_update (\<lambda>_. False)) (ps_handlers s)\<rparr> else s)"
| "proc_act env P_exit s =
     (if list_ex (\<lambda>h. \<not> sh_server h \<and> \<not> sh_audit h \<and> \<not> sh_failed h) (ps_handlers s)
      then s\<lparr>ps_exit := Some 0\<rparr> else s)"
| "proc_act env P_crash s = (if list_ex sh_failed (ps_handlers s) then s\<lparr>ps_exit := Some 1\<rparr> else s)"

definition proc_do :: "process_env \<Rightarrow> proc_action \<Rightarrow> process \<Rightarrow> process" where
  "proc_do env a s = (if ps_exit s = None then proc_act env a s else s)"

definition proc_run :: "process_env \<Rightarrow> proc_action list \<Rightarrow> process \<Rightarrow> process" where
  "proc_run env acts s = fold (proc_do env) acts s"

definition auditStopped :: "process \<Rightarrow> bool" where
  "auditStopped s \<longleftrightarrow> aq_pc (ps_audit s) = W_stopped"

text \<open>The events a call of the logger submits.\<close>

definition loggedEvents :: "process_env \<Rightarrow> string \<Rightarrow> audit_input \<Rightarrow> audit_event list" where
  "loggedEvents env timestamp eventInput =
     (if ad_environment (pe_audit env) \<noteq> ''production'' \<and> \<not> ad_auditTrailEnabled (pe_audit env) then []
      else [\<lparr>ev_timestamp = timestamp, ev_kind = ''userOp-lifecycle'',
             ev_clientVersion = ad_clientVersion (pe_audit env), ev_nodeCommitHash = ad_nodeCommitHash (pe_audit env),
             ev_data = eventInput\<rparr>])"

fun orderly_action :: "proc_action \<Rightarrow> process \<Rightarrow> bool" where
  "orderly_action P_worker s = (taking (ps_audit s) \<longrightarrow> aq_waiting (ps_audit s) = [])"
| "orderly_action (P_log _ _) s = False"
| "orderly_action _ s = True"

text \<open>
  Runs in which the audit queue's worker is orderly, with the events logged before and after the
  worker has stopped.
\<close>

inductive life_run :: "process_env \<Rightarrow> audit_event list \<Rightarrow> audit_event list \<Rightarrow> process \<Rightarrow> bool" for env :: process_env where
  life_start: "life_run env [] [] (startedProcess env)"
| life_early: "life_run env es late s \<Longrightarrow> ps_exit s = None \<Longrightarrow> \<not> auditStopped s \<Longrightarrow>
    life_run env (es @ loggedEvents env t i) late (proc_do env (P_log t i) s)"
| life_late: "life_run env es late s \<Longrightarrow> ps_exit s = None \<Longrightarrow> auditStopped s \<Longrightarrow>
    life_run env es (late @ loggedEvents env t i) (proc_do env (P_log t i) s)"
| life_other: "life_run env es late s \<Longrightarrow> orderly_action a s \<Longrightarrow> life_run env es late (proc_do env a s)"

section \<open>What an exit leaves in the audit file\<close>

definition life_inv :: "process_env \<Rightarrow> audit_event list \<Rightarrow> audit_event list \<Rightarrow> process \<Rightarrow> bool" where
  "life_inv env es late s \<longleftrightarrow>
     (if auditStopped s then map fst (aq_log (ps_audit s)) = es
      else audit_inv (pe_bufferCapacity env) es (ps_audit s) \<and> late = [] \<and> ps_logger s \<and>
        (\<forall>h \<in> set (ps_handlers s). sh_audit h) \<and> ps_exit s \<noteq> Some 0) \<and> ps_p2p s = None"

lemma life_inv_start: "0 < pe_bufferCapacity env \<Longrightarrow> life_inv env [] [] (startedProcess env)"
  by (simp add: life_inv_def startedProcess_def inv_start auditStopped_def)
    (simp add: createAuditLogQueue_def)

text \<open>Steps that leave the queue, the logger and the waiting for it alone.\<close>

lemma life_inv_frame:
  assumes "life_inv env es late s" and "ps_audit t = ps_audit s" and "ps_logger t = ps_logger s" and "ps_p2p t = None"
    and "\<And>h. h \<in> set (ps_handlers t) \<Longrightarrow> \<exists>h' \<in> set (ps_handlers s). sh_audit h = sh_audit h'"
    and "ps_exit t = Some 0 \<Longrightarrow> auditStopped s \<or> ps_exit s = Some 0"
  shows "life_inv env es late t"
  using assms by (auto simp: life_inv_def auditStopped_def)

lemma logUserOp_events:
  "logUserOpLifecycleEvent (pe_audit env) t i q = fold enqueue_acquire (loggedEvents env t i) q"
  by (simp add: logUserOpLifecycleEvent_def loggedEvents_def)

lemma enqueues_inv: "audit_inv cap es q \<Longrightarrow> audit_inv cap (es @ new) (fold enqueue_acquire new q)"
proof (induction new arbitrary: es q)
  case (Cons e new)
  from Cons.IH [OF inv_enqueue [OF Cons.prems, of e]] show ?case by simp
qed simp

lemma enqueues_fields [simp]:
  "aq_pc (fold enqueue_acquire new q) = aq_pc q" "aq_log (fold enqueue_acquire new q) = aq_log q"
  by (induction new arbitrary: q) (simp_all add: enqueue_acquire_def)

lemma life_inv_log:
  assumes "life_inv env es late s"
  shows "life_inv env (if auditStopped s then es else es @ loggedEvents env t i)
    (if auditStopped s then late @ loggedEvents env t i else late) (proc_act env (P_log t i) s)"
  using assms enqueues_inv [of "pe_bufferCapacity env" es "ps_audit s" "loggedEvents env t i"]
  by (auto simp: life_inv_def auditStopped_def logUserOp_events)

lemma life_inv_queue:
  assumes "life_inv env es late s" and "0 < pe_bufferCapacity env" and "orderly_action P_worker s"
  shows "life_inv env es late (proc_act env P_worker s)"
proof (cases "auditStopped s")
  case True
  with assms(1) show ?thesis by (simp add: life_inv_def auditStopped_def)
next
  case False
  let ?q = "worker_step (pe_bufferCapacity env) True (ps_audit s)"
  from False assms(1) have i: "audit_inv (pe_bufferCapacity env) es (ps_audit s)" by (simp add: life_inv_def)
  from inv_worker [OF i, of True] assms(3) have i': "audit_inv (pe_bufferCapacity env) es ?q" by simp
  have "map fst (aq_log ?q) = es" if "aq_pc ?q = W_stopped"
    using worker_stops_empty [OF i assms(2) _ that] False i' by (simp add: auditStopped_def audit_inv_def)
  with i' False assms(1) show ?thesis by (auto simp: life_inv_def auditStopped_def)
qed

lemma store_fields [simp]: "aq_pc (enqueue_store cap q) = aq_pc q" "aq_log (enqueue_store cap q) = aq_log q"
  by (simp_all add: enqueue_store_def split: list.split)

lemma onSigterm_run:
  assumes "ps_p2p s = None"
  shows "onSigterm lib s = s\<lparr>ps_listening := ps_listening s \<and> \<not> ps_server s,
      ps_audit := if ps_logger s then shutdown (ps_audit s) else ps_audit s,
      ps_handlers := ps_handlers s @ [\<lparr>sh_server = ps_server s, sh_rejects = (ps_server s \<and> \<not> ps_listening s),
        sh_audit = ps_logger s, sh_failed = False\<rparr>]\<rparr>"
  using assms
  by (simp add: onSigterm_def stopBundlerServer_def stopAuditLogger_def stopLibp2p_def rpc_stop_def andThen_def)

lemma life_inv_sigterm: "life_inv env es late s \<Longrightarrow> life_inv env es late (onSigterm lib s)"
  using inv_shutdown [of "pe_bufferCapacity env" es "ps_audit s"]
  by (auto simp: life_inv_def auditStopped_def shutdown_def onSigterm_run split: if_splits)

lemma bootStage_frame:
  "ps_audit (bootStage r s) = ps_audit s" "ps_logger (bootStage r s) = ps_logger s" "ps_p2p (bootStage r s) = ps_p2p s"
  "ps_handlers (bootStage r s) = ps_handlers s" "ps_exit (bootStage r s) = Some 0 \<Longrightarrow> ps_exit s = Some 0"
  by (auto simp: bootStage_def rpc_start_def andThen_def split: boot_stage.splits sum.splits)

lemma serverClosed_frame:
  "ps_audit (serverClosed s) = ps_audit s" "ps_logger (serverClosed s) = ps_logger s"
  "ps_p2p (serverClosed s) = ps_p2p s" "ps_exit (serverClosed s) = ps_exit s"
  "h \<in> set (ps_handlers (serverClosed s)) \<Longrightarrow> \<exists>h' \<in> set (ps_handlers s). sh_audit h = sh_audit h'"
  by (auto simp: serverClosed_def split: if_splits)

lemma life_inv_p2p: "life_inv env es late s \<Longrightarrow> ps_p2p s = None"
  by (simp add: life_inv_def)

lemma life_inv_act:
  assumes "life_inv env es late s" and "0 < pe_bufferCapacity env" and "orderly_action a s" and "ps_exit s = None"
  shows "life_inv env es late (proc_act env a s)"
proof (cases a)
  case (P_boot r)
  show ?thesis unfolding P_boot proc_act.simps
    by (rule life_inv_frame [OF assms(1)])
      (use bootStage_frame(5) assms(4) life_inv_p2p [OF assms(1)] in \<open>auto simp: bootStage_frame\<close>)
next
  case P_closed
  show ?thesis unfolding P_closed proc_act.simps
    by (rule life_inv_frame [OF assms(1)])
      (use serverClosed_frame(5) assms(4) life_inv_p2p [OF assms(1)] in \<open>auto simp: serverClosed_frame\<close>)
next
  case P_exit
  have "auditStopped s" if "list_ex (\<lambda>h. \<not> sh_server h \<and> \<not> sh_audit h \<and> \<not> sh_failed h) (ps_handlers s)"
    using that assms(1) by (auto simp: life_inv_def list_ex_iff split: if_splits)
  then show ?thesis
    by (auto simp: P_exit intro!: life_inv_frame [OF assms(1)] assms(1) life_inv_p2p [OF assms(1)])
next
  case P_store
  show ?thesis using assms(1) inv_store [of "pe_bufferCapacity env" es "ps_audit s"]
    by (simp add: P_store life_inv_def auditStopped_def)
next
  case P_flushed
  show ?thesis using assms(1) by (simp add: P_flushed life_inv_def auditStopped_def)
next
  case P_worker
  with life_inv_queue [OF assms(1,2)] assms(3) show ?thesis by simp
qed (use assms in \<open>auto simp: life_inv_sigterm intro!: life_inv_frame [OF assms(1)] life_inv_p2p [OF assms(1)]\<close>)

lemma life_run_inv: "life_run env es late s \<Longrightarrow> 0 < pe_bufferCapacity env \<Longrightarrow> life_inv env es late s"
proof (induction rule: life_run.induct)
  case (life_early es late s t i)
  with life_inv_log [of env es late s t i] show ?case by (simp add: proc_do_def)
next
  case (life_late es late s t i)
  with life_inv_log [of env es late s t i] show ?case by (simp add: proc_do_def)
next
  case (life_other es late s a)
  then show ?case by (simp add: proc_do_def life_inv_act)
qed (rule life_inv_start)

lemma exit_zero_was_asked_for: "life_run env es late s \<Longrightarrow> ps_exit s = Some 0 \<Longrightarrow> ps_handlers s \<noteq> []"
proof (induction rule: life_run.induct)
  case (life_other es late s a)
  show ?case
  proof (cases "ps_exit s")
    case None
    with life_other.prems show ?thesis
      by (cases a) (auto simp: proc_do_def onSigterm_def serverClosed_frame(4) dest: bootStage_frame(5)
          split: prod.splits if_splits)
  next
    case (Some c)
    with life_other show ?thesis by (simp add: proc_do_def)
  qed
qed (simp_all add: startedProcess_def proc_do_def)


section \<open>A graceful stop\<close>

text \<open>
  The signal, the answers to the open requests, the server's callback, \<open>n\<close> steps of the audit queue
  and the exit.
\<close>

fun settleProcess :: "process_env \<Rightarrow> nat \<Rightarrow> process \<Rightarrow> process" where
  "settleProcess env 0 s = s"
| "settleProcess env (Suc n) s =
     settleProcess env n (proc_do env (if aq_waiting (ps_audit s) \<noteq> [] then P_store else P_worker) s)"

definition gracefulStop :: "process_env \<Rightarrow> nat \<Rightarrow> process \<Rightarrow> process" where
  "gracefulStop env n s =
     proc_run env [P_flushed, P_exit] (settleProcess env n
       (proc_run env (P_sigterm # replicate (ps_requests s) P_respond @ [P_closed]) s))"

lemma settleProcess_run:
  "ps_exit s = None \<Longrightarrow> settleProcess env n s
     = s\<lparr>ps_audit := settle (pe_bufferCapacity env) (replicate n True) (ps_audit s)\<rparr>"
  by (induction n arbitrary: s) (simp_all add: settle_def proc_do_def settle_step_def)

lemma respond_all:
  "ps_exit s = None \<Longrightarrow> proc_run env (replicate n P_respond) s = s\<lparr>ps_requests := ps_requests s - n\<rparr>"
  by (induction n arbitrary: s) (simp_all add: proc_run_def proc_do_def)

lemma proc_run_append: "proc_run env (as @ bs) s = proc_run env bs (proc_run env as s)"
  by (simp add: proc_run_def)

lemma stopping_state:
  assumes "ps_exit s = None" and "ps_p2p s = None" and "ps_server s" and "ps_listening s" and "ps_handlers s = []"
    and "ps_logger s"
  shows "proc_run env (P_sigterm # replicate (ps_requests s) P_respond @ [P_closed]) s
    = s\<lparr>ps_listening := False, ps_requests := 0, ps_server := False, ps_audit := shutdown (ps_audit s),
        ps_handlers := [\<lparr>sh_server = False, sh_rejects = False, sh_audit = True, sh_failed = False\<rparr>]\<rparr>"
proof -
  let ?t = "s\<lparr>ps_listening := False, ps_audit := shutdown (ps_audit s),
        ps_handlers := [\<lparr>sh_server = True, sh_rejects = False, sh_audit = True, sh_failed = False\<rparr>]\<rparr>"
  have "proc_run env [P_sigterm] s = ?t"
    using assms by (simp add: proc_run_def proc_do_def onSigterm_run)
  moreover have "proc_run env (replicate (ps_requests s) P_respond) ?t = ?t\<lparr>ps_requests := 0\<rparr>"
    using assms(1) by (subst respond_all) simp_all
  moreover have "proc_run env [P_closed] (?t\<lparr>ps_requests := 0\<rparr>)
    = s\<lparr>ps_listening := False, ps_requests := 0, ps_server := False, ps_audit := shutdown (ps_audit s),
        ps_handlers := [\<lparr>sh_server = False, sh_rejects = False, sh_audit = True, sh_failed = False\<rparr>]\<rparr>"
    using assms(1,3) by (simp add: proc_run_def proc_do_def serverClosed_def)
  ultimately show ?thesis
    using proc_run_append [of env "[P_sigterm]" "replicate (ps_requests s) P_respond @ [P_closed]" s]
    by (simp add: proc_run_append)
qed


section \<open>What is lost\<close>

text \<open>Once the worker has stopped the audit file is final, whatever is logged.\<close>

lemma stops_keep_queue:
  "ps_audit (snd (stopBundlerServer s)) = ps_audit s" "ps_audit (snd (stopLibp2p lib s)) = ps_audit s"
  by (simp_all add: stopBundlerServer_def rpc_stop_def andThen_def stopLibp2p_def split: option.split prod.split sum.split)

lemma onSigterm_queue: "ps_audit (onSigterm lib s) = ps_audit s \<or> ps_audit (onSigterm lib s) = shutdown (ps_audit s)"
  by (simp add: onSigterm_def case_prod_unfold Let_def stopAuditLogger_def stops_keep_queue)

lemma stopped_action:
  assumes "auditStopped s"
  shows "auditStopped (proc_do env a s) \<and> aq_log (ps_audit (proc_do env a s)) = aq_log (ps_audit s)"
proof (cases a)
  case P_sigterm
  then show ?thesis using assms onSigterm_queue [of "pe_p2p env" s]
    by (auto simp: proc_do_def auditStopped_def shutdown_def)
qed (use assms in \<open>auto simp: proc_do_def auditStopped_def bootStage_frame serverClosed_frame logUserOp_events\<close>)

lemma late_events_are_lost:
  "auditStopped s \<Longrightarrow> auditFile info dest (ps_audit (proc_run env acts s)) = auditFile info dest (ps_audit s)"
proof (induction acts arbitrary: s)
  case (Cons a acts)
  from stopped_action [OF Cons.prems, of env a] Cons.IH [of "proc_do env a s"] show ?case
    by (simp add: proc_run_def auditFile_def)
qed (simp add: proc_run_def)

text \<open>
  A second SIGTERM while the server is closing brings the handler an error as soon as the last request
  is answered, and the process ends with code 1 whatever the audit log still has to write.
\<close>

lemma second_sigterm_loses_the_log:
  assumes "ps_exit s = None" and "ps_p2p s = None" and "ps_server s" and "\<not> ps_listening s"
    and "t = proc_run env (P_sigterm # replicate (ps_requests s) P_respond @ [P_closed, P_crash]) s"
  shows "ps_exit t = Some 1 \<and> aq_log (ps_audit t) = aq_log (ps_audit s)"
proof -
  let ?u = "onSigterm (pe_p2p env) s"
  have u: "ps_exit ?u = None" "\<not> ps_listening ?u" "ps_requests ?u = ps_requests s"
    "aq_log (ps_audit ?u) = aq_log (ps_audit s)"
    "\<exists>h \<in> set (ps_handlers ?u). sh_server h \<and> sh_rejects h"
    using assms(1-4) by (simp_all add: onSigterm_run shutdown_def)
  have "t = proc_run env [P_closed, P_crash] (proc_run env (replicate (ps_requests s) P_respond) (proc_do env P_sigterm s))"
    unfolding assms(5) by (simp add: proc_run_def)
  also have "\<dots> = proc_run env [P_closed, P_crash] (?u\<lparr>ps_requests := 0\<rparr>)"
    using assms(1) u(1,3) by (simp add: proc_do_def respond_all)
  finally show ?thesis
    using u by (auto simp: proc_run_def proc_do_def serverClosed_def list_ex_iff Bex_def)
qed

section \<open>The process of a configured node\<close>

definition processOf :: "node_config \<Rightarrow> p2p_lib \<Rightarrow> process_env" where
  "processOf config lib = (case createInfrastructure config of (queue, deps, tracker) \<Rightarrow>
     \<lparr>pe_bufferCapacity = aq_slots queue, pe_audit = deps, pe_tracker = tracker, pe_p2p = lib\<rparr>)"

lemma process_starts_with_infrastructure:
  "ps_audit (startedProcess (processOf config lib)) = fst (createInfrastructure config)"
  by (simp add: processOf_def createInfrastructure_def startedProcess_def createAuditLogQueue_def)

text \<open>So the hypothesis on the capacity holds of every node that passes its configuration.\<close>

lemma configured_process_has_a_buffer:
  assumes "createConfig lib args env = Inr config"
  shows "0 < pe_bufferCapacity (processOf config p2p)"
proof -
  from assms have "cf_auditLogBufferSize config = 5000" by (rule createConfig_InrE) (simp add: configOf_def)
  then show ?thesis by (simp add: processOf_def createInfrastructure_def createAuditLogQueue_def)
qed

section \<open>Examples\<close>

definition demo_process :: process_env where
  "demo_process = \<lparr>pe_bufferCapacity = 1,
     pe_audit = \<lparr>ad_clientVersion = ''1'', ad_nodeCommitHash = ''c'', ad_environment = ''production'',
       ad_auditTrailEnabled = False\<rparr>, pe_tracker = None,
     pe_p2p = \<lparr>lp_multiaddr = Inr, lp_isMultiaddr = (\<lambda>_. True), lp_createLibp2p = Inr (), lp_start = Inr (),
       lp_stop = Inr (), lp_getMultiaddrs = [], lp_ping = (\<lambda>_. Inr 1)\<rparr>\<rparr>"

definition demo_input :: "string \<Rightarrow> audit_input" where
  "demo_input h = \<lparr>ai_lifecycleStage = userOpReceived, ai_chainId = 1, ai_userOp = Obj [(''signature'', Str ''0x01'')],
     ai_userOpHash = h, ai_entryPoint = ''0xE'', ai_details = Undefined\<rparr>"

fun orderly_actions :: "process_env \<Rightarrow> proc_action list \<Rightarrow> process \<Rightarrow> bool" where
  "orderly_actions env [] s = True"
| "orderly_actions env (a # as) s = (orderly_action a s \<and> orderly_actions env as (proc_do env a s))"

lemma life_actions:
  "life_run env es late s \<Longrightarrow> orderly_actions env acts s \<Longrightarrow> life_run env es late (proc_run env acts s)"
proof (induction acts arbitrary: s)
  case (Cons a acts)
  then have "life_run env es late (proc_run env acts (proc_do env a s))"
    by (intro Cons.IH) (auto intro: life_other)
  then show ?case by (simp add: proc_run_def)
qed (simp add: proc_run_def)

text \<open>A node that listens and has logged one event, then its stop, with one event logged too late.\<close>

definition demo_listening :: process where
  "demo_listening = proc_do demo_process (P_log ''t0'' (demo_input ''0x0''))
     (proc_run demo_process [P_boot (Inr ()), P_boot (Inr ()), P_request] (startedProcess demo_process))"

definition demo_drained :: process where
  "demo_drained = proc_run demo_process (P_store # P_sigterm # replicate 6 P_worker) demo_listening"

definition demo_exited :: process where
  "demo_exited = proc_run demo_process [P_respond, P_closed, P_flushed, P_exit]
     (proc_do demo_process (P_log ''t1'' (demo_input ''0x1'')) demo_drained)"

lemma demo_listening_run:
  "life_run demo_process ([] @ loggedEvents demo_process ''t0'' (demo_input ''0x0'')) [] demo_listening"
  unfolding demo_listening_def
  by (intro life_early life_actions life_start) code_simp+

lemma demo_exited_run:
  "life_run demo_process ([] @ loggedEvents demo_process ''t0'' (demo_input ''0x0''))
     ([] @ loggedEvents demo_process ''t1'' (demo_input ''0x1'')) demo_exited"
proof -
  have "orderly_actions demo_process (P_store # P_sigterm # replicate 6 P_worker) demo_listening" by code_simp
  from life_actions [OF demo_listening_run this]
  have "life_run demo_process ([] @ loggedEvents demo_process ''t0'' (demo_input ''0x0'')) [] demo_drained"
    by (simp add: demo_drained_def)
  moreover have "ps_exit demo_drained = None" "auditStopped demo_drained" by code_simp+
  ultimately show ?thesis unfolding demo_exited_def by (intro life_actions life_late) (assumption | code_simp)+
qed



end
