(* ===== verification/Public_Node.thy ===== *)
theory Public_Node
  imports Startup
begin

text \<open>
  A node that serves only the public namespaces \<open>eth\<close> and \<open>web3\<close>, from its start on: what can be in its
  pool. The set \<open>E\<close> holds the configurations of the Eth API that requests meet; they differ in what
  lies outside the program, that is in the chain, the clock and the answers of the simulation.
\<close>

inductive public_step :: "string list \<Rightarrow> eth_config set \<Rightarrow> 'z node_state_scheme \<Rightarrow> 'z node_state_scheme \<Rightarrow> bool"
  for prefixes :: "string list" and E :: "eth_config set" where
  Public_request: "eth \<in> E \<Longrightarrow>
    public_step prefixes E s (snd (rpcRequest hx prefixes (bundlerHandlers eth debug version) contentType body s))"
| Public_bundle: "public_step prefixes E s (snd (autoBundleTick mgr s))"
| Public_event: "public_step prefixes E s (snd (onUserOperationEvent ec payload s))"
| Public_hourly: "public_step prefixes E s (snd (cronTick rep s))"
| Public_audit: "public_step prefixes E s (s\<lparr>node_audit := do_action cap act (node_audit s)\<rparr>)"

lemma public_dispatch:
  assumes "set prefixes \<subseteq> {''eth'', ''web3''}" and "dispatched prefixes contentType body = Some m"
  shows "m \<noteq> debug_bundler_setReputation"
proof -
  from assms have "handlerRegistry (js_str (field body ''method'')) = Some m"
    "nameSpacePrefix (js_str (field body ''method'')) \<in> {''eth'', ''web3''}"
    by (auto simp: dispatched_iff dispatches_def wellFormed_def Let_def)
  from public_methods [OF this] show ?thesis by auto
qed

lemma public_step_node:
  assumes "public_step prefixes E s t" and "set prefixes \<subseteq> {''eth'', ''web3''}"
  shows "node_step s t"
  using assms(1)
proof cases
  case (Public_request eth hx debug version contentType body)
  show ?thesis unfolding Public_request
    by (rule Request) (use public_dispatch [OF assms(2)] in blast)
qed (auto intro: node_step.intros)

section \<open>Nothing but requests adds to the pool\<close>

interpretation pool_within: frame "\<lambda>s :: 'z event_state_scheme. poolOps (standardPool s) \<subseteq> V" for V
  by unfold_locales auto

text \<open>The operations that some configuration's validation accepted.\<close>

definition validatedOps :: "eth_config set \<Rightarrow> user_operation set" where
  "validatedOps E = {op. \<exists>eth \<in> E. \<exists>gas input ep h res. accepted_as eth gas input ep h op res}"

definition all_verified :: "eth_config set \<Rightarrow> bool" where
  "all_verified E \<longleftrightarrow> (\<forall>eth \<in> E. mp_verify (ea_mempool eth) (mp_stateCapability (ea_mempool eth)) \<and>
     rm_verify (mp_reputation (ea_mempool eth)) (rm_stateCapability (mp_reputation (ea_mempool eth))))"

lemma request_pool:
  assumes "eth \<in> E" and "all_verified E" and "set prefixes \<subseteq> {''eth'', ''web3''}"
    and "poolOps (standardPool s) \<subseteq> validatedOps E"
  shows "poolOps (standardPool (snd (rpcRequest hx prefixes (bundlerHandlers eth debug version) contentType body s)))
    \<subseteq> validatedOps E"
proof (cases "standardPool (snd (rpcRequest hx prefixes (bundlerHandlers eth debug version) contentType body s))
    = standardPool s")
  case False
  have "mp_verify (ea_mempool eth) (mp_stateCapability (ea_mempool eth))"
    "rm_verify (mp_reputation (ea_mempool eth)) (rm_stateCapability (mp_reputation (ea_mempool eth)))"
    using assms(1,2) by (simp_all add: all_verified_def)
  from public_request_effect [OF assms(3) this refl False] obtain h op res where
    acc: "accepted_as eth (node_gasConfig s) (param (request_params body) 0) (str_param (request_params body) 1) h op res"
    and pool: "standardPool (snd (rpcRequest hx prefixes (bundlerHandlers eth debug version) contentType body s))
      = AList.update h (storedEntry op h res) (replacing op (standardPool s))" by blast
  have "poolOps (replacing op (standardPool s)) \<subseteq> poolOps (standardPool s)"
    by (simp add: replacing_def poolOps_delete split: option.split)
  moreover have "me_userOp (storedEntry op h res) = op" by (simp add: storedEntry_def)
  moreover have "op \<in> validatedOps E" unfolding validatedOps_def using acc assms(1) by blast
  ultimately show ?thesis
    unfolding pool using poolOps_update [of h "storedEntry op h res" "replacing op (standardPool s)"] assms(4) by auto
qed (use assms(4) in simp)

lemma tick_keeps_pool: "keeps (\<lambda>s. standardPool s = po) (cronTick rep :: ('z reputation_state_scheme, unit) act)"
proof -
  have loop: "keeps (\<lambda>s :: 'z reputation_state_scheme. standardPool s = po)
      (for_each ks (\<lambda>a. andThen (updateEntries rep (f a)) (\<lambda>_. ret ())))"
    for ks and f :: "string \<Rightarrow> reputation_entries \<Rightarrow> reputation_entries"
    by (rule keeps_for_each, rule keeps_andThen, rule keeps_updateEntries, simp, rule keeps_ret)
  show ?thesis
  proof (rule keepsI)
    fix s :: "'z reputation_state_scheme" assume "standardPool s = po"
    with keepsD [OF loop this] show "standardPool (snd (cronTick rep s)) = po"
      by (cases "cronSnapshot s") (simp_all add: cronTick_def)
  qed
qed

lemma public_step_pool:
  assumes "public_step prefixes E s t" and "all_verified E" and "set prefixes \<subseteq> {''eth'', ''web3''}"
    and "service_inv s" and "poolOps (standardPool s) \<subseteq> validatedOps E"
  shows "poolOps (standardPool t) \<subseteq> validatedOps E"
  using assms(1)
proof cases
  case (Public_request eth hx debug version contentType body)
  show ?thesis unfolding Public_request(1) by (rule request_pool [OF Public_request(2) assms(2,3,5)])
next
  case (Public_bundle mgr)
  show ?thesis
    using keepsD [OF pool_within.attempt_caught_keep, of s "validatedOps E"] assms(4,5)
    by (auto simp: Public_bundle autoBundleTick_def)
next
  case (Public_event ec payload)
  show ?thesis
    using keepsD [OF pool_within.event_keep, of s "validatedOps E"] assms(4,5)
    by (auto simp: Public_event onUserOperationEvent_def split: chain_log.split)
next
  case (Public_hourly rep)
  show ?thesis using keepsD [OF tick_keeps_pool refl, of rep s] assms(5) by (simp add: Public_hourly)
qed (use assms(5) in simp)

lemma public_steps_pool:
  assumes "(public_step prefixes E)\<^sup>*\<^sup>* s t" and "all_verified E" and "set prefixes \<subseteq> {''eth'', ''web3''}"
    and "node_ok k s" and "poolOps (standardPool s) \<subseteq> validatedOps E"
  shows "node_ok k t \<and> poolOps (standardPool t) \<subseteq> validatedOps E"
  using assms(1)
proof (induction rule: rtranclp_induct)
  case (step t u)
  then have "node_ok k u" using public_step_node [OF _ assms(3)] node_step_keeps by blast
  moreover have "service_inv t" using step.IH by (simp add: node_ok_def)
  ultimately show ?case using public_step_pool [OF step.hyps(2) assms(2,3)] step.IH by blast
qed (use assms(4,5) in simp)


section \<open>A node that takes an operation in safe mode\<close>

text \<open>The configuration of the Eth API of the demonstrations, in safe mode.\<close>

definition demo_safe_validator :: validation_config where
  "demo_safe_validator = demo_validator\<lparr>vl_network := demo_network\<lparr>nw_send := \<lambda>_ _. Inr (Str ''0x01'')\<rparr>\<rparr>"

definition demo_safe_eth :: eth_config where
  "demo_safe_eth = demo_eth\<lparr>ea_validation := demo_safe_validator, ea_now := 1000\<rparr>"

definition demo_safe_result :: validate_user_op_result where
  "demo_safe_result = with_trace (demo_vr\<lparr>vr_returnInfo := (vr_returnInfo demo_vr)\<lparr>ri_validUntil := Some MAX_UNIT_48\<rparr>\<rparr>)
     \<lparr>rc_addresses = [''0xe'', ''0xab''], rc_hash = ''0xhash''\<rparr> []"

lemma demo_safe_steps:
  "getStakes demo_sim_lib ''0xab'' None None = Inr demo_stakes"
  "generateValidationResult demo_sim_lib demo_sent demo_valid_trace demo_stakes
     = RightX ((demo_vr\<lparr>vr_returnInfo := (vr_returnInfo demo_vr)\<lparr>ri_validUntil := Some MAX_UNIT_48\<rparr>\<rparr>, True),
         demo_valid_trace)"
  by code_simp+

lemma demo_safe_simulation:
  "fullSimulateValidation (vl_network demo_safe_validator) demo_sim_lib (vl_io demo_safe_validator) demo_gas_lib
     MAINNET_CONFIG demo_sent (Obj [])
   = RightX ((demo_vr\<lparr>vr_returnInfo := (vr_returnInfo demo_vr)\<lparr>ri_validUntil := Some MAX_UNIT_48\<rparr>\<rparr>, True),
         demo_valid_trace)"
proof -
  have "BigInt_num 38110 = Inr 38110" by (simp add: BigInt_num_def)
  moreover obtain p where "packUserOp hex_reference demo_sent = Inr p" using demo_sent_packs ..
  moreover have "factory demo_sent = None" "sl_hex demo_sim_lib = hex_reference" "sender demo_sent = ''0xab''"
    "paymaster demo_sent = None" "eip7702Auth demo_sent = None"
    by (simp_all add: demo_op_def demo_sent_def demo_sim_lib_def)
  moreover have "debug_traceCall (vl_network demo_safe_validator) tx opts = RightX (Str ''0x01'')" for tx opts
    by (simp add: debug_traceCall_def demo_safe_validator_def)
  moreover have "io_decode_trace (vl_io demo_safe_validator) r = demo_valid_trace" for r
    by (simp add: demo_safe_validator_def demo_validator_def)
  ultimately show ?thesis
    by (simp add: fullSimulateValidation_def simulationGas_def calculatePreVerificationGas_def demo_sent_gas
        runErc7562NativeTracer_def demo_safe_steps demo_trace_steps)
qed

lemma demo_safe_validated: "validateUserOp demo_safe_validator MAINNET_CONFIG 1000 demo_sent None = RightX demo_safe_result"
proof -
  let ?sim = "(demo_vr\<lparr>vr_returnInfo := (vr_returnInfo demo_vr)\<lparr>ri_validUntil := Some MAX_UNIT_48\<rparr>\<rparr>, True)"
  have "case fullValResultSafeParse (vl_network demo_safe_validator) (vl_codeHash demo_safe_validator) demo_parser
      (?sim, demo_valid_trace) demo_sent None of Inr (Right v) \<Rightarrow> v = demo_safe_result | _ \<Rightarrow> False"
    by code_simp
  then have "fullValResultSafeParse (vl_network demo_safe_validator) (vl_codeHash demo_safe_validator) demo_parser
      (?sim, demo_valid_trace) demo_sent None = RightX demo_safe_result"
    by (auto split: sum.splits either.splits)
  moreover have "checkValidationResult 1000 demo_safe_result True = RightX demo_safe_result" by code_simp
  moreover have "vl_sim demo_safe_validator = demo_sim_lib" "vl_gas demo_safe_validator = demo_gas_lib"
    "vl_parser demo_safe_validator = demo_parser" "\<not> vl_isUnsafeMode demo_safe_validator" "eip7702Auth demo_sent = None"
    by (simp_all add: demo_safe_validator_def demo_validator_def demo_sent_def demo_op_def)
  ultimately show ?thesis
    by (simp add: validateUserOp_def checkCodeHashes_def checkAuthorizationList_def getAuthorizationList_def
        simulateSafe_def demo_safe_simulation)
qed

lemma demo_safe_accepted:
  "validateInputParameters demo_safe_validator MAINNET_CONFIG \<lparr>ip_userOpInput = Obj demo_request,
     ip_entryPointInput = ''0xE'', ip_entryPointAddress = ''0xe'', ip_eip7702Support = True\<rparr> True True True
   = RightX demo_request"
  "getUserOpHashWithCode demo_safe_eth demo_request = RightX ''0x01''"
proof -
  have "vl_gas demo_safe_validator = vl_gas demo_unsafe" "vl_showNumber demo_safe_validator = vl_showNumber demo_unsafe"
    by (simp_all add: demo_safe_validator_def demo_unsafe_def)
  then show "validateInputParameters demo_safe_validator MAINNET_CONFIG \<lparr>ip_userOpInput = Obj demo_request,
     ip_entryPointInput = ''0xE'', ip_entryPointAddress = ''0xe'', ip_eip7702Support = True\<rparr> True True True
     = RightX demo_request"
    using demo_validInput by (simp add: validateInputParameters_def checkPreVerificationGas_def)
  have "ea_hex demo_safe_eth = ea_hex demo_eth" "ea_encode_getUserOpHash demo_safe_eth = ea_encode_getUserOpHash demo_eth"
    "ea_network demo_safe_eth = ea_network demo_eth" "ea_entryPoint demo_safe_eth = ea_entryPoint demo_eth"
    by (simp_all add: demo_safe_eth_def demo_eth_def demo_safe_validator_def demo_unsafe_def)
  then show "getUserOpHashWithCode demo_safe_eth demo_request = RightX ''0x01''"
    using demo_sent_hash by (simp add: getUserOpHashWithCode_def)
qed

lemma demo_safe_added:
  assumes "standardPool s = []" and "mempoolEntryCount s = []" and "reputationEntries s = []"
    and "whiteList s = []" and "blackList s = []"
  shows "\<exists>t. addUserOp (demo_mempool 5) (relayParam demo_sent ''0x01'' demo_safe_result) s = (Inr (Right ''0x01''), t)"
proof -
  let ?r = "relayParam demo_sent ''0x01'' demo_safe_result"
  have "fst (addUserOp_checks (demo_mempool 5) ?r s) = Inr (Right (incomingEntry ?r))"
    by (simp add: checks_eval assms relayParam_def demo_safe_result_def demo_vr_def with_trace_def validation_result.defs
      validate_user_op_result.defs demo_sent_def)
  with addUserOp_commit_run [where cfg = "demo_mempool 5" and r = ?r and em = "incomingEntry ?r" and s = s]
  show ?thesis by (auto simp: addUserOp_run)
qed

lemma demo_safe_send:
  assumes "standardPool s = []" and "mempoolEntryCount s = []" and "reputationEntries s = []"
    and "whiteList s = []" and "blackList s = []" and "node_gasConfig s = MAINNET_CONFIG"
  obtains t e where "sendUserOperation demo_safe_eth (Obj demo_request) ''0xE'' s = (Inr (Right ''0x01''), t)"
    and "standardPool t = [(''0x01'', e)]"
proof -
  let ?s = "received demo_safe_eth (Obj demo_request) s"
  have cfg: "ea_validation demo_safe_eth = demo_safe_validator" "ea_mempool demo_safe_eth = demo_mempool 5"
    "ea_now demo_safe_eth = 1000" "ea_entryPoint demo_safe_eth = ''0xe''" "ea_eip7702Support demo_safe_eth"
    by (simp_all add: demo_safe_eth_def demo_eth_def)
  have "fst (sendInput demo_safe_eth (Obj demo_request) ''0xE'' ?s) = RightX demo_request"
    "fst (sendValidated demo_safe_eth demo_request ?s) = Inr (Right (demo_sent, demo_safe_result))"
    using demo_safe_accepted(1) demo_safe_validated
    by (simp_all add: sendInput_def sendValidated_def demo_reads cfg assms(6) received_def)
  moreover obtain t' where "addUserOp (demo_mempool 5) (relayParam demo_sent ''0x01'' demo_safe_result) ?s = (Inr (Right ''0x01''), t')"
    using demo_safe_added [of ?s] assms by (auto simp: received_def)
  ultimately obtain t where
    t: "sendUserOperation demo_safe_eth (Obj demo_request) ''0xE'' s = (Inr (Right ''0x01''), t)"
    using cfg demo_safe_accepted(2) sendUserOperation_run [of demo_safe_eth "Obj demo_request" s "''0xE''"]
    by (auto simp: Let_def relayOp_run)
  from send_accepts [OF _ _ t] obtain e where "standardPool t = [(''0x01'', e)]"
    by (auto simp: cfg replacing_def findBySenderNonce_def assms(1))
  with t that show thesis by blast
qed

text \<open>A start of the node that refuses no address.\<close>

definition demo_safe_lib :: config_lib where "demo_safe_lib = demo_lib\<lparr>cl_parse := \<lambda>defaults args. Inr defaults\<rparr>"

definition demo_safe_env :: env_values where
  "demo_safe_env = TRANSEPTOR_ENV_VALUES [''TRANSEPTOR_BENEFICIARY'' \<mapsto> ''0xbe'', ''TRANSEPTOR_MNEMONIC'' \<mapsto> ''test'']"

definition demo_safe_config :: node_config where
  "demo_safe_config = configOf option_defaults demo_safe_env DEFAULT_NETWORK
     [(0, ''test0''), (1, ''test1'')] ''0xbe'' ''base'' 1 1 0"

lemma demo_safe_configured:
  "createConfig demo_safe_lib [] demo_safe_env = Inr demo_safe_config" "\<not> cf_isP2PMode demo_safe_config"
  "cl_isAddress demo_safe_lib (cf_supportedEntryPointAddress demo_safe_config)"
  "\<not> cf_isUnsafeMode demo_safe_config" "cf_minSignerBalance demo_safe_config = 1"
  "cf_blacklist demo_safe_config = []" "cf_whitelist demo_safe_config = []" "cf_httpApis demo_safe_config = [''web3'', ''eth'']"
proof -
  have url: "isValidUrl DEFAULT_NETWORK" "splitComma ''web3,eth'' = [''web3'', ''eth'']" "parseInt None ''0'' = Some 0"
    by code_simp+
  have int: "int_str 0 = ''0''" "int_str 1 = ''1''" by code_simp+
  show "createConfig demo_safe_lib [] demo_safe_env = Inr demo_safe_config"
    by (simp add: createConfig_def getCmdOptionValues_def demo_safe_lib_def demo_lib_def createProvider_def assertEnvVar_def
        demo_safe_env_def TRANSEPTOR_ENV_VALUES_def getBundlerSignerWallet_def option_defaults_def url SUPPORTED_MODES_def
        SUPPORTED_NAMESPACES_def BigInt_parsed_def demo_safe_config_def upt_rec int numeral_2_eq_2)
  show "\<not> cf_isP2PMode demo_safe_config" "cl_isAddress demo_safe_lib (cf_supportedEntryPointAddress demo_safe_config)"
    "\<not> cf_isUnsafeMode demo_safe_config" "cf_minSignerBalance demo_safe_config = 1"
    "cf_blacklist demo_safe_config = []" "cf_whitelist demo_safe_config = []"
    "cf_httpApis demo_safe_config = [''web3'', ''eth'']"
    by (simp_all add: demo_safe_config_def configOf_def option_defaults_def demo_safe_lib_def demo_lib_def demo_safe_env_def
        DEFAULT_ENTRY_POINT_def TRANSEPTOR_ENV_VALUES_def or_default_def split_env_def url)
qed

lemma demo_safe_starts:
  obtains m s where "runNode demo_safe_lib demo_outside [] demo_safe_env = Inr (demo_safe_config, m, s)"
    and "s = startedState demo_safe_config MAINNET_CONFIG"
proof -
  have "runPreflightChecks demo_safe_config (out_network demo_outside) a (out_signerBalance demo_outside) = Inr ()" for a
    unfolding preflight_iff
    by (simp add: demo_safe_configured demo_outside_def demo_network_def getSupportedNetworks_def checkContractDeployment_def
        supportsDebugTraceCallWithNativeTracer_def debug_traceCall_def)
  then obtain m s where run: "runNode demo_safe_lib demo_outside [] demo_safe_env = Inr (demo_safe_config, m, s)"
    using demo_safe_configured node_starts [OF demo_sound, of demo_safe_lib "[]" demo_safe_env demo_safe_config] by blast
  moreover have "createPreVerificationGasCalculator (nw_chainId (out_network demo_outside)) = Inr MAINNET_CONFIG"
    by (rule supported_gas) (simp add: demo_outside_def demo_network_def getSupportedNetworks_def)
  ultimately have "s = startedState demo_safe_config MAINNET_CONFIG"
    using startModules_run [OF demo_sound, of demo_safe_config MAINNET_CONFIG]
    by (auto simp: runNode_def Let_def elim!: bindX_InrE split: if_splits prod.splits sum.splits)
  with run that show thesis by blast
qed


end
