(* ===== verification/Mempool_Refinement.thy ===== *)
theory Mempool_Refinement
  imports Bundle_Processor
begin

text \<open>
  The mempool as a map: abstractly it holds at most one operation for each sender, in any letter case,
  and nonce. Every operation of the manager is a step of that abstract mempool; the hashes under which
  the code keeps the entries, the order of its dictionary and the counters are not visible there.
\<close>

section \<open>The interface of a store with one entry for each key\<close>

locale slot_store =
  fixes lookup :: "'s \<Rightarrow> 'k \<Rightarrow> 'e option" and store :: "'e \<Rightarrow> 's \<Rightarrow> 's" and erase :: "'k \<Rightarrow> 's \<Rightarrow> 's"
    and key :: "'e \<Rightarrow> 'k" and ok :: "'s \<Rightarrow> bool" and fits :: "'e \<Rightarrow> 's \<Rightarrow> bool"
  assumes lookup_store: "ok s \<Longrightarrow> fits e s \<Longrightarrow> lookup (store e s) = (lookup s)(key e \<mapsto> e)"
    and lookup_erase: "ok s \<Longrightarrow> lookup (erase k s) = (lookup s)(k := None)"
    and ok_store: "ok s \<Longrightarrow> ok (store e s)"
    and ok_erase: "ok s \<Longrightarrow> ok (erase k s)"
begin

lemma stored: "ok s \<Longrightarrow> fits e s \<Longrightarrow> lookup (store e s) (key e) = Some e"
  by (simp add: lookup_store)

lemma store_elsewhere: "ok s \<Longrightarrow> fits e s \<Longrightarrow> k \<noteq> key e \<Longrightarrow> lookup (store e s) k = lookup s k"
  by (simp add: lookup_store)

lemma replace:
  "ok s \<Longrightarrow> fits e s \<Longrightarrow> fits e' (store e s) \<Longrightarrow> key e' = key e \<Longrightarrow>
     lookup (store e' (store e s)) = (lookup s)(key e \<mapsto> e')"
  by (simp add: lookup_store ok_store)

lemma erase_stored: "ok s \<Longrightarrow> fits e s \<Longrightarrow> lookup s (key e) = None \<Longrightarrow> lookup (erase (key e) (store e s)) = lookup s"
  by (simp add: lookup_store lookup_erase ok_store fun_upd_idem)

lemma erase_all: "ok s \<Longrightarrow> ok (fold erase ks s) \<and> lookup (fold erase ks s) = lookup s |` (- set ks)"
proof (induction ks arbitrary: s)
  case (Cons k ks)
  from Cons.IH [OF ok_erase [OF Cons.prems, of k]] Cons.prems show ?case
    by (auto simp: lookup_erase restrict_map_def fun_eq_iff)
qed (simp add: restrict_map_def)

end

section \<open>The pool as a map\<close>

definition pool_abs :: "standard_pool \<Rightarrow> string \<times> int \<Rightarrow> mempool_entry option" where
  "pool_abs po k = List.find (\<lambda>e. slot e = k) (map snd po)"

lemma findBySenderNonce_abs: "findBySenderNonce sd n po = pool_abs po (toLowerCase sd, n)"
  by (simp add: findBySenderNonce_def pool_abs_def slot_def)

lemma find_SomeD: "List.find P xs = Some x \<Longrightarrow> x \<in> set xs \<and> P x"
  by (induction xs) (auto split: if_splits)

lemma pool_abs_iff:
  assumes "pool_ok po"
  shows "pool_abs po k = Some e \<longleftrightarrow> (me_userOpHash e, e) \<in> set po \<and> slot e = k"
proof
  assume "pool_abs po k = Some e"
  then have "e \<in> set (map snd po)" "slot e = k" unfolding pool_abs_def by (blast dest: find_SomeD)+
  then show "(me_userOpHash e, e) \<in> set po \<and> slot e = k" using pool_ok_hash [OF assms] by fastforce
next
  assume e: "(me_userOpHash e, e) \<in> set po \<and> slot e = k"
  then obtain e' where e': "pool_abs po k = Some e'"
    by (cases "pool_abs po k") (auto simp: pool_abs_def find_None_iff)
  then have "e' \<in> set (map snd po)" "slot e' = k" unfolding pool_abs_def by (blast dest: find_SomeD)+
  then obtain h where "(h, e') \<in> set po" by auto
  with pool_ok_slot [OF assms this, of "me_userOpHash e" e] e \<open>slot e' = k\<close> pool_ok_lookup [OF assms]
  show "pool_abs po k = Some e" using e' by (metis option.inject)
qed

lemma option_eqI: "(\<And>e. a = Some e \<longleftrightarrow> b = Some e) \<Longrightarrow> a = b"
  by (metis not_None_eq)

lemma map_eqI: "(\<And>k e. f k = Some e \<longleftrightarrow> g k = Some e) \<Longrightarrow> f = g"
  by (rule ext) (rule option_eqI)

definition storeEntry :: "mempool_entry \<Rightarrow> standard_pool \<Rightarrow> standard_pool" where
  "storeEntry e po = AList.update (me_userOpHash e) e
     (case pool_abs po (slot e) of None \<Rightarrow> po | Some old \<Rightarrow> AList.delete (me_userOpHash old) po)"

definition eraseSlot :: "string \<times> int \<Rightarrow> standard_pool \<Rightarrow> standard_pool" where
  "eraseSlot k po = (case pool_abs po k of None \<Rightarrow> po | Some e \<Rightarrow> fst (dropEntry e po []))"

text \<open>Equal hashes belong to operations of one sender and nonce.\<close>

definition hash_fits :: "mempool_entry \<Rightarrow> standard_pool \<Rightarrow> bool" where
  "hash_fits e po \<longleftrightarrow> list_all (\<lambda>(h, e'). h = me_userOpHash e \<longrightarrow> slot e' = slot e) po"

lemma storeEntry_doUpdate:
  assumes "md_oldEntry md = findBySenderNonce (sender (me_userOp e)) (nonce (me_userOp e)) po"
  shows "fst (doUpdateMempoolState (e, md) po co) = storeEntry e po"
  using assms by (simp add: doUpdateMempoolState_def storeEntry_def Let_def findBySenderNonce_abs slot_def
      split: option.split)

lemma storeEntry_ok: "pool_ok po \<Longrightarrow> pool_ok (storeEntry e po)"
  using pool_ok_doUpdate [of po "undefined\<lparr>md_oldEntry := findBySenderNonce (sender (me_userOp e)) (nonce (me_userOp e)) po\<rparr>" e "[]"]
  by (simp add: storeEntry_doUpdate)

lemma eraseSlot_filter: "pool_ok po \<Longrightarrow> eraseSlot k po = filter (\<lambda>(h, e). slot e \<noteq> k) po"
proof (cases "pool_abs po k")
  case None
  then have "filter (\<lambda>(h, e). slot e \<noteq> k) po = po"
    by (intro filter_True) (force simp: pool_abs_def find_None_iff)
  with None show ?thesis by (simp add: eraseSlot_def)
next
  case (Some e)
  assume po: "pool_ok po"
  with Some have e: "(me_userOpHash e, e) \<in> set po" "slot e = k" by (simp_all add: pool_abs_iff)
  have "h \<noteq> me_userOpHash e \<longleftrightarrow> slot e' \<noteq> k" if "(h, e') \<in> set po" for h e'
    using pool_ok_slot [OF po that e(1)] e that po by (metis pool_ok_lookup [OF po] option.inject)
  then have "AList.delete (me_userOpHash e) po = filter (\<lambda>(h, e). slot e \<noteq> k) po"
    unfolding AList.delete_eq by (intro filter_cong) auto
  with Some show ?thesis by (simp add: eraseSlot_def dropEntry_def Let_def)
qed

lemma pool_abs_filter:
  assumes "pool_ok po"
  shows "pool_abs (filter (\<lambda>(h, e). P e) po) k = (case pool_abs po k of Some e \<Rightarrow> if P e then Some e else None | None \<Rightarrow> None)"
proof (rule option_eqI)
  fix e
  have "pool_abs (filter (\<lambda>(h, e). P e) po) k = Some e \<longleftrightarrow> pool_abs po k = Some e \<and> P e"
    using assms pool_ok_filter [OF assms, of "\<lambda>(h, e). P e"] by (auto simp: pool_abs_iff)
  then show "pool_abs (filter (\<lambda>(h, e). P e) po) k = Some e \<longleftrightarrow>
      (case pool_abs po k of Some e \<Rightarrow> if P e then Some e else None | None \<Rightarrow> None) = Some e"
    by (auto split: option.splits if_splits)
qed

lemma storeEntry_abs:
  assumes po: "pool_ok po" and fits: "hash_fits e po"
  shows "pool_abs (storeEntry e po) = (pool_abs po)(slot e \<mapsto> e)"
proof (rule map_eqI)
  fix k x
  have old: "slot e' = slot e" if "(me_userOpHash e, e') \<in> set po" for e'
    using fits that by (auto simp: hash_fits_def list_all_iff)
  have rest: "(case pool_abs po (slot e) of None \<Rightarrow> po | Some old \<Rightarrow> AList.delete (me_userOpHash old) po)
      = filter (\<lambda>(h, e'). slot e' \<noteq> slot e) po"
    using eraseSlot_filter [OF po, of "slot e"]
    by (simp add: eraseSlot_def dropEntry_def Let_def split: option.splits)
  have "obj_ok (filter (\<lambda>(h, e'). slot e' \<noteq> slot e) po)"
    using pool_ok_filter [OF po] by (simp add: pool_ok_def)
  then have "(h, x) \<in> set (storeEntry e po) \<longleftrightarrow>
      h = me_userOpHash e \<and> x = e \<or> (h, x) \<in> set po \<and> slot x \<noteq> slot e" for h
    using old by (auto simp: storeEntry_def rest set_update_distinct)
  then show "pool_abs (storeEntry e po) k = Some x \<longleftrightarrow> ((pool_abs po)(slot e \<mapsto> e)) k = Some x"
    by (auto simp: pool_abs_iff [OF po] pool_abs_iff [OF storeEntry_ok [OF po]])
qed

lemma eraseSlot_abs: "pool_ok po \<Longrightarrow> pool_abs (eraseSlot k po) = (pool_abs po)(k := None)"
  by (rule ext) (auto simp: eraseSlot_filter pool_abs_filter dest: pool_abs_iff [THEN iffD1] split: option.split)

interpretation pool: slot_store pool_abs storeEntry eraseSlot slot pool_ok hash_fits
proof unfold_locales
  show "pool_ok (storeEntry e po)" if "pool_ok po" for e po using that by (rule storeEntry_ok)
  show "pool_ok (eraseSlot k po)" if "pool_ok po" for k po
    using pool_ok_filter [OF that] by (simp add: eraseSlot_filter that)
qed (simp_all add: storeEntry_abs eraseSlot_abs)

section \<open>The abstract mempool\<close>

type_synonym slots = "string \<times> int \<Rightarrow> mempool_entry option"

datatype mp_call = Add_call relay_user_op_param | Remove_call op_or_hash | Ban_call string | Next_call | All_call
  | Status_call op_or_hash entry_status | Clear_call

fun target :: "op_or_hash \<Rightarrow> slots \<Rightarrow> (string \<times> int) set" where
  "target (By_op op) m = {(toLowerCase (sender op), nonce op)}"
| "target (By_hash h) m = {k. \<exists>e. m k = Some e \<and> me_userOpHash e = h}"

definition mark_slots :: "entry_status \<Rightarrow> (string \<times> int) set \<Rightarrow> slots \<Rightarrow> slots" where
  "mark_slots st K m = (\<lambda>k. if k \<in> K then map_option (\<lambda>e. e\<lparr>me_status := st\<rparr>) (m k) else m k)"

definition pending_slots :: "slots \<Rightarrow> (string \<times> int) set" where
  "pending_slots m = {k. \<exists>e. m k = Some e \<and> me_status e = pending}"

text \<open>A step of the abstract mempool: at most \<open>n\<close> operations are taken at once, and all if there are fewer.\<close>

inductive slots_step :: "nat \<Rightarrow> mp_call \<Rightarrow> bool \<Rightarrow> slots \<Rightarrow> slots \<Rightarrow> bool" for n :: nat where
  slots_add: "e = fst (incomingEntry r) \<Longrightarrow> slots_step n (Add_call r) True m (m(slot e \<mapsto> e))"
| slots_reject: "slots_step n (Add_call r) False m m"
| slots_remove: "slots_step n (Remove_call x) True m (m |` (- target x m))"
| slots_ban: "slots_step n (Ban_call a) True m (\<lambda>k. case m k of None \<Rightarrow> None
    | Some e \<Rightarrow> if names_address a (me_userOp e) then None else Some e)"
| slots_next: "K \<subseteq> pending_slots m \<Longrightarrow> card K = min n (card (pending_slots m)) \<Longrightarrow>
    slots_step n Next_call True m (mark_slots bundling K m)"
| slots_all: "slots_step n All_call True m (mark_slots bundling (pending_slots m) m)"
| slots_status: "slots_step n (Status_call x st) True m (mark_slots st (target x m) m)"
| slots_clear: "slots_step n Clear_call True m (\<lambda>_. None)"

text \<open>The state after a call of the manager, and whether the call took effect.\<close>

fun mp_after :: "mempool_config \<Rightarrow> mp_call \<Rightarrow> 'z State_scheme \<Rightarrow> 'z State_scheme" where
  "mp_after cfg (Add_call r) s = snd (addUserOp cfg r s)"
| "mp_after cfg (Remove_call x) s = snd (removeUserOp cfg x s)"
| "mp_after cfg (Ban_call a) s = snd (removeUserOpsForBannedAddr cfg a s)"
| "mp_after cfg Next_call s = snd (getNextPending cfg s)"
| "mp_after cfg All_call s = snd (getAllPending cfg s)"
| "mp_after cfg (Status_call x st) s = snd (updateEntryStatus cfg x st s)"
| "mp_after cfg Clear_call s = snd (mp_clearState cfg s)"

fun mp_accepts :: "mempool_config \<Rightarrow> mp_call \<Rightarrow> 'z State_scheme \<Rightarrow> bool" where
  "mp_accepts cfg (Add_call r) s = (case fst (addUserOp cfg r s) of Inr (Right _) \<Rightarrow> True | _ \<Rightarrow> False)"
| "mp_accepts cfg _ s = True"

fun call_fits :: "mp_call \<Rightarrow> standard_pool \<Rightarrow> bool" where
  "call_fits (Add_call r) po = hash_fits (fst (incomingEntry r)) po"
| "call_fits _ po = True"

section \<open>The simulation\<close>

lemma findEntry_target:
  assumes "pool_ok po"
  shows "target x (pool_abs po) \<inter> dom (pool_abs po) = (case findEntry x po of None \<Rightarrow> {} | Some e \<Rightarrow> {slot e})"
proof (cases x)
  case (By_op op)
  then show ?thesis using assms
    by (auto simp: findBySenderNonce_abs dom_def dest: pool_abs_iff [THEN iffD1] split: option.split)
next
  case (By_hash h)
  have "k \<in> target x (pool_abs po) \<longleftrightarrow> (\<exists>e. map_of po h = Some e \<and> slot e = k)" for k
    using assms by (auto simp: By_hash pool_abs_iff pool_ok_lookup dest: pool_ok_hash)
  moreover have "target x (pool_abs po) \<subseteq> dom (pool_abs po)" by (auto simp: By_hash)
  ultimately show ?thesis by (auto simp: By_hash split: option.split)
qed

lemma restrict_target:
  "target x m \<inter> dom m = {} \<Longrightarrow> m |` (- target x m) = m"
  "target x m \<inter> dom m = {k} \<Longrightarrow> m |` (- target x m) = m(k := None)"
  by (auto simp: restrict_map_def fun_eq_iff dom_def) (metis (mono_tags, lifting) IntI mem_Collect_eq empty_iff insert_iff not_None_eq)+

lemma mark_target: "mark_slots st K m = mark_slots st (K \<inter> dom m) m"
  by (auto simp: mark_slots_def fun_eq_iff dom_def)

lemma markPool_mem:
  "(h, x) \<in> set (markPool st hs po) \<longleftrightarrow> (\<exists>e. (h, e) \<in> set po \<and> x = (if h \<in> hs then e\<lparr>me_status := st\<rparr> else e))"
  unfolding markPool_def set_map image_iff by (simp add: case_prod_unfold Bex_def)

lemma pool_abs_mark:
  assumes po: "pool_ok po" and "set found \<subseteq> snd ` set po"
  shows "pool_abs (markPool st (me_userOpHash ` set found) po) = mark_slots st (slot ` set found) (pool_abs po)"
proof (rule map_eqI)
  fix k x
  have found: "(me_userOpHash e, e) \<in> set po" if "e \<in> set found" for e
    using that assms(2) pool_ok_hash [OF po] by fastforce
  have same: "h \<in> me_userOpHash ` set found \<longleftrightarrow> slot e \<in> slot ` set found" if "(h, e) \<in> set po" for h e
    using pool_ok_slot [OF po that found] pool_ok_hash [OF po that] that found
    by (auto simp: image_iff) (metis option.inject pool_ok_lookup [OF po])+
  have "(me_userOpHash x, x) \<in> set (markPool st (me_userOpHash ` set found) po) \<and> slot x = k \<longleftrightarrow>
      (\<exists>e. (me_userOpHash e, e) \<in> set po \<and> slot e = k \<and>
           x = (if me_userOpHash e \<in> me_userOpHash ` set found then e\<lparr>me_status := st\<rparr> else e))"
    (is "?l \<longleftrightarrow> ?r")
  proof
    assume ?l
    then obtain e where e: "(me_userOpHash x, e) \<in> set po" "slot x = k"
      "x = (if me_userOpHash x \<in> me_userOpHash ` set found then e\<lparr>me_status := st\<rparr> else e)"
      unfolding markPool_mem by blast
    from pool_ok_hash [OF po e(1)] e(3) have "me_userOpHash e = me_userOpHash x" "slot e = slot x"
      by (simp_all split: if_splits)
    with e show ?r by (intro exI [of _ e]) simp
  next
    assume ?r
    then obtain e where e: "(me_userOpHash e, e) \<in> set po" "slot e = k"
      "x = (if me_userOpHash e \<in> me_userOpHash ` set found then e\<lparr>me_status := st\<rparr> else e)" by blast
    then have "me_userOpHash x = me_userOpHash e" "slot x = slot e" by simp_all
    with e show ?l unfolding markPool_mem by auto
  qed
  also have "\<dots> \<longleftrightarrow> (\<exists>e. (me_userOpHash e, e) \<in> set po \<and> slot e = k \<and>
           x = (if slot e \<in> slot ` set found then e\<lparr>me_status := st\<rparr> else e))"
    using same by metis
  also have "\<dots> \<longleftrightarrow> mark_slots st (slot ` set found) (pool_abs po) k = Some x"
    using pool_abs_iff [OF po, of k] by (auto simp: mark_slots_def)
  finally show "pool_abs (markPool st (me_userOpHash ` set found) po) k = Some x \<longleftrightarrow>
      mark_slots st (slot ` set found) (pool_abs po) k = Some x"
    by (simp add: pool_abs_iff [OF pool_ok_markPool [OF po]])
qed

lemma pending_slots_abs:
  assumes "pool_ok po"
  shows "pending_slots (pool_abs po) = slot ` set (pendingOf po)"
  unfolding pending_slots_def pool_abs_iff [OF assms]
  using pendingOf_hash [OF assms] by (force simp: pendingOf_def)

lemma distinct_pending_slots:
  assumes "pool_ok po"
  shows "distinct (map slot (pendingOf po))"
proof -
  have "inj_on slot (set (pendingOf po))"
    using pool_ok_slot [OF assms] pendingOf_hash [OF assms] pool_ok_lookup [OF assms]
    by (intro inj_onI) (metis option.inject)
  moreover have "distinct (pendingOf po)" using distinct_pending_hashes [OF assms] by (simp add: distinct_map)
  ultimately show ?thesis by (simp add: distinct_map)
qed

lemma pending_in_pool: "set (pendingOf po) \<subseteq> snd ` set po"
  by (auto simp: pendingOf_def)

lemma incoming_slot: "slot (fst (incomingEntry r)) = (toLowerCase (sender (rl_userOp r)), nonce (rl_userOp r))"
  "me_userOpHash (fst (incomingEntry r)) = rl_userOpHash r"
  by (simp_all add: incomingEntry_def slot_def)

lemma accepted_pool:
  assumes "mp_verify cfg (mp_stateCapability cfg)"
    and "rm_verify (mp_reputation cfg) (rm_stateCapability (mp_reputation cfg))"
    and "mp_accepts cfg (Add_call r) s"
  shows "standardPool (snd (addUserOp cfg r s)) = storeEntry (fst (incomingEntry r)) (standardPool s)"
proof -
  obtain h where "fst (addUserOp cfg r s) = Inr (Right h)"
    using assms(3) by (auto split: sum.splits either.splits)
  with addUserOp_effect [OF assms(1,2), of r s] show ?thesis
    by (simp add: storeEntry_def incoming_slot findBySenderNonce_abs)
qed

text \<open>An accepted operation is found under its sender and nonce, and no other is moved.\<close>

lemma accepted_is_found:
  assumes "mp_verify cfg (mp_stateCapability cfg)"
    and "rm_verify (mp_reputation cfg) (rm_stateCapability (mp_reputation cfg))"
    and "mp_accepts cfg (Add_call r) s" and "pool_ok (standardPool s)"
    and "hash_fits (fst (incomingEntry r)) (standardPool s)"
  shows "findBySenderNonce (sender (rl_userOp r)) (nonce (rl_userOp r)) (standardPool (snd (addUserOp cfg r s)))
      = Some (fst (incomingEntry r))"
    "k \<noteq> slot (fst (incomingEntry r)) \<Longrightarrow>
      pool_abs (standardPool (snd (addUserOp cfg r s))) k = pool_abs (standardPool s) k"
  using pool.stored [OF assms(4,5)] pool.store_elsewhere [OF assms(4,5)]
  by (simp_all add: accepted_pool [OF assms(1-3)] findBySenderNonce_abs incoming_slot)

lemma add_simulates:
  assumes "mp_verify cfg (mp_stateCapability cfg)"
    and "rm_verify (mp_reputation cfg) (rm_stateCapability (mp_reputation cfg))"
    and "pool_ok (standardPool s)" and "hash_fits (fst (incomingEntry r)) (standardPool s)"
  shows "slots_step n (Add_call r) (mp_accepts cfg (Add_call r) s) (pool_abs (standardPool s))
    (pool_abs (standardPool (snd (addUserOp cfg r s))))"
proof (cases "mp_accepts cfg (Add_call r) s")
  case True
  from accepted_pool [OF assms(1,2) True]
  have "standardPool (snd (addUserOp cfg r s)) = storeEntry (fst (incomingEntry r)) (standardPool s)" .
  with True slots_add [OF refl] show ?thesis by (simp add: storeEntry_abs assms(3,4))
next
  case False
  with addUserOp_effect [OF assms(1,2), of r s] have "snd (addUserOp cfg r s) = s"
    by (auto split: sum.splits either.splits)
  with False slots_reject show ?thesis by simp
qed

lemma removeUserOp_pool_eq:
  assumes "mp_verify cfg (mp_stateCapability cfg)"
  shows "standardPool (snd (removeUserOp cfg x s)) = (case findEntry x (standardPool s) of None \<Rightarrow> standardPool s
    | Some e \<Rightarrow> AList.delete (me_userOpHash e) (standardPool s))"
  by (simp add: removeUserOp_def andThen_def readPool_run [OF assms] updatePoolAndCount_run [OF assms]
      dropEntry_def Let_def split: option.split)

lemma remove_simulates:
  assumes "mp_verify cfg (mp_stateCapability cfg)" and po: "pool_ok (standardPool s)"
  shows "slots_step n (Remove_call x) True (pool_abs (standardPool s))
    (pool_abs (standardPool (snd (removeUserOp cfg x s))))"
proof -
  have "pool_abs (standardPool (snd (removeUserOp cfg x s)))
      = pool_abs (standardPool s) |` (- target x (pool_abs (standardPool s)))"
  proof (cases "findEntry x (standardPool s)")
    case None
    with findEntry_target [OF po, of x] show ?thesis
      by (simp add: removeUserOp_pool_eq [OF assms(1)] restrict_target(1))
  next
    case (Some e)
    then have "pool_abs (standardPool s) (slot e) = Some e"
      using pool_ok_findEntry [OF po] by (simp add: pool_abs_iff [OF po])
    then have "AList.delete (me_userOpHash e) (standardPool s) = eraseSlot (slot e) (standardPool s)"
      by (simp add: eraseSlot_def dropEntry_def Let_def)
    with Some findEntry_target [OF po, of x] show ?thesis
      by (simp add: removeUserOp_pool_eq [OF assms(1)] restrict_target(2) eraseSlot_abs [OF po])
  qed
  then show ?thesis by (simp add: slots_remove)
qed

lemma ban_simulates:
  assumes "mp_verify cfg (mp_stateCapability cfg)" and po: "pool_ok (standardPool s)"
  shows "slots_step n (Ban_call a) True (pool_abs (standardPool s))
    (pool_abs (standardPool (snd (removeUserOpsForBannedAddr cfg a s))))"
proof -
  obtain co where "removeUserOpsForBannedAddr cfg a s = (Inr (),
    s\<lparr>standardPool := filter (\<lambda>(h, e). \<not> names_address a (me_userOp e)) (standardPool s), mempoolEntryCount := co\<rparr>)"
    using removeBanned_run [OF assms] by blast
  then have "pool_abs (standardPool (snd (removeUserOpsForBannedAddr cfg a s))) = (\<lambda>k.
      case pool_abs (standardPool s) k of None \<Rightarrow> None | Some e \<Rightarrow> if names_address a (me_userOp e) then None else Some e)"
    by (auto simp: pool_abs_filter [OF po] split: option.split)
  then show ?thesis by (simp add: slots_ban)
qed

lemma next_simulates:
  assumes "mp_verify cfg (mp_stateCapability cfg)" and po: "pool_ok (standardPool s)"
  shows "slots_step (nat (mp_bundleSize cfg)) Next_call True (pool_abs (standardPool s))
      (pool_abs (standardPool (snd (getNextPending cfg s))))"
    "slots_step n All_call True (pool_abs (standardPool s)) (pool_abs (standardPool (snd (getAllPending cfg s))))"
proof -
  let ?n = "nat (mp_bundleSize cfg)" and ?p = "pendingOf (standardPool s)"
  note d = distinct_pending_slots [OF po]
  have "card (set (map slot (take ?n ?p))) = length (take ?n ?p)"
    using distinct_take [OF d, of ?n] unfolding take_map by (metis distinct_card length_map)
  moreover have "card (set (map slot ?p)) = length ?p" using distinct_card [OF d] by simp
  ultimately have "card (slot ` set (take ?n ?p)) = min ?n (card (pending_slots (pool_abs (standardPool s))))"
    by (simp add: pending_slots_abs [OF po] min.commute)
  moreover have "slot ` set (take ?n ?p) \<subseteq> pending_slots (pool_abs (standardPool s))"
    by (auto simp: pending_slots_abs [OF po] dest: in_set_takeD)
  moreover have "set (take ?n ?p) \<subseteq> snd ` set (standardPool s)"
    using set_take_subset [of ?n ?p] pending_in_pool by blast
  ultimately show "slots_step ?n Next_call True (pool_abs (standardPool s))
      (pool_abs (standardPool (snd (getNextPending cfg s))))"
    by (simp add: pending_run [OF assms] pool_abs_mark [OF po] slots_next)
  show "slots_step n All_call True (pool_abs (standardPool s)) (pool_abs (standardPool (snd (getAllPending cfg s))))"
    using slots_all [of n "pool_abs (standardPool s)"]
    by (simp add: pending_run [OF assms] pool_abs_mark [OF po pending_in_pool] pending_slots_abs [OF po])
qed

lemma status_simulates:
  assumes "mp_verify cfg (mp_stateCapability cfg)" and po: "pool_ok (standardPool s)"
  shows "slots_step n (Status_call x st) True (pool_abs (standardPool s))
    (pool_abs (standardPool (snd (updateEntryStatus cfg x st s))))"
proof -
  have "pool_abs (standardPool (snd (updateEntryStatus cfg x st s)))
      = mark_slots st (target x (pool_abs (standardPool s)) \<inter> dom (pool_abs (standardPool s))) (pool_abs (standardPool s))"
  proof (cases "findEntry x (standardPool s)")
    case None
    then show ?thesis
      by (simp add: updateEntryStatus_run [OF assms(1)] findEntry_target [OF po] mark_slots_def)
  next
    case (Some e)
    then have e: "(me_userOpHash e, e) \<in> set (standardPool s)" using pool_ok_findEntry [OF po] by simp
    then have "map_of (standardPool s) (me_userOpHash e) = Some e" by (simp add: pool_ok_lookup [OF po])
    moreover have "obj_ok (standardPool s)" using po by (simp add: pool_ok_def)
    ultimately have "AList.update (me_userOpHash e) (e\<lparr>me_status := st\<rparr>) (standardPool s)
        = markPool st (me_userOpHash ` set [e]) (standardPool s)"
      using setPoolStatus_eq [of "standardPool s" "me_userOpHash e" st] pool_key [OF e]
      by (simp add: setPoolStatus_def)
    with Some pool_abs_mark [OF po, of "[e]" st] e show ?thesis
      by (force simp: updateEntryStatus_run [OF assms(1)] findEntry_target [OF po])
  qed
  then show ?thesis using slots_status [of n x st] by (simp flip: mark_target)
qed

text \<open>
  Property C12. The mempool implements a map from (sender in any letter case, nonce) to operations:
  adding an accepted operation stores it, pending, in its slot, a rejected one changes nothing,
  removing by hash or by operation empties the slot, banning an address empties the slots that name
  it, taking pending operations marks as many as there are up to the bundle size, and nothing else
  changes; looking up a sender and nonce is looking up the map.
\<close>

theorem mempool_refines_slots:
  assumes "mp_verify cfg (mp_stateCapability cfg)"
    and "rm_verify (mp_reputation cfg) (rm_stateCapability (mp_reputation cfg))"
    and "pool_ok (standardPool s)" and "call_fits c (standardPool s)"
  shows "slots_step (nat (mp_bundleSize cfg)) c (mp_accepts cfg c s) (pool_abs (standardPool s))
      (pool_abs (standardPool (mp_after cfg c s))) \<and>
    pool_ok (standardPool (mp_after cfg c s)) \<and>
    findBySenderNonce sd m (standardPool (mp_after cfg c s))
      = pool_abs (standardPool (mp_after cfg c s)) (toLowerCase sd, m)"
proof -
  have "mp_step cfg s (mp_after cfg c s)" by (cases c) (auto intro: mp_step.intros)
  from mp_step_pool_inv [OF this assms(3)] have "pool_ok (standardPool (mp_after cfg c s))" .
  moreover have "slots_step (nat (mp_bundleSize cfg)) c (mp_accepts cfg c s) (pool_abs (standardPool s))
      (pool_abs (standardPool (mp_after cfg c s)))"
  proof (cases c)
    case (Add_call r)
    with add_simulates [OF assms(1-3), of r] assms(4) show ?thesis by simp
  next
    case Clear_call
    moreover have "pool_abs [] = (\<lambda>_. None)" by (simp add: pool_abs_def fun_eq_iff)
    ultimately show ?thesis
      using slots_clear by (simp add: mp_clearState_def updatePoolAndCount_run [OF assms(1)])
  qed (simp_all add: remove_simulates ban_simulates next_simulates status_simulates assms(1,3))
  ultimately show ?thesis by (simp add: findBySenderNonce_abs)
qed

theorem mempool_refines_slots_witness:
  "let e = (\<lambda>n. demo_entry (demo_op ''0xab'' n None 1));
       s = demo_pool_state [(''h1'', e 1 ''h1'' pending), (''h2'', e 2 ''h2'' pending)] [];
       s' = mp_after (demo_mempool 5) (Remove_call (By_op (demo_op ''0xAB'' 1 None 1))) s
   in slots_step 5 (Remove_call (By_op (demo_op ''0xAB'' 1 None 1))) True
        (pool_abs (standardPool s)) (pool_abs (standardPool s'))"
  unfolding Let_def
  using mempool_refines_slots [where cfg = "demo_mempool 5" and c = "Remove_call (By_op (demo_op ''0xAB'' 1 None 1))"
      and s = "demo_pool_state [(''h1'', demo_entry (demo_op ''0xab'' 1 None 1) ''h1'' pending),
        (''h2'', demo_entry (demo_op ''0xab'' 2 None 1) ''h2'' pending)] []"]
  by (simp add: pool_ok_def obj_ok_def slot_def)

end
