(* ===== verification/Logger.thy ===== *)
theory Logger
  imports Input_Validation
begin

text \<open>
  The text logger (\<open>src/logger/logger.ts\<close>): which fields a logger adds to its lines. \<open>pino\<close> itself is
  a list of such bindings that \<open>child\<close> extends. The store of an \<open>AsyncLocalStorage\<close> holds the
  request's context while the function given to \<open>run\<close> is running.
\<close>

record pino =
  pn_level :: string
  pn_redact :: "string list"
  pn_bindings :: "(string \<times> js) list"

definition pino_child :: "(string \<times> js) list \<Rightarrow> pino \<Rightarrow> pino" where
  "pino_child bindings logger = logger\<lparr>pn_bindings := pn_bindings logger @ bindings\<rparr>"

definition createLogger :: "string \<Rightarrow> pino" where
  "createLogger logLevel = \<lparr>pn_level = logLevel,
     pn_redact = [''req.headers.authorization'', ''req.remoteAddress''], pn_bindings = []\<rparr>"

text \<open>The state is the store as the current function sees it: the context's \<open>requestId\<close>.\<close>

definition als_run :: "'c \<Rightarrow> ('c option, unit) act \<Rightarrow> ('c option, unit) act" where
  "als_run context f = (\<lambda>s. (fst (f (Some context)), s))"

definition getRequestLogger :: "pino \<Rightarrow> (js option, pino) act" where
  "getRequestLogger logger = (\<lambda>context.
     (case context of
        None \<Rightarrow> (Inr logger, context)
      | Some requestId \<Rightarrow>
          if \<not> js_truthy requestId then (Inr logger, context)
          else (Inr (pino_child [(''requestId'', requestId)] logger), context)))"

definition withModuleContext :: "string \<Rightarrow> pino \<Rightarrow> (js option, pino) act" where
  "withModuleContext modName logger =
     andThen (getRequestLogger logger) (\<lambda>baseLogger. ret (pino_child [(''module'', Str modName)] baseLogger))"

definition setBaseLoggerRequestContext :: "js \<Rightarrow> (js option, unit) act" where
  "setBaseLoggerRequestContext requestId = als_run requestId (ret ())"

text \<open>
  The function run in the request's context is empty, and the context ends with it: a request leaves
  the store as it was, so whatever requests have come in, no logger made afterwards names one.
\<close>

lemma request_context_is_gone: "setBaseLoggerRequestContext requestId s = (Inr (), s)"
  by (simp add: setBaseLoggerRequestContext_def als_run_def)

lemma no_logger_names_its_request:
  "fst (andThen (for_each requestIds setBaseLoggerRequestContext) (\<lambda>_. withModuleContext m (createLogger l)) None)
     = Inr (pino_child [(''module'', Str m)] (createLogger l))"
proof -
  have "for_each requestIds setBaseLoggerRequestContext s = (Inr (), s)" for s
    by (induction requestIds arbitrary: s) (simp_all add: andThen_def request_context_is_gone)
  then show ?thesis
    by (simp add: andThen_def withModuleContext_def getRequestLogger_def)
qed

text \<open>Inside \<open>run\<close> the binding is there.\<close>

lemma logger_inside_run:
  "js_truthy requestId \<Longrightarrow> withModuleContext m (createLogger l) (Some requestId)
     = (Inr (pino_child [(''requestId'', requestId), (''module'', Str m)] (createLogger l)), Some requestId)"
  by (simp add: withModuleContext_def getRequestLogger_def andThen_def pino_child_def)

end
