(* ===== verification/Eip7702.thy ===== *)
theory Eip7702
  imports UserOp_Packing
begin

text \<open>
  The EIP-7702 utilities of \<open>src/utils/eip-7702.utils.ts\<close>: the RLP form of the fields of an
  authorization, the digest its authority signs, the recovery of the authority, and the data of a
  set-code transaction. RLP, \<open>keccak256\<close>, the recovery of a public key and the signing of a
  transaction are the packages \<open>ethers\<close> and \<open>ethereumjs\<close>: the record \<open>eip7702_lib\<close> is an argument.
\<close>

section \<open>The RLP form of a field\<close>

text \<open>A \<open>BigNumberish\<close> is a number or \<open>bigint\<close>, or a string.\<close>

datatype big_numberish = Big int | Text string

text \<open>\<open>s.replace(/0x0*/, '0x')\<close>, and \<open>ret.replace('0x', '0x0')\<close>: the first match only.\<close>

fun dropZeros :: "string \<Rightarrow> string" where
  "dropZeros (a # b # s) =
     (if a = CHR ''0'' \<and> b = CHR ''x'' then a # b # dropWhile (\<lambda>c. c = CHR ''0'') s else a # dropZeros (b # s))"
| "dropZeros s = s"

fun padOdd :: "string \<Rightarrow> string" where
  "padOdd (a # b # s) =
     (if a = CHR ''0'' \<and> b = CHR ''x'' then a # b # CHR ''0'' # s else a # padOdd (b # s))"
| "padOdd s = s"

definition rlpText :: "string \<Rightarrow> string" where
  "rlpText s = (let ret = dropZeros s in if length ret mod 2 = 1 then padOdd ret else ret)"

definition toRlpHex :: "hex_lib \<Rightarrow> big_numberish \<Rightarrow> exn + string" where
  "toRlpHex hx s = (case s of
     Big n \<Rightarrow> bindX (hl_toBeHex hx n) (\<lambda>t. Inr (rlpText t))
   | Text t \<Rightarrow> Inr (rlpText t))"

section \<open>Authorizations\<close>

record unsigned_authorization =
  ua_chainId :: big_numberish
  ua_address :: string
  ua_nonce :: "big_numberish option"

record signed_authorization = unsigned_authorization +
  sa_yParity :: big_numberish
  sa_r :: big_numberish
  sa_s :: big_numberish

record authorization_rlp =
  ar_chainId :: string
  ar_address :: string
  ar_nonce :: string
  ar_yParity :: string
  ar_r :: string
  ar_s :: string

record set_code_tx =
  sc_nonce :: string
  sc_to :: string
  sc_value :: string
  sc_data :: string
  sc_chainId :: string
  sc_maxPriorityFeePerGas :: string
  sc_maxFeePerGas :: string
  sc_gasLimit :: string
  sc_authorizationList :: "authorization_rlp list"

record tx_request =
  tq_nonce :: int
  tq_to :: string
  tq_data :: string
  tq_chainId :: int
  tq_maxPriorityFeePerGas :: int
  tq_maxFeePerGas :: int

text \<open>
  \<open>el_toBigIntHex\<close> is \<open>toBeHex\<close> of a \<open>BigNumberish\<close>; \<open>el_signTx\<close> builds, signs and serializes a
  transaction for a chain id and private key.
\<close>

record eip7702_lib =
  el_hex :: hex_lib
  el_encodeRlp :: "string list \<Rightarrow> exn + string"
  el_keccak256 :: "string \<Rightarrow> exn + string"
  el_toBigIntHex :: "big_numberish \<Rightarrow> exn + string"
  el_toBuffer :: "string \<Rightarrow> exn + string"
  el_ecrecover :: "string \<Rightarrow> string \<Rightarrow> string \<Rightarrow> string \<Rightarrow> exn + string"
  el_pubToAddress :: "string \<Rightarrow> exn + string"
  el_toChecksumAddress :: "string \<Rightarrow> exn + string"
  el_signTx :: "int \<Rightarrow> set_code_tx \<Rightarrow> string \<Rightarrow> exn + string"

definition EIP7702_MAGIC :: string where
  "EIP7702_MAGIC = ''0x05''"

text \<open>\<open>s.replace\<close> of an absent nonce throws.\<close>

definition toRlpHex_opt :: "hex_lib \<Rightarrow> big_numberish option \<Rightarrow> exn + string" where
  "toRlpHex_opt hx s = (case s of
     None \<Rightarrow> Inl (TypeErrorExn ''Cannot read properties of undefined'')
   | Some n \<Rightarrow> toRlpHex hx n)"

definition eip7702DataToSign :: "eip7702_lib \<Rightarrow> 'z unsigned_authorization_scheme \<Rightarrow> exn + string" where
  "eip7702DataToSign lib authorization =
     bindX (toRlpHex (el_hex lib) (ua_chainId authorization)) (\<lambda>chainId.
     bindX (toRlpHex (el_hex lib) (Text (ua_address authorization))) (\<lambda>address.
     bindX (toRlpHex_opt (el_hex lib) (ua_nonce authorization)) (\<lambda>nonce.
     bindX (el_encodeRlp lib [chainId, address, nonce]) (\<lambda>rlp.
     bindX (hexConcat (el_hex lib) [EIP7702_MAGIC, rlp]) (el_keccak256 lib)))))"

definition getEip7702AuthorizationSigner :: "eip7702_lib \<Rightarrow> signed_authorization \<Rightarrow> exn + string" where
  "getEip7702AuthorizationSigner lib authorization =
     bindX (el_toBigIntHex lib (sa_yParity authorization)) (\<lambda>yParity.
     bindX (bindX (el_toBigIntHex lib (sa_r authorization)) (el_toBuffer lib)) (\<lambda>r.
     bindX (bindX (el_toBigIntHex lib (sa_s authorization)) (el_toBuffer lib)) (\<lambda>s.
     bindX (bindX (eip7702DataToSign lib authorization) (el_toBuffer lib)) (\<lambda>dataToSign.
     bindX (el_ecrecover lib dataToSign yParity r s) (\<lambda>key.
     bindX (el_pubToAddress lib key) (\<lambda>retRecover.
     bindX (hl_hexlify (el_hex lib) retRecover) (el_toChecksumAddress lib)))))))"

definition authorization_rlp_of :: "hex_lib \<Rightarrow> signed_authorization \<Rightarrow> exn + authorization_rlp" where
  "authorization_rlp_of hx it =
     bindX (toRlpHex hx (ua_chainId it)) (\<lambda>chainId.
     bindX (toRlpHex hx (Text (ua_address it))) (\<lambda>address.
     bindX (toRlpHex_opt hx (ua_nonce it)) (\<lambda>nonce.
     bindX (toRlpHex hx (sa_yParity it)) (\<lambda>yParity.
     bindX (toRlpHex hx (sa_r it)) (\<lambda>r.
     bindX (toRlpHex hx (sa_s it)) (\<lambda>s.
       Inr \<lparr>ar_chainId = chainId, ar_address = address, ar_nonce = nonce, ar_yParity = yParity,
            ar_r = r, ar_s = s\<rparr>))))))"

fun authorizationList :: "hex_lib \<Rightarrow> signed_authorization list \<Rightarrow> exn + authorization_rlp list" where
  "authorizationList hx [] = Inr []"
| "authorizationList hx (it # its) = bindX (authorization_rlp_of hx it)
     (\<lambda>a. bindX (authorizationList hx its) (\<lambda>as. Inr (a # as)))"

definition COMMON_CHAIN_ID :: int where "COMMON_CHAIN_ID = 1337"

definition GAS_LIMIT_7702 :: int where "GAS_LIMIT_7702 = 10000000"

definition prepareEip7702Transaction ::
  "eip7702_lib \<Rightarrow> tx_request \<Rightarrow> signed_authorization list \<Rightarrow> string \<Rightarrow> exn + string" where
  "prepareEip7702Transaction lib tx eip7702Tuples privateKey =
     bindX (authorizationList (el_hex lib) eip7702Tuples) (\<lambda>auths.
     bindX (hl_toBeHex (el_hex lib) (tq_nonce tx)) (\<lambda>nonce.
     bindX (hl_hexlify (el_hex lib) (tq_data tx)) (\<lambda>data.
     bindX (hl_toBeHex (el_hex lib) (tq_chainId tx)) (\<lambda>chainId.
     bindX (hl_toBeHex (el_hex lib) (tq_maxPriorityFeePerGas tx)) (\<lambda>priority.
     bindX (hl_toBeHex (el_hex lib) (tq_maxFeePerGas tx)) (\<lambda>fee.
     bindX (hl_toBeHex (el_hex lib) GAS_LIMIT_7702) (\<lambda>gasLimit.
       el_signTx lib COMMON_CHAIN_ID \<lparr>sc_nonce = nonce, sc_to = tq_to tx, sc_value = ''0x0'', sc_data = data,
         sc_chainId = chainId, sc_maxPriorityFeePerGas = priority, sc_maxFeePerGas = fee, sc_gasLimit = gasLimit,
         sc_authorizationList = auths\<rparr> privateKey)))))))"

section \<open>The RLP form is canonical\<close>

text \<open>Hex data of whole bytes without a leading zero byte, what RLP demands of an integer.\<close>

definition minimal :: "string \<Rightarrow> bool" where
  "minimal h \<longleftrightarrow> hex_data h \<and> take 2 h \<noteq> ''00''"

abbreviation nonzero_tail :: "string \<Rightarrow> string" where
  "nonzero_tail h \<equiv> dropWhile (\<lambda>c. c = CHR ''0'') h"

definition whole_bytes :: "string \<Rightarrow> string" where
  "whole_bytes h = (if odd (length h) then CHR ''0'' # h else h)"

lemma rlpText_hex: "rlpText (''0x'' @ h) = ''0x'' @ whole_bytes (nonzero_tail h)"
  by (simp add: rlpText_def whole_bytes_def Let_def odd_iff_mod_2_eq_one)

lemma digits_value_zeros [simp]: "digits_value 16 (nonzero_tail h) = digits_value 16 h"
  by (induction h) (simp_all add: digits_value_def digit_value_def)

lemma digits_value_whole [simp]: "digits_value 16 (whole_bytes h) = digits_value 16 h"
  by (simp add: whole_bytes_def digits_value_def digit_value_def)

lemma hex_digits_tail: "hex_digits h \<Longrightarrow> hex_digits (nonzero_tail h)"
  unfolding hex_digits_def list_all_iff by (blast dest: set_dropWhileD)

lemma minimal_whole: "hex_digits h \<Longrightarrow> minimal (whole_bytes (nonzero_tail h))"
proof -
  assume h: "hex_digits h"
  define d where "d = nonzero_tail h"
  have d: "hex_digits d" using hex_digits_tail [OF h] by (simp add: d_def)
  have "d = [] \<or> hd d \<noteq> CHR ''0''" using hd_dropWhile [of "\<lambda>c. c = CHR ''0''" h] by (auto simp: d_def)
  then have "take 2 (whole_bytes d) \<noteq> ''00''"
    by (cases d) (simp_all add: whole_bytes_def take_Cons')
  moreover have "hex_digits (CHR ''0'' # d)" using d by (simp add: hex_digits_def digit_value_def)
  ultimately show ?thesis
    using d by (simp add: minimal_def hex_data_def whole_bytes_def flip: d_def)
qed

lemma hex_char_of_digit: "digit_value c < 16 \<Longrightarrow> hex_char (digit_value c) = lower_char c"
proof -
  assume c: "digit_value c < 16"
  define n where "n = (of_char c :: nat)"
  have id: "char_of n = c" by (simp add: n_def)
  from c consider "48 \<le> n" "n \<le> 57" | "97 \<le> n" "n \<le> 102" | "65 \<le> n" "n \<le> 70"
    unfolding digit_value_def Let_def n_def [symmetric] by (fastforce split: if_splits)
  then show ?thesis
  proof cases
    case 1
    then have "n - 48 < 10" by simp
    with 1 show ?thesis by (simp add: digit_value_def hex_char_def lower_char_def n_def [symmetric] id)
  next
    case 2
    then have "\<not> n - 87 < 10" by simp
    with 2 show ?thesis by (simp add: digit_value_def hex_char_def lower_char_def n_def [symmetric] id)
  next
    case 3
    then have "87 + (n - 55) = n + 32" "\<not> n - 55 < 10" by simp_all
    moreover have "digit_value c = n - 55" "lower_char c = char_of (n + 32)"
      using 3 by (simp_all add: digit_value_def lower_char_def n_def [symmetric])
    ultimately show ?thesis by (simp add: hex_char_def add.commute)
  qed
qed

lemma lower_hex_fixed: "hex_digits h \<Longrightarrow> toLowerCase h = hex_fixed (length h) (digits_value 16 h)"
proof (induction h rule: rev_induct)
  case (snoc c h)
  then have c: "digit_value c < 16" by (simp add: hex_digits_def)
  with snoc show ?case
    by (simp add: digits_value_snoc hex_char_of_digit toLowerCase_def)
qed (simp add: toLowerCase_def)

lemma digits_value_bound: "hex_digits h \<Longrightarrow> digits_value 16 h < 16 ^ length h"
proof (induction h rule: rev_induct)
  case (snoc c h)
  then have "digits_value 16 h + 1 \<le> 16 ^ length h" "digit_value c < 16" by (simp_all add: hex_digits_def)
  then show ?case by (simp add: digits_value_snoc)
qed (simp add: digits_value_def)

lemma lower_char_zero [simp]: "lower_char c = CHR ''0'' \<longleftrightarrow> c = CHR ''0''"
proof
  assume z: "lower_char c = CHR ''0''"
  define n where "n = (of_char c :: nat)"
  have "of_char (lower_char c) = (48 :: nat)" by (simp add: z)
  then have "\<not> (65 \<le> n \<and> n \<le> 90)"
    by (auto simp: lower_char_def n_def [symmetric] Let_def)
  then have "lower_char c = c" unfolding lower_char_def n_def [symmetric] Let_def by (rule if_not_P)
  with z show "c = CHR ''0''" by simp
qed (simp add: lower_char_def)

lemma digit_zero: "digit_value c = 0 \<Longrightarrow> c = CHR ''0''"
proof -
  assume "digit_value c = 0"
  moreover have "hex_char 0 = CHR ''0''" by code_simp
  ultimately have "lower_char c = CHR ''0''" using hex_char_of_digit [of c] by simp
  then show ?thesis by (simp only: lower_char_zero)
qed

lemma digits_value_Cons: "digits_value 16 (c # h) = digit_value c * 16 ^ length h + digits_value 16 h"
proof (induction h rule: rev_induct)
  case (snoc x h)
  then show ?case using digits_value_snoc [of 16 "c # h" x] by (simp add: digits_value_snoc algebra_simps)
qed (simp add: digits_value_def)

lemma tail_lower_bound: "nonzero_tail h \<noteq> [] \<Longrightarrow> 16 ^ (length (nonzero_tail h) - 1) \<le> digits_value 16 h"
proof -
  assume "nonzero_tail h \<noteq> []"
  then obtain c d where d: "nonzero_tail h = c # d" by (cases "nonzero_tail h") simp_all
  then have "c \<noteq> CHR ''0''" using hd_dropWhile [of "\<lambda>c. c = CHR ''0''" h] by simp
  with digit_zero [of c] have "1 \<le> digit_value c" by fastforce
  from mult_le_mono1 [OF this, of "16 ^ length d"]
  have "16 ^ length d \<le> digits_value 16 (c # d)" unfolding digits_value_Cons by linarith
  then show ?thesis using digits_value_zeros [of h] by (simp add: d)
qed

lemma tail_length_le:
  assumes "hex_digits a" and "hex_digits b" and "digits_value 16 a = digits_value 16 b"
  shows "length (nonzero_tail a) \<le> length (nonzero_tail b)"
proof (cases "nonzero_tail a = []")
  case False
  have "16 ^ (length (nonzero_tail a) - 1) \<le> digits_value 16 b"
    using tail_lower_bound [OF False] assms(3) by simp
  also have "\<dots> < 16 ^ length (nonzero_tail b)"
    using digits_value_bound [OF hex_digits_tail [OF assms(2)]] by simp
  finally have "(16 :: nat) ^ (length (nonzero_tail a) - 1) < 16 ^ length (nonzero_tail b)" .
  then have "length (nonzero_tail a) - 1 < length (nonzero_tail b)" by (rule power_less_imp_less_exp [rotated]) simp
  then show ?thesis by simp
next
  case True
  then show ?thesis by (simp only: list.size le0)
qed

text \<open>Two hex strings of one value have one tail, up to case.\<close>

lemma tail_unique:
  assumes "hex_digits a" and "hex_digits b" and "digits_value 16 a = digits_value 16 b"
  shows "toLowerCase (nonzero_tail a) = toLowerCase (nonzero_tail b)"
proof -
  have "length (nonzero_tail a) = length (nonzero_tail b)"
    using tail_length_le assms by (metis le_antisym)
  then show ?thesis
    using assms by (simp add: lower_hex_fixed hex_digits_tail)
qed

lemma tail_lower: "toLowerCase (nonzero_tail h) = nonzero_tail (toLowerCase h)"
  by (induction h) (simp_all add: toLowerCase_def)

lemma whole_bytes_lower: "toLowerCase (whole_bytes h) = whole_bytes (toLowerCase h)"
  by (simp add: whole_bytes_def toLowerCase_def)



text \<open>An address is a byte string, not an integer: one that starts with a zero byte is shortened.\<close>

lemma zero_address_is_shortened:
  assumes "hex_digits a" and "length a = 40" and "toRlpHex hx (Text (''0x'' @ a)) = Inr s"
  shows "length s = 42 \<longleftrightarrow> take 2 a \<noteq> ''00''"
proof -
  obtain x y b where a: "a = x # y # b" "length b = 38"
    using assms(2) by (cases a; cases "tl a") auto
  have s: "s = ''0x'' @ whole_bytes (nonzero_tail a)" using assms(3) rlpText_hex [of a] by (simp add: toRlpHex_def)
  have "length (nonzero_tail b) \<le> 38" using a(2) length_dropWhile_le [of _ b] by simp
  then show ?thesis by (auto simp: s a whole_bytes_def)
qed

end
