(* ===== verification/Safety.thy ===== *)
theory Safety
  imports Prelude
begin

text \<open>
  The freezing of dependencies (\<open>src/utils/safety.utils.ts\<close>): every module is created from a deep
  copy of its dependencies. \<open>Object.freeze\<close> changes no value, so the copy of a plain value is that
  value; an instance of a class is refused, except the logger's.
\<close>

fun deepFreezeClone :: "js \<Rightarrow> exn + js"
  and freezeMembers :: "js list \<Rightarrow> exn + js list"
  and freezeFields :: "(string \<times> js) list \<Rightarrow> exn + (string \<times> js) list" where
  "deepFreezeClone (Instance c) =
     (if c = ''Pino'' then Inr (Instance c)
      else Inl (ErrorExn (''deepFreezeClone only supports plain objects and arrays. Got instance of '' @ c)))"
| "deepFreezeClone (Arr xs) = bindX (freezeMembers xs) (\<lambda>ys. Inr (Arr ys))"
| "deepFreezeClone (Obj fs) = bindX (freezeFields fs) (\<lambda>gs. Inr (Obj gs))"
| "deepFreezeClone Undefined = Inr Undefined"
| "deepFreezeClone Null = Inr Null"
| "deepFreezeClone (Bool b) = Inr (Bool b)"
| "deepFreezeClone (Num n) = Inr (Num n)"
| "deepFreezeClone (BigNum n) = Inr (BigNum n)"
| "deepFreezeClone (Str s) = Inr (Str s)"
| "deepFreezeClone Fn = Inr Fn"
| "freezeMembers [] = Inr []"
| "freezeMembers (x # xs) = bindX (deepFreezeClone x) (\<lambda>y. bindX (freezeMembers xs) (\<lambda>ys. Inr (y # ys)))"
| "freezeFields [] = Inr []"
| "freezeFields ((k, x) # fs) = bindX (deepFreezeClone x) (\<lambda>y. bindX (freezeFields fs) (\<lambda>gs. Inr ((k, y) # gs)))"

definition withReadonly :: "(js \<Rightarrow> exn + 'm) \<Rightarrow> js \<Rightarrow> exn + 'm" where
  "withReadonly createModuleFn deps = bindX (deepFreezeClone deps) createModuleFn"

text \<open>The class instances of a value that are not loggers.\<close>

fun foreign_instance :: "js \<Rightarrow> bool" where
  "foreign_instance (Instance c) = (c \<noteq> ''Pino'')"
| "foreign_instance (Arr xs) = list_ex foreign_instance xs"
| "foreign_instance (Obj fs) = list_ex (\<lambda>(k, x). foreign_instance x) fs"
| "foreign_instance _ = False"

lemma freeze_plain:
  "\<not> foreign_instance v \<Longrightarrow> deepFreezeClone v = Inr v"
  "\<not> list_ex foreign_instance xs \<Longrightarrow> freezeMembers xs = Inr xs"
  "\<not> list_ex (\<lambda>(k, x). foreign_instance x) fs \<Longrightarrow> freezeFields fs = Inr fs"
  by (induction v and xs and fs rule: deepFreezeClone_freezeMembers_freezeFields.induct) simp_all

lemma freeze_foreign:
  "foreign_instance v \<Longrightarrow> \<exists>e. deepFreezeClone v = Inl e"
  "list_ex foreign_instance xs \<Longrightarrow> \<exists>e. freezeMembers xs = Inl e"
  "list_ex (\<lambda>(k, x). foreign_instance x) fs \<Longrightarrow> \<exists>e. freezeFields fs = Inl e"
proof (induction v and xs and fs rule: deepFreezeClone_freezeMembers_freezeFields.induct)
  case (12 x xs)
  then show ?case by (cases "foreign_instance x") (auto simp: freeze_plain)
next
  case (14 k x fs)
  then show ?case by (cases "foreign_instance x") (auto simp: freeze_plain)
qed auto

text \<open>
  A module is created from exactly the dependencies given, or, if a class instance other than a
  logger is among them, at any depth, not at all.
\<close>

lemma withReadonly_spec:
  "\<not> foreign_instance deps \<Longrightarrow> withReadonly f deps = f deps"
  "foreign_instance deps \<Longrightarrow> \<exists>e. withReadonly f deps = Inl e"
  using freeze_plain(1) [of deps] freeze_foreign(1) [of deps] by (auto simp: withReadonly_def)

end
